theory Spec2Isabelle
  imports Main
begin

section \<open>Values as the reflect package shows them\<close>

text \<open>
  The operators of package \<open>td\<close> look at every value through Go's \<open>reflect\<close>
  package. The embedding keeps what the operators of \<open>td_array.go\<close>, \<open>td_re.go\<close> and
  \<open>td_json.go\<close> observe: the kind of a value, its type, its elements, and whether it is
  nil.
\<close>

datatype kind =
    Invalid_Kind | Bool_Kind
  | Int_Kind | Int8_Kind | Int16_Kind | Int32_Kind | Int64_Kind
  | Uint_Kind | Uint8_Kind | Uint16_Kind | Uint32_Kind | Uint64_Kind | Uintptr_Kind
  | Float32_Kind | Float64_Kind | Complex64_Kind | Complex128_Kind
  | Array_Kind | Chan_Kind | Func_Kind | Interface_Kind | Map_Kind | Ptr_Kind
  | Slice_Kind | String_Kind | Struct_Kind | UnsafePointer_Kind

text \<open>
  A type is an array, slice or pointer type built on its element type, or any other
  type, given by its name and its kind (\<open>Basic ''int'' Int_Kind\<close>,
  \<open>Basic ''map[string]interface {}'' Map_Kind\<close>).
\<close>

datatype rtype =
    Basic string kind
  | ArrayOf nat rtype
  | SliceOf rtype
  | PtrTo rtype

fun Kind :: "rtype \<Rightarrow> kind" where
  "Kind (Basic name k) = k"
| "Kind (ArrayOf n t) = Array_Kind"
| "Kind (SliceOf t) = Slice_Kind"
| "Kind (PtrTo t) = Ptr_Kind"

text \<open>\<open>Type.Elem\<close> and \<open>Type.Len\<close> panic on a type that has none: \<open>None\<close>.\<close>

fun Elem :: "rtype \<Rightarrow> rtype option" where
  "Elem (ArrayOf n t) = Some t"
| "Elem (SliceOf t) = Some t"
| "Elem (PtrTo t) = Some t"
| "Elem (Basic name k) = None"

fun Len_type :: "rtype \<Rightarrow> nat option" where
  "Len_type (ArrayOf n t) = Some n"
| "Len_type t = None"

text \<open>
  A value is what an \<open>interface{}\<close> or a \<open>reflect.Value\<close> holds. \<open>VInvalid\<close> is the
  zero \<open>reflect.Value\<close>, which is also \<open>reflect.ValueOf(nil)\<close>, the untyped nil.
  \<open>VNil t\<close> is the nil of the nilable type \<open>t\<close>. \<open>VSeq t xs\<close> is an array or a
  non-nil slice of type \<open>t\<close>, \<open>VMap t kvs\<close> a non-nil map with its keys and
  values. \<open>VObj t e s\<close> is a value of any other shape, with the
  text of its \<open>Error()\<close> method and of its \<open>String()\<close> method when it has them.
  \<open>TestDeep name\<close> is a value that implements the \<open>TestDeep\<close> interface, an operator.
\<close>

datatype val =
    VInvalid
  | VBool rtype bool
  | VInt rtype int
  | VStr rtype string
  | VNil rtype
  | VSeq rtype "val list"
  | VPtr rtype val
  | VMap rtype "(val \<times> val) list"
  | VObj rtype "string option" "string option"
  | TestDeep string

fun IsValid :: "val \<Rightarrow> bool" where
  "IsValid VInvalid = False"
| "IsValid v = True"

fun is_TestDeep :: "val \<Rightarrow> bool" where
  "is_TestDeep (TestDeep name) = True"
| "is_TestDeep v = False"

fun Type_of :: "val \<Rightarrow> rtype option" where
  "Type_of VInvalid = None"
| "Type_of (VBool t b) = Some t"
| "Type_of (VInt t i) = Some t"
| "Type_of (VStr t s) = Some t"
| "Type_of (VNil t) = Some t"
| "Type_of (VSeq t xs) = Some t"
| "Type_of (VPtr t v) = Some t"
| "Type_of (VMap t kvs) = Some t"
| "Type_of (VObj t e s) = Some t"
| "Type_of (TestDeep name) = Some (PtrTo (Basic name Struct_Kind))"

definition Kind_of :: "val \<Rightarrow> kind" where
  "Kind_of v = (case Type_of v of None \<Rightarrow> Invalid_Kind | Some t \<Rightarrow> Kind t)"

text \<open>
  The elements of an array or slice value; a nil slice has none. \<open>Value.Len\<close> and
  \<open>Value.Index\<close> panic on any other value these files pass them, and \<open>Index\<close> panics
  out of range: \<open>None\<close>.
\<close>

fun elems :: "val \<Rightarrow> val list option" where
  "elems (VSeq t xs) = Some xs"
| "elems (VNil (SliceOf t)) = Some []"
| "elems v = None"

definition Len :: "val \<Rightarrow> nat option" where
  "Len v = map_option length (elems v)"

definition Index :: "val \<Rightarrow> nat \<Rightarrow> val option" where
  "Index v i = (case elems v of None \<Rightarrow> None
                | Some xs \<Rightarrow> if i < length xs then Some (xs ! i) else None)"

text \<open>
  \<open>reflect.Zero\<close>: the zero value of a type. The zero of a type of another shape is
  the \<open>VObj\<close> without method texts.
\<close>

fun Zero :: "rtype \<Rightarrow> val" where
  "Zero (ArrayOf n t) = VSeq (ArrayOf n t) (replicate n (Zero t))"
| "Zero (SliceOf t) = VNil (SliceOf t)"
| "Zero (PtrTo t) = VNil (PtrTo t)"
| "Zero (Basic name k) =
     (if k = Bool_Kind then VBool (Basic name k) False
      else if k \<in> {Int_Kind, Int8_Kind, Int16_Kind, Int32_Kind, Int64_Kind,
                    Uint_Kind, Uint8_Kind, Uint16_Kind, Uint32_Kind, Uint64_Kind, Uintptr_Kind}
        then VInt (Basic name k) 0
      else if k = String_Kind then VStr (Basic name k) []
      else if k \<in> {Chan_Kind, Func_Kind, Interface_Kind, Map_Kind, Ptr_Kind, Slice_Kind,
                    UnsafePointer_Kind}
        then VNil (Basic name k)
      else VObj (Basic name k) None None)"

section \<open>Usage errors\<close>

text \<open>
  A constructor that fails returns an error built by \<open>color.Bad(format, args...)\<close>, or
  by \<open>color.BadUsage\<close>; the embedding keeps the format and its arguments as they are
  passed. A Go run-time panic (an index out of range, a reflect call on the wrong kind)
  is the failure \<open>RuntimePanic\<close>.
\<close>

datatype arg = AInt int | AStr string | AType rtype

datatype failure =
    Bad string "arg list"
  | BadUsage string val nat bool
  | TooManyParams string
  | RuntimePanic string

section \<open>Array and Slice: construction\<close>

record tdExpectedType =
  expectedType :: rtype
  isPtr :: bool

record tdArray = tdExpectedType +
  expectedEntries :: "val list"

text \<open>
  \<open>ArrayEntries\<close> is a Go map from index to expected value. A map holds each key once
  and is ranged over in an order the language leaves open: the embedding takes the
  entries as the list of pairs in the order the \<open>range\<close> loop meets them, and looks a
  key up with \<open>map_of\<close>.
\<close>

type_synonym ArrayEntries = "(int \<times> val) list"

definition maxIndex_of :: "ArrayEntries \<Rightarrow> int" where
  "maxIndex_of entries =
     fold (\<lambda>(index, v) maxIndex. if index > maxIndex then index else maxIndex)
       entries (- 1)"

definition nilable :: "kind \<Rightarrow> bool" where
  "nilable k \<longleftrightarrow>
     k \<in> {Chan_Kind, Func_Kind, Interface_Kind, Map_Kind, Ptr_Kind, Slice_Kind}"

text \<open>
  The value stored for one entry (lines 168 to 192): a nil
  becomes the typed nil of a nilable element type, a value that is not an operator must
  be assignable to the element type. \<open>assignable\<close> is \<open>reflect.Type.AssignableTo\<close>.
\<close>

definition entry_value ::
  "(rtype \<Rightarrow> rtype \<Rightarrow> bool) \<Rightarrow> rtype \<Rightarrow> int \<Rightarrow> int \<Rightarrow> val \<Rightarrow> failure + val" where
  "entry_value assignable elemType maxLength index expectedValue =
     (if expectedValue = VInvalid then
        (if nilable (Kind elemType) then Inr (Zero elemType)
         else Inl (Bad ''expected value of #%d cannot be nil as items type is %s''
                     [AInt index, AType elemType]))
      else
        (case Type_of expectedValue of
           None \<Rightarrow> Inl (RuntimePanic ''reflect: call of reflect.Value.Type on zero Value'')
         | Some t \<Rightarrow>
             if \<not> is_TestDeep expectedValue \<and> \<not> assignable t elemType then
               Inl (Bad ''type %s of #%d expected value differs from %s contents (%s)''
                      [AType t, AInt index,
                       AStr (if maxLength < 0 then ''slice'' else ''array''),
                       AType elemType])
             else Inr expectedValue))"

text \<open>The first loop over the entries (lines 167 to 195).\<close>

fun set_entries ::
  "(rtype \<Rightarrow> rtype \<Rightarrow> bool) \<Rightarrow> rtype \<Rightarrow> int \<Rightarrow> ArrayEntries \<Rightarrow> val list
     \<Rightarrow> failure + val list" where
  "set_entries assignable elemType maxLength [] es = Inr es"
| "set_entries assignable elemType maxLength ((index, expectedValue) # rest) es =
     (case entry_value assignable elemType maxLength index expectedValue of
        Inl err \<Rightarrow> Inl err
      | Inr vexpectedValue \<Rightarrow>
          if index < 0 \<or> int (length es) \<le> index then
            Inl (RuntimePanic ''index out of range'')
          else set_entries assignable elemType maxLength rest
                 (es[nat index := vexpectedValue]))"

text \<open>
  The loop over the model, from its last index down to 0 (lines 201 to 217); the
  first argument counts the indexes still to visit, so the index visited is one less.
  \<open>reflect.DeepEqual\<close> on the zero value is equality of values.
\<close>

fun model_entries ::
  "val \<Rightarrow> ArrayEntries \<Rightarrow> val list \<Rightarrow> nat \<Rightarrow> val list \<Rightarrow> failure + val list" where
  "model_entries zero entries model 0 es = Inr es"
| "model_entries zero entries model (Suc index) es =
     (if length model \<le> index then Inl (RuntimePanic ''reflect: slice index out of range'')
      else if map_of entries (int index) \<noteq> None then
        (if zero \<noteq> model ! index then
           Inl (Bad ''non zero #%d entry in model already exists in expectedEntries''
                  [AInt (int index)])
         else model_entries zero entries model index es)
      else if length es \<le> index then Inl (RuntimePanic ''index out of range'')
      else model_entries zero entries model index (es[index := model ! index]))"

text \<open>The last loop (lines 240 to 244): the indexes left are set to the zero value.\<close>

fun zero_entries :: "val \<Rightarrow> ArrayEntries \<Rightarrow> nat list \<Rightarrow> val list \<Rightarrow> val list" where
  "zero_entries vzero entries [] es = es"
| "zero_entries vzero entries (index # rest) es =
     zero_entries vzero entries rest
       (if map_of entries (int index) = None then es[index := vzero] else es)"

definition populateExpectedEntries ::
  "(rtype \<Rightarrow> rtype \<Rightarrow> bool) \<Rightarrow> tdArray \<Rightarrow> ArrayEntries \<Rightarrow> val \<Rightarrow> failure + tdArray" where
  "populateExpectedEntries assignable a entries expectedModel =
     (let maxIndex = maxIndex_of entries in
      (case (if IsValid expectedModel then elems expectedModel else Some []) of
        None \<Rightarrow> Inl (RuntimePanic ''reflect: call of reflect.Value.Len'')
      | Some model \<Rightarrow>
      (case (if Kind (expectedType a) = Array_Kind then Len_type (expectedType a) else Some 0) of
        None \<Rightarrow> Inl (RuntimePanic ''reflect: Len of non-array type'')
      | Some arrayLen \<Rightarrow>
      (if Kind (expectedType a) = Array_Kind \<and> int arrayLen \<le> maxIndex then
        Inl (Bad ''array length is %d, so cannot have #%d expected index''
               [AInt (int arrayLen), AInt maxIndex])
      else
        (let maxLength = (if Kind (expectedType a) = Array_Kind then int arrayLen else - 1);
            numEntries =
              (if Kind (expectedType a) = Array_Kind then maxLength
               else if IsValid expectedModel \<and> maxIndex + 1 < int (length model)
                 then int (length model)
               else maxIndex + 1)
        in
        (case Elem (expectedType a) of
          None \<Rightarrow> Inl (RuntimePanic ''reflect: Elem of invalid type'')
        | Some elemType \<Rightarrow>
        (case set_entries assignable elemType maxLength entries
               (replicate (nat numEntries) VInvalid) of
          Inl err \<Rightarrow> Inl err
        | Inr es1 \<Rightarrow>
        (let vzero = Zero elemType in
        (case (if IsValid expectedModel
              then model_entries vzero entries model (length model) es1
              else Inr es1) of
          Inl err \<Rightarrow> Inl err
        | Inr es2 \<Rightarrow>
        (if \<not> IsValid expectedModel \<and> Kind (expectedType a) = Slice_Kind then
          Inr (a\<lparr>expectedEntries := es2\<rparr>)
        else if 0 \<le> maxLength \<and> IsValid expectedModel then
          Inr (a\<lparr>expectedEntries := es2\<rparr>)
        else
          (let index = (if 0 \<le> maxLength then 0 else length model) in
          Inr (a\<lparr>expectedEntries :=
                   zero_entries vzero entries [index ..< nat numEntries] es2\<rparr>))))))))))))"

text \<open>
  \<open>newArray\<close> returns a pointer and an error: \<open>Inl\<close> is the error, \<open>Inr None\<close> is the
  nil pointer returned with a nil error when the model has not the wanted kind.
\<close>

definition newArray ::
  "(rtype \<Rightarrow> rtype \<Rightarrow> bool) \<Rightarrow> kind \<Rightarrow> val \<Rightarrow> ArrayEntries \<Rightarrow> failure + tdArray option" where
  "newArray assignable kind model entries =
     (case Type_of model of
        None \<Rightarrow> Inr None
      | Some vtype \<Rightarrow>
          if Kind vtype = Ptr_Kind then
            (case Elem vtype of
               None \<Rightarrow> Inl (RuntimePanic ''reflect: Elem of invalid type'')
             | Some etype \<Rightarrow>
                 if Kind etype \<noteq> kind then Inr None
                 else
                   (case model of
                      VPtr t v \<Rightarrow>
                        (case Type_of v of
                           None \<Rightarrow> Inl (RuntimePanic ''reflect: call of reflect.Value.Type on zero Value'')
                         | Some t' \<Rightarrow>
                             map_sum id Some
                               (populateExpectedEntries assignable
                                  \<lparr>expectedType = t', isPtr = True, expectedEntries = []\<rparr>
                                  entries v))
                    | VNil t \<Rightarrow>
                        map_sum id Some
                          (populateExpectedEntries assignable
                             \<lparr>expectedType = etype, isPtr = True, expectedEntries = []\<rparr>
                             entries VInvalid)
                    | _ \<Rightarrow> Inl (RuntimePanic ''reflect: call of reflect.Value.Elem'')))
          else if Kind vtype = kind then
            map_sum id Some
              (populateExpectedEntries assignable
                 \<lparr>expectedType = vtype, isPtr = False, expectedEntries = []\<rparr>
                 entries model)
          else Inr None)"

text \<open>
  \<open>Array\<close> and \<open>Slice\<close> stop the test through the fatalizer when \<open>newArray\<close> fails:
  \<open>Inl\<close> is the message handed to \<open>Fatal\<close>.
\<close>

definition Array :: "(rtype \<Rightarrow> rtype \<Rightarrow> bool) \<Rightarrow> val \<Rightarrow> ArrayEntries \<Rightarrow> failure + tdArray" where
  "Array assignable model entries =
     (case newArray assignable Array_Kind model entries of
        Inl err \<Rightarrow> Inl err
      | Inr None \<Rightarrow> Inl (BadUsage ''Array(ARRAY|&ARRAY, EXPECTED_ENTRIES)'' model 1 True)
      | Inr (Some a) \<Rightarrow> Inr a)"

definition Slice :: "(rtype \<Rightarrow> rtype \<Rightarrow> bool) \<Rightarrow> val \<Rightarrow> ArrayEntries \<Rightarrow> failure + tdArray" where
  "Slice assignable model entries =
     (case newArray assignable Slice_Kind model entries of
        Inl err \<Rightarrow> Inl err
      | Inr None \<Rightarrow> Inl (BadUsage ''Slice(SLICE|&SLICE, EXPECTED_ENTRIES)'' model 1 True)
      | Inr (Some a) \<Rightarrow> Inr a)"

section \<open>Contexts, match errors and the functions of other packages\<close>

text \<open>
  Modelled from the spec: the context of package \<open>ctxerr\<close>, which is not among these
  files. It carries the path from the root to the current node, the laxness flag, the
  boolean-only flag and the maximum number of errors; the list of errors it points to
  is threaded through every call as a separate argument and result.
\<close>

datatype pathLevel = Root string | ArrayIndex int

record Context =
  Path :: "pathLevel list"
  BeLax :: bool
  BooleanError :: bool
  MaxErrors :: int

fun digits :: "nat \<Rightarrow> string" where
  "digits n =
     (if n < 10 then [char_of (48 + n)]
      else digits (n div 10) @ [char_of (48 + n mod 10)])"

declare digits.simps [simp del]

definition Itoa :: "int \<Rightarrow> string" where
  "Itoa i = (if i < 0 then CHR ''-'' # digits (nat (- i)) else digits (nat i))"

fun pathLevel_String :: "pathLevel \<Rightarrow> string" where
  "pathLevel_String (Root name) = name"
| "pathLevel_String (ArrayIndex i) = ''['' @ Itoa i @ '']''"

definition Path_String :: "pathLevel list \<Rightarrow> string" where
  "Path_String p = concat (map pathLevel_String p)"

definition AddArrayIndex :: "Context \<Rightarrow> int \<Rightarrow> Context" where
  "AddArrayIndex ctx index = ctx\<lparr>Path := Path ctx @ [ArrayIndex index]\<rparr>"

definition ResetPath :: "Context \<Rightarrow> string \<Rightarrow> Context" where
  "ResetPath ctx newRoot = ctx\<lparr>Path := [Root newRoot]\<rparr>"

text \<open>
  A \<open>ctxerr.Error\<close> as these files build it: the message, the got and expected
  sides (a \<open>types.RawString\<close> or a value), the summary, and the context, which is left
  unset by the operators. \<open>ctxerr.BooleanError\<close> is the one error returned in
  boolean-only mode.
\<close>

datatype repr = Unset | RawString string | Value val

record Error =
  Ctx :: "Context option"
  Message :: string
  Got :: repr
  Expected :: repr
  Summary :: "string option"

datatype cerror = ctxerr_BooleanError | Err Error

type_synonym 'a collecting = "Error list \<Rightarrow> 'a \<times> Error list"

text \<open>
  The record of the standard library's \<open>*regexp.Regexp\<close>, by the methods \<open>tdRe\<close>
  calls. A string and a \<open>[]byte\<close> are both lists of bytes.
\<close>

record Regexp =
  Regexp_String :: string
  FindAllSubmatch :: "string \<Rightarrow> int \<Rightarrow> string list list"
  Match :: "string \<Rightarrow> bool"
  FindAllStringSubmatch :: "string \<Rightarrow> int \<Rightarrow> string list list"
  MatchString :: "string \<Rightarrow> bool"

text \<open>
  The functions these files call and do not define are parameters of the embedding:
  \<^item> \<open>deepValueEqual\<close>, the dispatcher, and \<open>CollectError\<close>, the accumulation point
    of the context: both may append to the error list;
  \<^item> \<open>CannotCompareError\<close> of the context;
  \<^item> \<open>GetInterface\<close> of package \<open>dark\<close> (\<open>None\<close> is its \<open>false\<close>);
  \<^item> \<open>Marshal\<close> (\<open>Inl\<close> is the text of its error) and \<open>Unmarshal\<close> of
    \<open>encoding/json\<close>;
  \<^item> \<open>checkPtr\<close>, which returns the error and the value left in \<open>*pGot\<close>, and
    \<open>checkType\<close>, the methods of \<open>tdExpectedType\<close>;
  \<^item> \<open>tdMap_match\<close>, the method \<open>match\<close> of \<open>tdMap\<close>.
  Of \<open>tdMap\<close> itself these files show the embedded \<open>tdExpectedType\<close> and the field
  \<open>kind\<close> (here \<open>mapKind\<close>, with the two values they use); \<open>mapEntries\<close> stands for
  the entries its \<open>populateExpectedEntries\<close> stores.
\<close>

datatype mapKind = subMap | superMap

record tdMap = tdExpectedType +
  mapKind :: mapKind
  mapEntries :: "(val \<times> val) list"

record env =
  deepValueEqual :: "Context \<Rightarrow> val \<Rightarrow> val \<Rightarrow> cerror option collecting"
  CollectError :: "Context \<Rightarrow> cerror \<Rightarrow> cerror option collecting"
  CannotCompareError :: "Context \<Rightarrow> cerror"
  GetInterface :: "val \<Rightarrow> bool \<Rightarrow> val option"
  Marshal_json :: "val \<Rightarrow> string + string"
  Unmarshal_json :: "string \<Rightarrow> val"
  checkPtr :: "tdExpectedType \<Rightarrow> Context \<Rightarrow> val \<Rightarrow> bool \<Rightarrow> cerror option \<times> val"
  checkType :: "tdExpectedType \<Rightarrow> Context \<Rightarrow> val \<Rightarrow> cerror option"
  tdMap_match :: "tdMap \<Rightarrow> Context \<Rightarrow> val \<Rightarrow> cerror option collecting"

section \<open>Array and Slice: Match\<close>

text \<open>
  The loop of \<open>tdArray.Match\<close> (lines 260 to 278) from index \<open>index\<close> on. A result
  \<open>Inl\<close> is a run-time panic of Go.
\<close>

fun match_entries ::
  "env \<Rightarrow> Context \<Rightarrow> val \<Rightarrow> nat \<Rightarrow> nat \<Rightarrow> val list \<Rightarrow> Error list
     \<Rightarrow> failure + cerror option \<times> Error list" where
  "match_entries E ctx got gotLen index [] errs = Inr (None, errs)"
| "match_entries E ctx got gotLen index (expectedValue # rest) errs =
     (let curCtx = AddArrayIndex ctx (int index) in
      if gotLen \<le> index then
        (if BooleanError ctx then Inr (Some ctxerr_BooleanError, errs)
         else Inr (CollectError E curCtx
                (Err \<lparr>Ctx = None, Message = ''expected value out of range'',
                      Got = RawString ''<non-existent value>'',
                      Expected = Value expectedValue, Summary = None\<rparr>) errs))
      else
        (case Index got index of
           None \<Rightarrow> Inl (RuntimePanic ''reflect: index out of range'')
         | Some item \<Rightarrow>
             (case deepValueEqual E curCtx item expectedValue errs of
                (Some err, errs') \<Rightarrow> Inr (Some err, errs')
              | (None, errs') \<Rightarrow> match_entries E ctx got gotLen (Suc index) rest errs')))"

definition tdArray_Match ::
  "env \<Rightarrow> tdArray \<Rightarrow> Context \<Rightarrow> val \<Rightarrow> Error list \<Rightarrow> failure + cerror option \<times> Error list" where
  "tdArray_Match E a ctx got errs =
     (case checkPtr E (tdExpectedType.truncate a) ctx got True of
        (Some err, got') \<Rightarrow> Inr (CollectError E ctx err errs)
      | (None, got') \<Rightarrow>
     (case checkType E (tdExpectedType.truncate a) ctx got' of
        Some err \<Rightarrow> Inr (CollectError E ctx err errs)
      | None \<Rightarrow>
     (case Len got' of
        None \<Rightarrow> Inl (RuntimePanic ''reflect: call of reflect.Value.Len'')
      | Some gotLen \<Rightarrow>
     (case match_entries E ctx got' gotLen 0 (expectedEntries a) errs of
        Inl p \<Rightarrow> Inl p
      | Inr (Some err, errs') \<Rightarrow> Inr (Some err, errs')
      | Inr (None, errs') \<Rightarrow>
          if length (expectedEntries a) < gotLen then
            (if BooleanError ctx then Inr (Some ctxerr_BooleanError, errs')
             else
               (case Index got' (length (expectedEntries a)) of
                  None \<Rightarrow> Inl (RuntimePanic ''reflect: index out of range'')
                | Some item \<Rightarrow>
                    Inr (CollectError E (AddArrayIndex ctx (int (length (expectedEntries a))))
                      (Err \<lparr>Ctx = None, Message = ''got value out of range'',
                            Got = Value item,
                            Expected = RawString ''<non-existent value>'',
                            Summary = None\<rparr>) errs')))
          else Inr (None, errs')))))"

section \<open>Re and ReAll\<close>

record tdRe =
  re :: Regexp
  captures :: val
  numMatches :: int

definition needCaptures :: "tdRe \<Rightarrow> bool" where
  "needCaptures r = IsValid (captures r)"

definition tdRe_String :: "tdRe \<Rightarrow> string" where
  "tdRe_String r = Regexp_String (re r)"

definition string_type :: rtype where
  "string_type = Basic ''string'' String_Kind"

definition SliceInterface :: rtype where
  "SliceInterface = SliceOf (Basic ''interface {}'' Interface_Kind)"

fun Kind_String :: "kind \<Rightarrow> string" where
  "Kind_String Invalid_Kind = ''invalid''"
| "Kind_String Bool_Kind = ''bool''"
| "Kind_String Int_Kind = ''int''"
| "Kind_String Int8_Kind = ''int8''"
| "Kind_String Int16_Kind = ''int16''"
| "Kind_String Int32_Kind = ''int32''"
| "Kind_String Int64_Kind = ''int64''"
| "Kind_String Uint_Kind = ''uint''"
| "Kind_String Uint8_Kind = ''uint8''"
| "Kind_String Uint16_Kind = ''uint16''"
| "Kind_String Uint32_Kind = ''uint32''"
| "Kind_String Uint64_Kind = ''uint64''"
| "Kind_String Uintptr_Kind = ''uintptr''"
| "Kind_String Float32_Kind = ''float32''"
| "Kind_String Float64_Kind = ''float64''"
| "Kind_String Complex64_Kind = ''complex64''"
| "Kind_String Complex128_Kind = ''complex128''"
| "Kind_String Array_Kind = ''array''"
| "Kind_String Chan_Kind = ''chan''"
| "Kind_String Func_Kind = ''func''"
| "Kind_String Interface_Kind = ''interface''"
| "Kind_String Map_Kind = ''map''"
| "Kind_String Ptr_Kind = ''ptr''"
| "Kind_String Slice_Kind = ''slice''"
| "Kind_String String_Kind = ''string''"
| "Kind_String Struct_Kind = ''struct''"
| "Kind_String UnsafePointer_Kind = ''unsafe.Pointer''"

fun Type_String :: "rtype \<Rightarrow> string" where
  "Type_String (Basic name k) = name"
| "Type_String (ArrayOf n t) = ''['' @ Itoa (int n) @ '']'' @ Type_String t"
| "Type_String (SliceOf t) = ''[]'' @ Type_String t"
| "Type_String (PtrTo t) = ''*'' @ Type_String t"

text \<open>\<open>Value.Bytes\<close> of a slice of bytes; \<open>string(match)\<close> is then the identity.\<close>

fun byte_of :: "val \<Rightarrow> char" where
  "byte_of (VInt t i) = char_of i"
| "byte_of v = CHR 0x00"

definition Bytes :: "val \<Rightarrow> string option" where
  "Bytes v = map_option (map byte_of) (elems v)"

text \<open>
  The nested loops of \<open>matchByteCaptures\<close> and \<open>matchStringCaptures\<close>: the groups
  \<open>set[1:]\<close> of every match, appended in order. \<open>set[1:]\<close> panics on an empty
  \<open>set\<close>: \<open>None\<close>.
\<close>

fun append_groups :: "string list list \<Rightarrow> string list option" where
  "append_groups [] = Some []"
| "append_groups ([] # rest) = None"
| "append_groups ((whole # groups) # rest) = map_option ((@) groups) (append_groups rest)"

definition doesNotMatch :: "env \<Rightarrow> tdRe \<Rightarrow> Context \<Rightarrow> val \<Rightarrow> cerror option collecting" where
  "doesNotMatch E r ctx got errs =
     (if BooleanError ctx then (Some ctxerr_BooleanError, errs)
      else CollectError E ctx
             (Err \<lparr>Ctx = None, Message = ''does not match Regexp'', Got = Value got,
                   Expected = RawString (Regexp_String (re r)), Summary = None\<rparr>) errs)"

definition matchBool :: "env \<Rightarrow> tdRe \<Rightarrow> Context \<Rightarrow> val \<Rightarrow> bool \<Rightarrow> cerror option collecting" where
  "matchBool E r ctx got result errs =
     (if result then (None, errs) else doesNotMatch E r ctx got errs)"

definition matchCaptures :: "env \<Rightarrow> tdRe \<Rightarrow> Context \<Rightarrow> val \<Rightarrow> cerror option collecting" where
  "matchCaptures E r ctx captures' errs =
     deepValueEqual E
       (ResetPath ctx (''('' @ Path_String (Path ctx) @ '' =~ '' @ tdRe_String r @ '')''))
       captures' (captures r) errs"

definition captures_value :: "tdRe \<Rightarrow> string list \<Rightarrow> val" where
  "captures_value r groups =
     (if Type_of (captures r) = Some SliceInterface
      then VSeq SliceInterface (map (VStr string_type) groups)
      else VSeq (SliceOf string_type) (map (VStr string_type) groups))"

definition matchByteCaptures ::
  "env \<Rightarrow> tdRe \<Rightarrow> Context \<Rightarrow> val \<Rightarrow> string list list \<Rightarrow> Error list
     \<Rightarrow> failure + cerror option \<times> Error list" where
  "matchByteCaptures E r ctx got result errs =
     (if length result = 0 then Inr (doesNotMatch E r ctx got errs)
      else
        (case append_groups result of
           None \<Rightarrow> Inl (RuntimePanic ''slice bounds out of range'')
         | Some groups \<Rightarrow> Inr (matchCaptures E r ctx (captures_value r groups) errs)))"

definition matchStringCaptures ::
  "env \<Rightarrow> tdRe \<Rightarrow> Context \<Rightarrow> string \<Rightarrow> string list list \<Rightarrow> Error list
     \<Rightarrow> failure + cerror option \<times> Error list" where
  "matchStringCaptures E r ctx got result errs =
     (if length result = 0 then Inr (doesNotMatch E r ctx (VStr string_type got) errs)
      else
        (case append_groups result of
           None \<Rightarrow> Inl (RuntimePanic ''slice bounds out of range'')
         | Some groups \<Rightarrow> Inr (matchCaptures E r ctx (captures_value r groups) errs)))"

text \<open>The end of \<open>tdRe.Match\<close> (lines 262 to 266), once \<open>str\<close> is known.\<close>

definition match_str ::
  "env \<Rightarrow> tdRe \<Rightarrow> Context \<Rightarrow> string \<Rightarrow> Error list \<Rightarrow> failure + cerror option \<times> Error list" where
  "match_str E r ctx str errs =
     (if needCaptures r then
        matchStringCaptures E r ctx str (FindAllStringSubmatch (re r) str (numMatches r)) errs
      else Inr (matchBool E r ctx (VStr string_type str) (MatchString (re r) str) errs))"

fun error_view :: "val \<Rightarrow> string option" where
  "error_view (VObj t e s) = e"
| "error_view v = None"

fun Stringer_view :: "val \<Rightarrow> string option" where
  "Stringer_view (VObj t e s) = s"
| "Stringer_view v = None"

definition tdRe_Match ::
  "env \<Rightarrow> tdRe \<Rightarrow> Context \<Rightarrow> val \<Rightarrow> Error list \<Rightarrow> failure + cerror option \<times> Error list" where
  "tdRe_Match E r ctx got errs =
     (if Kind_of got = String_Kind then
        (case got of
           VStr t str \<Rightarrow> match_str E r ctx str errs
         | _ \<Rightarrow> Inl (RuntimePanic ''reflect: String of a value that holds no string''))
      else if Kind_of got = Slice_Kind then
        (case Option.bind (Type_of got) Elem of
           None \<Rightarrow> Inl (RuntimePanic ''reflect: Elem of invalid type'')
         | Some elemType \<Rightarrow>
             if Kind elemType = Uint8_Kind then
               (case Bytes got of
                  None \<Rightarrow> Inl (RuntimePanic ''reflect: call of reflect.Value.Bytes'')
                | Some gotBytes \<Rightarrow>
                    if needCaptures r then
                      matchByteCaptures E r ctx got
                        (FindAllSubmatch (re r) gotBytes (numMatches r)) errs
                    else Inr (matchBool E r ctx got (Match (re r) gotBytes) errs))
             else if BooleanError ctx then Inr (Some ctxerr_BooleanError, errs)
             else Inr (CollectError E ctx
                    (Err \<lparr>Ctx = None, Message = ''bad slice type'',
                          Got = RawString (''[]'' @ Kind_String (Kind elemType)),
                          Expected = RawString ''[]uint8'', Summary = None\<rparr>) errs))
      else
        (case GetInterface E got True of
           None \<Rightarrow> Inl (RuntimePanic ''dark.GetInterface() does not handle this kind'')
         | Some iface \<Rightarrow>
             (case error_view iface of
                Some str \<Rightarrow> match_str E r ctx str errs
              | None \<Rightarrow>
                  (case Stringer_view iface of
                     Some str \<Rightarrow> match_str E r ctx str errs
                   | None \<Rightarrow>
                       if BooleanError ctx then Inr (Some ctxerr_BooleanError, errs)
                       else
                         (case Type_of got of
                            None \<Rightarrow> Inl (RuntimePanic
                                ''reflect: call of reflect.Value.Type on zero Value'')
                          | Some t \<Rightarrow>
                              Inr (CollectError E ctx
                                (Err \<lparr>Ctx = None, Message = ''bad type'',
                                      Got = RawString (Type_String t),
                                      Expected = RawString
                                        ''string (convertible) OR fmt.Stringer OR error OR []uint8'',
                                      Summary = None\<rparr>) errs))))))"

text \<open>
  \<open>newRe\<close>, \<open>Re\<close> and \<open>ReAll\<close>. The first parameter is a \<open>*regexp.Regexp\<close>, a
  string or anything else; \<open>MustCompile\<close> is the standard library's, \<open>None\<close> its panic.
  \<open>func\<close> is the name of the operator, which \<open>newBase\<close> reads from the call stack.
\<close>

datatype regIf = Compiled Regexp | Pattern string | Other val

definition newRe ::
  "(string \<Rightarrow> Regexp option) \<Rightarrow> string \<Rightarrow> regIf \<Rightarrow> val list \<Rightarrow> failure + tdRe" where
  "newRe MustCompile func regIf capture =
     (if 1 < length capture then
        Inl (TooManyParams (func @ ''(STRING|*regexp.Regexp[, NON_NIL_CAPTURE])''))
      else
        (let captures' = (case capture of [] \<Rightarrow> VInvalid | c # cs \<Rightarrow> c) in
         case regIf of
           Compiled reg \<Rightarrow> Inr \<lparr>re = reg, captures = captures', numMatches = 0\<rparr>
         | Pattern reg \<Rightarrow>
             (case MustCompile reg of
                None \<Rightarrow> Inl (RuntimePanic ''regexp: Compile: error parsing regexp'')
              | Some compiled \<Rightarrow>
                  Inr \<lparr>re = compiled, captures = captures', numMatches = 0\<rparr>)
         | Other v \<Rightarrow>
             Inl (BadUsage (func @ ''(STRING|*regexp.Regexp[, NON_NIL_CAPTURE])'') v 1 False)))"

definition Re :: "(string \<Rightarrow> Regexp option) \<Rightarrow> regIf \<Rightarrow> val list \<Rightarrow> failure + tdRe" where
  "Re MustCompile reg capture =
     map_sum id (\<lambda>r. r\<lparr>numMatches := 1\<rparr>) (newRe MustCompile ''Re'' reg capture)"

definition ReAll :: "(string \<Rightarrow> Regexp option) \<Rightarrow> regIf \<Rightarrow> val \<Rightarrow> failure + tdRe" where
  "ReAll MustCompile reg capture =
     map_sum id (\<lambda>r. r\<lparr>numMatches := - 1\<rparr>) (newRe MustCompile ''ReAll'' reg [capture])"

section \<open>JSON, SubJSONOf and SuperJSONOf: Match\<close>

record tdJSON =
  expected :: val

record tdMapJSON = tdMap +
  expected_JSON :: val

text \<open>\<open>jsonify\<close> returns the value and the error; \<open>Inl\<close> is the error.\<close>

definition jsonify :: "env \<Rightarrow> Context \<Rightarrow> val \<Rightarrow> cerror + val" where
  "jsonify E ctx got =
     (case GetInterface E got True of
        None \<Rightarrow> Inl (CannotCompareError E ctx)
      | Some gotIf \<Rightarrow>
          (case Marshal_json E gotIf of
             Inl err \<Rightarrow>
               if BooleanError ctx then Inl ctxerr_BooleanError
               else Inl (Err \<lparr>Ctx = None, Message = ''json.Marshal failed'', Got = Unset,
                              Expected = Unset, Summary = Some err\<rparr>)
           | Inr b \<Rightarrow> Inr (Unmarshal_json E b)))"

text \<open>\<open>gotViaJSON\<close>: \<open>Inr\<close> is the value stored in \<open>*pGot\<close>.\<close>

definition gotViaJSON :: "env \<Rightarrow> Context \<Rightarrow> val \<Rightarrow> cerror + val" where
  "gotViaJSON E ctx pGot =
     (case jsonify E ctx pGot of Inl err \<Rightarrow> Inl err | Inr got \<Rightarrow> Inr got)"

definition tdJSON_Match :: "env \<Rightarrow> tdJSON \<Rightarrow> Context \<Rightarrow> val \<Rightarrow> cerror option collecting" where
  "tdJSON_Match E j ctx got errs =
     (case gotViaJSON E ctx got of
        Inl err \<Rightarrow> CollectError E ctx err errs
      | Inr got' \<Rightarrow> deepValueEqual E (ctx\<lparr>BeLax := True\<rparr>) got' (expected j) errs)"

definition tdMapJSON_Match ::
  "env \<Rightarrow> tdMapJSON \<Rightarrow> Context \<Rightarrow> val \<Rightarrow> cerror option collecting" where
  "tdMapJSON_Match E m ctx got errs =
     (case gotViaJSON E ctx got of
        Inl err \<Rightarrow> CollectError E ctx err errs
      | Inr got' \<Rightarrow>
          if \<not> IsValid got' then
            (if BooleanError ctx then (Some ctxerr_BooleanError, errs)
             else CollectError E ctx
                    (Err \<lparr>Ctx = None, Message = ''values differ'', Got = RawString ''null'',
                          Expected = RawString ''non-null'', Summary = None\<rparr>) errs)
          else tdMap_match E (tdMap.truncate m) (ctx\<lparr>BeLax := True\<rparr>) got' errs)"

section \<open>The parameters, modelled from the spec\<close>

text \<open>
  The definitions of this section give the parameters a value, so that the operators
  can be run on the examples of the spec.
\<close>

text \<open>
  Modelled from the spec: \<open>CollectError\<close>, the accumulation point of the context
  (package \<open>ctxerr\<close> is not among these files). In boolean-only mode it returns the
  boolean error without building a message. Otherwise the error, with its context set,
  is appended to the list and the comparison goes on (\<open>None\<close>), until the number of
  errors equals the maximum: then the "too many errors" marker is appended and returned.
\<close>

definition ErrTooManyErrors :: Error where
  "ErrTooManyErrors =
     \<lparr>Ctx = None, Message = ''too many errors'', Got = Unset, Expected = Unset,
      Summary = None\<rparr>"

definition CollectError_spec :: "Context \<Rightarrow> cerror \<Rightarrow> cerror option collecting" where
  "CollectError_spec ctx err errs =
     (case err of
        ctxerr_BooleanError \<Rightarrow> (Some ctxerr_BooleanError, errs)
      | Err e \<Rightarrow>
          if BooleanError ctx then (Some ctxerr_BooleanError, errs)
          else
            (let errs' = errs @ [if Ctx e = None then e\<lparr>Ctx := Some ctx\<rparr> else e] in
             if int (length errs') = MaxErrors ctx
             then (Some (Err ErrTooManyErrors), errs' @ [ErrTooManyErrors])
             else (None, errs')))"

text \<open>
  Modelled from the spec: \<open>CannotCompareError\<close> of the context, the error of a value
  that cannot be read.
\<close>

definition CannotCompareError_spec :: "Context \<Rightarrow> cerror" where
  "CannotCompareError_spec ctx =
     (if BooleanError ctx then ctxerr_BooleanError
      else Err \<lparr>Ctx = None, Message = ''cannot compare'', Got = Unset, Expected = Unset,
                Summary = None\<rparr>)"

text \<open>
  Modelled from the spec: the dispatcher \<open>deepValueEqual\<close> on an expected value that
  is a literal, compared by direct equality; a mismatch goes through the accumulation
  point. Operators inside the expected value, references and laxness are left out.
\<close>

definition deepValueEqual_literal :: "Context \<Rightarrow> val \<Rightarrow> val \<Rightarrow> cerror option collecting" where
  "deepValueEqual_literal ctx got expected' errs =
     (if got = expected' then (None, errs)
      else if BooleanError ctx then (Some ctxerr_BooleanError, errs)
      else CollectError_spec ctx
             (Err \<lparr>Ctx = None, Message = ''values differ'', Got = Value got,
                   Expected = Value expected', Summary = None\<rparr>) errs)"

text \<open>
  Modelled from the spec: \<open>checkPtr\<close> and \<open>checkType\<close> of \<open>tdExpectedType\<close> (not
  among these files). When the model was a pointer the value compared must be a pointer
  too, and is replaced by what it points to; the value must have the type of the model.
\<close>

definition type_mismatch :: "Context \<Rightarrow> val \<Rightarrow> rtype \<Rightarrow> cerror" where
  "type_mismatch ctx got t =
     (if BooleanError ctx then ctxerr_BooleanError
      else Err \<lparr>Ctx = None, Message = ''type mismatch'',
                Got = RawString (case Type_of got of None \<Rightarrow> ''nil'' | Some t' \<Rightarrow> Type_String t'),
                Expected = RawString (Type_String t), Summary = None\<rparr>)"

definition checkPtr_spec :: "tdExpectedType \<Rightarrow> Context \<Rightarrow> val \<Rightarrow> bool \<Rightarrow> cerror option \<times> val" where
  "checkPtr_spec t ctx got nilAllowed =
     (if isPtr t then
        (case got of
           VPtr pt v \<Rightarrow> (None, v)
         | _ \<Rightarrow> (Some (type_mismatch ctx got (PtrTo (expectedType t))), got))
      else (None, got))"

definition checkType_spec :: "tdExpectedType \<Rightarrow> Context \<Rightarrow> val \<Rightarrow> cerror option" where
  "checkType_spec t ctx got =
     (if Type_of got = Some (expectedType t) then None
      else Some (type_mismatch ctx got (expectedType t)))"

text \<open>
  Modelled from the spec: the method \<open>match\<close> of \<open>tdMap\<close> (not among these files),
  on maps of literals. In mode sub every key of the value compared must be an expected
  key with an equal value; in mode super every expected key must be a key of the value
  compared with an equal value; a map of another type than the expected one is a type
  mismatch. A value that is not a map is the dedicated mismatch of the spec, "expected
  non-null mapping": the error "values differ" with the value and, as what was
  expected, \<open>non-null mapping\<close>.
\<close>

definition tdMap_match_spec :: "tdMap \<Rightarrow> Context \<Rightarrow> val \<Rightarrow> cerror option collecting" where
  "tdMap_match_spec m ctx got errs =
     (case got of
        VMap t kvs \<Rightarrow>
          if t \<noteq> expectedType m then
            CollectError_spec ctx (type_mismatch ctx got (expectedType m)) errs
          else if (if mapKind m = subMap
                   then list_all (\<lambda>(k, v). map_of (mapEntries m) k = Some v) kvs
                   else list_all (\<lambda>(k, v). map_of kvs k = Some v) (mapEntries m))
            then (None, errs)
          else if BooleanError ctx then (Some ctxerr_BooleanError, errs)
          else CollectError_spec ctx
                 (Err \<lparr>Ctx = None, Message = ''comparing hash keys'', Got = Value got,
                       Expected = Value (VMap (expectedType m) (mapEntries m)),
                       Summary = None\<rparr>) errs
      | _ \<Rightarrow>
          if BooleanError ctx then (Some ctxerr_BooleanError, errs)
          else CollectError_spec ctx
                 (Err \<lparr>Ctx = None, Message = ''values differ'', Got = Value got,
                       Expected = RawString ''non-null mapping'', Summary = None\<rparr>) errs)"

text \<open>
  \<open>encoding/json\<close> on the documents \<open>null\<close>, \<open>true\<close>, \<open>false\<close>, \<open>{}\<close> and \<open>[]\<close>:
  the values that encode to them, and the values they decode to in an
  \<open>interface{}\<close>. Every other value is refused here, as \<open>Marshal\<close> refuses a channel
  or a function.
\<close>

definition bool_type :: rtype where
  "bool_type = Basic ''bool'' Bool_Kind"

definition map_string_interface :: rtype where
  "map_string_interface = Basic ''map[string]interface {}'' Map_Kind"

fun Marshal_small :: "val \<Rightarrow> string + string" where
  "Marshal_small VInvalid = Inr ''null''"
| "Marshal_small (VNil t) = Inr ''null''"
| "Marshal_small (VBool t b) = Inr (if b then ''true'' else ''false'')"
| "Marshal_small (VMap t []) = Inr ''{}''"
| "Marshal_small (VSeq t []) = Inr ''[]''"
| "Marshal_small (VPtr t v) = Marshal_small v"
| "Marshal_small v =
     Inl (''json: unsupported type: '' @ (case Type_of v of None \<Rightarrow> [] | Some t \<Rightarrow> Type_String t))"

definition Unmarshal_small :: "string \<Rightarrow> val" where
  "Unmarshal_small b =
     (if b = ''true'' then VBool bool_type True
      else if b = ''false'' then VBool bool_type False
      else if b = ''{}'' then VMap map_string_interface []
      else if b = ''[]'' then VSeq SliceInterface []
      else VInvalid)"

definition env_spec :: env where
  "env_spec =
     \<lparr>deepValueEqual = deepValueEqual_literal,
      CollectError = CollectError_spec,
      CannotCompareError = CannotCompareError_spec,
      GetInterface = (\<lambda>v force. Some v),
      Marshal_json = Marshal_small,
      Unmarshal_json = Unmarshal_small,
      checkPtr = checkPtr_spec,
      checkType = checkType_spec,
      tdMap_match = tdMap_match_spec\<rparr>"

text \<open>A fresh context: the root of the path, no laxness, ten errors at most.\<close>

definition ctx_DATA :: Context where
  "ctx_DATA = \<lparr>Path = [Root ''DATA''], BeLax = False, BooleanError = False, MaxErrors = 10\<rparr>"

text \<open>
  The regexp \<open>^(\w+) (\w+)$\<close> of the spec's example, by what the standard library
  finds with it: a string made of two words with one space between them is its only
  kind of match, and the two words are its groups.
\<close>

definition word_char :: "char \<Rightarrow> bool" where
  "word_char c \<longleftrightarrow>
     (let n = (of_char c :: nat) in
      (48 \<le> n \<and> n \<le> 57) \<or> (65 \<le> n \<and> n \<le> 90) \<or> (97 \<le> n \<and> n \<le> 122) \<or> n = 95)"

definition two_words :: "string \<Rightarrow> (string \<times> string) option" where
  "two_words str =
     (let w1 = takeWhile word_char str; rest = dropWhile word_char str in
      case rest of
        [] \<Rightarrow> None
      | c # w2 \<Rightarrow>
          if c = CHR '' '' \<and> w1 \<noteq> [] \<and> w2 \<noteq> [] \<and> list_all word_char w2
          then Some (w1, w2) else None)"

definition find_two_words :: "string \<Rightarrow> int \<Rightarrow> string list list" where
  "find_two_words str n =
     (case two_words str of
        None \<Rightarrow> []
      | Some (w1, w2) \<Rightarrow> if n = 0 then [] else [[str, w1, w2]])"

definition two_words_Regexp :: Regexp where
  "two_words_Regexp =
     \<lparr>Regexp_String = ''^('' @ [CHR 0x5C] @ ''w+) ('' @ [CHR 0x5C] @ ''w+)$'',
      FindAllSubmatch = find_two_words,
      Match = (\<lambda>b. two_words b \<noteq> None),
      FindAllStringSubmatch = find_two_words,
      MatchString = (\<lambda>str. two_words str \<noteq> None)\<rparr>"

definition int_type :: rtype where
  "int_type = Basic ''int'' Int_Kind"

definition uint8_type :: rtype where
  "uint8_type = Basic ''uint8'' Uint8_Kind"

text \<open>The value of type \<open>[]byte\<close> that holds the given bytes.\<close>

definition bytes_value :: "string \<Rightarrow> val" where
  "bytes_value b = VSeq (SliceOf uint8_type) (map (\<lambda>c. VInt uint8_type (of_char c)) b)"

section \<open>Notions used to state the properties\<close>

text \<open>
  A call reports a mismatch when it returns an error or leaves a longer list of
  errors. The verdict of a call that may panic is one of three.
\<close>

definition reports_failure :: "Error list \<Rightarrow> cerror option \<times> Error list \<Rightarrow> bool" where
  "reports_failure errs res \<longleftrightarrow> fst res \<noteq> None \<or> snd res \<noteq> errs"

text \<open>A call only appends when the list of errors it leaves starts with the list it got.\<close>

definition only_appends :: "Error list \<Rightarrow> cerror option \<times> Error list \<Rightarrow> bool" where
  "only_appends errs res \<longleftrightarrow> take (length errs) (snd res) = errs"

datatype verdict = Matched | Mismatch | Panicked

definition verdict_of :: "Error list \<Rightarrow> failure + cerror option \<times> Error list \<Rightarrow> verdict" where
  "verdict_of errs out =
     (case out of
        Inl p \<Rightarrow> Panicked
      | Inr res \<Rightarrow> if reports_failure errs res then Mismatch else Matched)"

text \<open>A value classifies as a keyed mapping when it is a map.\<close>

fun is_mapping :: "val \<Rightarrow> bool" where
  "is_mapping (VMap t kvs) = True"
| "is_mapping v = False"

text \<open>
  The sequence a model holds: the model itself, or what a non-nil pointer model points
  to.
\<close>

fun model_sequence :: "val \<Rightarrow> val" where
  "model_sequence (VPtr t v) = v"
| "model_sequence v = v"

text \<open>
  An entry of \<open>ArrayEntries\<close> that the first loop of \<open>populateExpectedEntries\<close>
  accepts whatever the element type's kind: its index is not negative and its value is
  nil, an operator, or assignable to the element type.
\<close>

definition acceptable_entry :: "(rtype \<Rightarrow> rtype \<Rightarrow> bool) \<Rightarrow> rtype \<Rightarrow> int \<times> val \<Rightarrow> bool" where
  "acceptable_entry assignable elemType e \<longleftrightarrow>
     0 \<le> fst e \<and>
     (snd e = VInvalid \<or>
      (case Type_of (snd e) of
         None \<Rightarrow> False
       | Some t \<Rightarrow> is_TestDeep (snd e) \<or> assignable t elemType))"

text \<open>
  The resolution rule in the spec's words: the override if present (a nil override
  being the typed nil of the element type), else the model's value at that index if the
  model covers it, else the zero value.
\<close>

definition resolved :: "rtype \<Rightarrow> ArrayEntries \<Rightarrow> val list \<Rightarrow> nat \<Rightarrow> val" where
  "resolved elemType entries model i =
     (case map_of entries (int i) of
        Some v \<Rightarrow> if v = VInvalid then Zero elemType else v
      | None \<Rightarrow> if i < length model then model ! i else Zero elemType)"

section \<open>Construction: the index of an override and the length of an array\<close>

lemma fold_maxIndex_ge:
  "m \<le> fold (\<lambda>(index, v) maxIndex. if index > maxIndex then index else maxIndex) es (m::int)"
proof (induction es arbitrary: m)
  case Nil
  show ?case by simp
next
  case (Cons e es)
  obtain i v where e: "e = (i, v)" by (cases e)
  show ?case using Cons.IH [of i] Cons.IH [of m] by (simp add: e)
qed

lemma fold_maxIndex_upper:
  "(i, v) \<in> set es \<Longrightarrow>
     i \<le> fold (\<lambda>(index, v) maxIndex. if index > maxIndex then index else maxIndex) es (m::int)"
proof (induction es arbitrary: m)
  case Nil
  then show ?case by simp
next
  case (Cons e es)
  obtain j w where e: "e = (j, w)" by (cases e)
  show ?case
  proof (cases "(i, v) = e")
    case True
    then show ?thesis
      using fold_maxIndex_ge [of i es] fold_maxIndex_ge [of m es] by (auto simp: e)
  next
    case False
    with Cons.prems have "(i, v) \<in> set es" by simp
    then show ?thesis using Cons.IH by (simp add: e)
  qed
qed

lemma fold_maxIndex_mem:
  "fold (\<lambda>(index, v) maxIndex. if index > maxIndex then index else maxIndex) es (m::int) = m
   \<or> fold (\<lambda>(index, v) maxIndex. if index > maxIndex then index else maxIndex) es m
       \<in> fst ` set es"
proof (induction es arbitrary: m)
  case Nil
  show ?case by simp
next
  case (Cons e es)
  obtain j w where e: "e = (j, w)" by (cases e)
  show ?case using Cons.IH [of j] Cons.IH [of m] by (auto simp: e)
qed

lemma maxIndex_of_ge: "(i, v) \<in> set es \<Longrightarrow> i \<le> maxIndex_of es"
  unfolding maxIndex_of_def by (rule fold_maxIndex_upper)

lemma maxIndex_of_mem: "0 \<le> maxIndex_of es \<Longrightarrow> maxIndex_of es \<in> fst ` set es"
  using fold_maxIndex_mem [of es "- 1"] unfolding maxIndex_of_def by auto

lemma maxIndex_of_lower: "- 1 \<le> maxIndex_of es"
  unfolding maxIndex_of_def by (rule fold_maxIndex_ge)

lemma populate_array_bound:
  assumes "expectedType a = ArrayOf n t" and "(index, v) \<in> set entries" and "int n \<le> index"
    and "IsValid expectedModel \<longrightarrow> elems expectedModel \<noteq> None"
  shows "populateExpectedEntries assignable a entries expectedModel =
          Inl (Bad ''array length is %d, so cannot have #%d expected index''
                 [AInt (int n), AInt (maxIndex_of entries)])"
proof -
  have "int n \<le> maxIndex_of entries" using assms(2,3) maxIndex_of_ge by fastforce
  then show ?thesis using assms(1,4)
    by (auto simp: populateExpectedEntries_def Let_def split: option.splits)
qed

text \<open>
  Claim C8. When the model is an array of length \<open>n\<close>, a pointer to such an array or
  the nil pointer to one, and some override has an index of \<open>n\<close> or more, \<open>Array\<close>
  fails with the usage error "array length is %d, so cannot have #%d expected index" on
  \<open>n\<close> and the greatest index of the overrides: no operator is built, so nothing is
  compared.
\<close>

theorem Array_index_out_of_length:
  assumes "model = VSeq (ArrayOf n t) xs
           \<or> model = VPtr (PtrTo (ArrayOf n t)) (VSeq (ArrayOf n t) xs)
           \<or> model = VNil (PtrTo (ArrayOf n t))"
    and "(index, v) \<in> set entries" and "int n \<le> index"
  shows "Array assignable model entries =
           Inl (Bad ''array length is %d, so cannot have #%d expected index''
                  [AInt (int n), AInt (maxIndex_of entries)])
         \<and> int n \<le> maxIndex_of entries
         \<and> maxIndex_of entries \<in> fst ` set entries"
proof -
  have ge: "int n \<le> maxIndex_of entries" using assms(2,3) maxIndex_of_ge by fastforce
  then have mem: "maxIndex_of entries \<in> fst ` set entries" by (intro maxIndex_of_mem) simp
  have pop: "populateExpectedEntries assignable a entries em =
           Inl (Bad ''array length is %d, so cannot have #%d expected index''
                  [AInt (int n), AInt (maxIndex_of entries)])"
    if "expectedType a = ArrayOf n t" and "IsValid em \<longrightarrow> elems em \<noteq> None"
    for a :: tdArray and em
    using populate_array_bound [OF that(1) assms(2,3)] that(2) by blast
  have "Array assignable model entries =
           Inl (Bad ''array length is %d, so cannot have #%d expected index''
                  [AInt (int n), AInt (maxIndex_of entries)])"
    using assms(1)
  proof (elim disjE)
    assume m: "model = VSeq (ArrayOf n t) xs"
    show ?thesis by (simp add: m Array_def newArray_def pop)
  next
    assume m: "model = VPtr (PtrTo (ArrayOf n t)) (VSeq (ArrayOf n t) xs)"
    show ?thesis by (simp add: m Array_def newArray_def pop)
  next
    assume m: "model = VNil (PtrTo (ArrayOf n t))"
    show ?thesis by (simp add: m Array_def newArray_def pop)
  qed
  with ge mem show ?thesis by simp
qed

theorem Array_index_out_of_length_witness:
  "Array (=) (VSeq (ArrayOf 3 int_type) [VInt int_type 0, VInt int_type 14, VInt int_type 0])
     [(0, VInt int_type 12), (3, VInt int_type 17)] =
     Inl (Bad ''array length is %d, so cannot have #%d expected index'' [AInt 3, AInt 3])"
  using Array_index_out_of_length [of
      "VSeq (ArrayOf 3 int_type) [VInt int_type 0, VInt int_type 14, VInt int_type 0]"
      3 int_type "[VInt int_type 0, VInt int_type 14, VInt int_type 0]"
      3 "VInt int_type 17" "[(0, VInt int_type 12), (3, VInt int_type 17)]" "(=)"]
  by (simp add: maxIndex_of_def)

section \<open>Re and ReAll: Match by the shape of the value\<close>

lemma tdRe_Match_string:
  "Kind t = String_Kind \<Longrightarrow> tdRe_Match E r ctx (VStr t str) errs = match_str E r ctx str errs"
  by (simp add: tdRe_Match_def Kind_of_def)

lemma tdRe_Match_slice:
  "Type_of got = Some (SliceOf et) \<Longrightarrow>
   tdRe_Match E r ctx got errs =
     (if Kind et = Uint8_Kind then
        (case Bytes got of
           None \<Rightarrow> Inl (RuntimePanic ''reflect: call of reflect.Value.Bytes'')
         | Some gotBytes \<Rightarrow>
             if needCaptures r then
               matchByteCaptures E r ctx got (FindAllSubmatch (re r) gotBytes (numMatches r)) errs
             else Inr (matchBool E r ctx got (Match (re r) gotBytes) errs))
      else if BooleanError ctx then Inr (Some ctxerr_BooleanError, errs)
      else Inr (CollectError E ctx
             (Err \<lparr>Ctx = None, Message = ''bad slice type'',
                   Got = RawString (''[]'' @ Kind_String (Kind et)),
                   Expected = RawString ''[]uint8'', Summary = None\<rparr>) errs))"
  by (simp add: tdRe_Match_def Kind_of_def)

lemma tdRe_Match_other:
  "Kind_of got \<noteq> String_Kind \<Longrightarrow> Kind_of got \<noteq> Slice_Kind \<Longrightarrow>
   GetInterface E got True = Some iface \<Longrightarrow>
   tdRe_Match E r ctx got errs =
     (case error_view iface of
        Some str \<Rightarrow> match_str E r ctx str errs
      | None \<Rightarrow>
          (case Stringer_view iface of
             Some str \<Rightarrow> match_str E r ctx str errs
           | None \<Rightarrow>
               if BooleanError ctx then Inr (Some ctxerr_BooleanError, errs)
               else
                 (case Type_of got of
                    None \<Rightarrow> Inl (RuntimePanic
                        ''reflect: call of reflect.Value.Type on zero Value'')
                  | Some t \<Rightarrow>
                      Inr (CollectError E ctx
                        (Err \<lparr>Ctx = None, Message = ''bad type'',
                              Got = RawString (Type_String t),
                              Expected = RawString
                                ''string (convertible) OR fmt.Stringer OR error OR []uint8'',
                              Summary = None\<rparr>) errs))))"
  by (simp add: tdRe_Match_def)

lemma append_groups_concat:
  "\<forall>groups \<in> set result. groups \<noteq> [] \<Longrightarrow> append_groups result = Some (concat (map tl result))"
proof (induction result)
  case Nil
  show ?case by simp
next
  case (Cons groups result)
  then obtain whole rest where "groups = whole # rest" by (cases groups) auto
  with Cons show ?case by simp
qed

lemma append_groups_empty_set:
  "\<not> list_all (\<lambda>groups. groups \<noteq> []) result \<Longrightarrow> append_groups result = None"
proof (induction result)
  case Nil
  then show ?case by simp
next
  case (Cons groups result)
  show ?case
  proof (cases groups)
    case Nil
    then show ?thesis by simp
  next
    case (Cons whole rest)
    with Cons.prems Cons.IH show ?thesis by simp
  qed
qed

lemma match_str_unfold:
  "match_str E r ctx s errs =
     (if IsValid (captures r) then
        (if FindAllStringSubmatch (re r) s (numMatches r) = [] then
           Inr (if BooleanError ctx then (Some ctxerr_BooleanError, errs)
                else CollectError E ctx
                  (Err \<lparr>Ctx = None, Message = ''does not match Regexp'',
                        Got = Value (VStr string_type s),
                        Expected = RawString (Regexp_String (re r)), Summary = None\<rparr>) errs)
         else if list_all (\<lambda>groups. groups \<noteq> [])
                   (FindAllStringSubmatch (re r) s (numMatches r)) then
           Inr (deepValueEqual E
                  (ResetPath ctx
                     (''('' @ Path_String (Path ctx) @ '' =~ '' @ Regexp_String (re r) @ '')''))
                  (VSeq (if Type_of (captures r) = Some SliceInterface then SliceInterface
                         else SliceOf string_type)
                     (map (VStr string_type)
                        (concat (map tl (FindAllStringSubmatch (re r) s (numMatches r))))))
                  (captures r) errs)
         else Inl (RuntimePanic ''slice bounds out of range''))
      else
        Inr (if MatchString (re r) s then (None, errs)
             else if BooleanError ctx then (Some ctxerr_BooleanError, errs)
             else CollectError E ctx
               (Err \<lparr>Ctx = None, Message = ''does not match Regexp'',
                     Got = Value (VStr string_type s),
                     Expected = RawString (Regexp_String (re r)), Summary = None\<rparr>) errs))"
proof (cases "list_all (\<lambda>groups. groups \<noteq> []) (FindAllStringSubmatch (re r) s (numMatches r))")
  case True
  then have "append_groups (FindAllStringSubmatch (re r) s (numMatches r)) =
               Some (concat (map tl (FindAllStringSubmatch (re r) s (numMatches r))))"
    by (intro append_groups_concat) (simp add: list_all_iff)
  with True show ?thesis
    by (simp add: match_str_def needCaptures_def matchStringCaptures_def matchBool_def
          doesNotMatch_def matchCaptures_def captures_value_def tdRe_String_def)
next
  case False
  from append_groups_empty_set [OF this] False show ?thesis
    by (auto simp: match_str_def needCaptures_def matchStringCaptures_def matchBool_def
          doesNotMatch_def)
qed

lemma match_bytes_unfold:
  "(if needCaptures r
    then matchByteCaptures E r ctx got (FindAllSubmatch (re r) b (numMatches r)) errs
    else Inr (matchBool E r ctx got (Match (re r) b) errs)) =
     (if IsValid (captures r) then
        (if FindAllSubmatch (re r) b (numMatches r) = [] then
           Inr (if BooleanError ctx then (Some ctxerr_BooleanError, errs)
                else CollectError E ctx
                  (Err \<lparr>Ctx = None, Message = ''does not match Regexp'', Got = Value got,
                        Expected = RawString (Regexp_String (re r)), Summary = None\<rparr>) errs)
         else if list_all (\<lambda>groups. groups \<noteq> [])
                   (FindAllSubmatch (re r) b (numMatches r)) then
           Inr (deepValueEqual E
                  (ResetPath ctx
                     (''('' @ Path_String (Path ctx) @ '' =~ '' @ Regexp_String (re r) @ '')''))
                  (VSeq (if Type_of (captures r) = Some SliceInterface then SliceInterface
                         else SliceOf string_type)
                     (map (VStr string_type)
                        (concat (map tl (FindAllSubmatch (re r) b (numMatches r))))))
                  (captures r) errs)
         else Inl (RuntimePanic ''slice bounds out of range''))
      else
        Inr (if Match (re r) b then (None, errs)
             else if BooleanError ctx then (Some ctxerr_BooleanError, errs)
             else CollectError E ctx
               (Err \<lparr>Ctx = None, Message = ''does not match Regexp'', Got = Value got,
                     Expected = RawString (Regexp_String (re r)), Summary = None\<rparr>) errs))"
proof (cases "list_all (\<lambda>groups. groups \<noteq> []) (FindAllSubmatch (re r) b (numMatches r))")
  case True
  then have "append_groups (FindAllSubmatch (re r) b (numMatches r)) =
               Some (concat (map tl (FindAllSubmatch (re r) b (numMatches r))))"
    by (intro append_groups_concat) (simp add: list_all_iff)
  with True show ?thesis
    by (simp add: needCaptures_def matchByteCaptures_def matchBool_def
          doesNotMatch_def matchCaptures_def captures_value_def tdRe_String_def)
next
  case False
  from append_groups_empty_set [OF this] False show ?thesis
    by (auto simp: needCaptures_def matchByteCaptures_def matchBool_def doesNotMatch_def)
qed

lemma Bytes_bytes_value: "Bytes (bytes_value b) = Some b"
  by (simp add: Bytes_def bytes_value_def comp_def)

section \<open>Re and ReAll: no match when captures are expected\<close>

text \<open>
  Claim C5. Let the operator have a captures expectation, and let the regexp find no
  match in the text \<open>Match\<close> reads from the value: the string of a value of kind
  string, the \<open>Error()\<close> text of any other value that has one, else its \<open>String()\<close>
  text; or in the bytes of a slice of bytes. Then \<open>Match\<close> returns the boolean error
  in boolean-only mode, and otherwise hands the error "does not match Regexp", with the
  input and the regexp, to \<open>CollectError\<close>. The dispatcher is not asked to compare
  an empty sequence of captures with the expectation.
\<close>

theorem Re_no_match_with_captures:
  assumes "IsValid (captures r)"
  shows "(((got = VStr t s \<and> Kind t = String_Kind)
            \<or> (Kind_of got \<noteq> String_Kind \<and> Kind_of got \<noteq> Slice_Kind
                \<and> GetInterface E got True = Some iface
                \<and> (error_view iface = Some s
                    \<or> (error_view iface = None \<and> Stringer_view iface = Some s))))
          \<and> FindAllStringSubmatch (re r) s (numMatches r) = [] \<longrightarrow>
            tdRe_Match E r ctx got errs =
              Inr (if BooleanError ctx then (Some ctxerr_BooleanError, errs)
                   else CollectError E ctx
                     (Err \<lparr>Ctx = None, Message = ''does not match Regexp'',
                           Got = Value (VStr string_type s),
                           Expected = RawString (Regexp_String (re r)), Summary = None\<rparr>) errs))
       \<and> (Type_of got = Some (SliceOf et) \<and> Kind et = Uint8_Kind \<and> Bytes got = Some b
            \<and> FindAllSubmatch (re r) b (numMatches r) = [] \<longrightarrow>
            tdRe_Match E r ctx got errs =
              Inr (if BooleanError ctx then (Some ctxerr_BooleanError, errs)
                   else CollectError E ctx
                     (Err \<lparr>Ctx = None, Message = ''does not match Regexp'', Got = Value got,
                           Expected = RawString (Regexp_String (re r)), Summary = None\<rparr>) errs))"
proof (intro conjI impI)
  assume h: "((got = VStr t s \<and> Kind t = String_Kind)
            \<or> (Kind_of got \<noteq> String_Kind \<and> Kind_of got \<noteq> Slice_Kind
                \<and> GetInterface E got True = Some iface
                \<and> (error_view iface = Some s
                    \<or> (error_view iface = None \<and> Stringer_view iface = Some s))))
          \<and> FindAllStringSubmatch (re r) s (numMatches r) = []"
  then have "tdRe_Match E r ctx got errs = match_str E r ctx s errs"
    by (auto simp: tdRe_Match_string tdRe_Match_other)
  with h assms show "tdRe_Match E r ctx got errs =
              Inr (if BooleanError ctx then (Some ctxerr_BooleanError, errs)
                   else CollectError E ctx
                     (Err \<lparr>Ctx = None, Message = ''does not match Regexp'',
                           Got = Value (VStr string_type s),
                           Expected = RawString (Regexp_String (re r)), Summary = None\<rparr>) errs)"
    by (simp add: match_str_def needCaptures_def matchStringCaptures_def doesNotMatch_def)
next
  assume "Type_of got = Some (SliceOf et) \<and> Kind et = Uint8_Kind \<and> Bytes got = Some b
            \<and> FindAllSubmatch (re r) b (numMatches r) = []"
  with assms show "tdRe_Match E r ctx got errs =
              Inr (if BooleanError ctx then (Some ctxerr_BooleanError, errs)
                   else CollectError E ctx
                     (Err \<lparr>Ctx = None, Message = ''does not match Regexp'', Got = Value got,
                           Expected = RawString (Regexp_String (re r)), Summary = None\<rparr>) errs)"
    by (simp add: tdRe_Match_slice needCaptures_def matchByteCaptures_def doesNotMatch_def)
qed

theorem Re_no_match_with_captures_witness:
  "tdRe_Match env_spec
     \<lparr>re = two_words_Regexp,
      captures = VSeq (SliceOf string_type) [VStr string_type ''John'', VStr string_type ''Doe''],
      numMatches = 1\<rparr>
     ctx_DATA (VStr string_type ''John'') [] =
   Inr (None, [\<lparr>Ctx = Some ctx_DATA, Message = ''does not match Regexp'',
                 Got = Value (VStr string_type ''John''),
                 Expected = RawString (Regexp_String two_words_Regexp), Summary = None\<rparr>])
   \<and> tdRe_Match env_spec
     \<lparr>re = two_words_Regexp, captures = VSeq (SliceOf string_type) [], numMatches = - 1\<rparr>
     ctx_DATA (VObj (Basic ''*td_test.MyError'' Ptr_Kind) (Some ''John'') (Some ''John Doe'')) [] =
   Inr (None, [\<lparr>Ctx = Some ctx_DATA, Message = ''does not match Regexp'',
                 Got = Value (VStr string_type ''John''),
                 Expected = RawString (Regexp_String two_words_Regexp), Summary = None\<rparr>])
   \<and> tdRe_Match env_spec
     \<lparr>re = two_words_Regexp, captures = VSeq (SliceOf string_type) [], numMatches = 1\<rparr>
     ctx_DATA (VObj (Basic ''td_test.MyStringer'' Struct_Kind) None (Some ''Doe'')) [] =
   Inr (None, [\<lparr>Ctx = Some ctx_DATA, Message = ''does not match Regexp'',
                 Got = Value (VStr string_type ''Doe''),
                 Expected = RawString (Regexp_String two_words_Regexp), Summary = None\<rparr>])
   \<and> tdRe_Match env_spec
     \<lparr>re = two_words_Regexp,
      captures = VSeq (SliceOf string_type) [VStr string_type ''John'', VStr string_type ''Doe''],
      numMatches = - 1\<rparr>
     (ctx_DATA\<lparr>BooleanError := True\<rparr>) (bytes_value ''John'') [] =
   Inr (Some ctxerr_BooleanError, [])"
proof -
  let ?c = "VSeq (SliceOf string_type) [VStr string_type ''John'', VStr string_type ''Doe'']"
  let ?n = "VSeq (SliceOf string_type) []"
  let ?e = "VObj (Basic ''*td_test.MyError'' Ptr_Kind) (Some ''John'') (Some ''John Doe'')"
  let ?s = "VObj (Basic ''td_test.MyStringer'' Struct_Kind) None (Some ''Doe'')"
  have w: "two_words ''John'' = None" "two_words ''Doe'' = None"
    by (simp_all add: two_words_def word_char_def)
  have f: "FindAllStringSubmatch two_words_Regexp ''John'' n = []"
    "FindAllStringSubmatch two_words_Regexp ''Doe'' n = []"
    "FindAllSubmatch two_words_Regexp ''John'' n = []" for n
    by (simp_all add: two_words_Regexp_def find_two_words_def w)
  have b: "Type_of (bytes_value ''John'') = Some (SliceOf uint8_type)"
    "Kind uint8_type = Uint8_Kind"
    by (simp_all add: bytes_value_def uint8_type_def)
  have g: "GetInterface env_spec v True = Some v" for v
    by (simp add: env_spec_def)
  have c: "CollectError env_spec ctx_DATA (Err e) [] =
             (None, [if Ctx e = None then e\<lparr>Ctx := Some ctx_DATA\<rparr> else e])" for e
    by (simp add: env_spec_def CollectError_spec_def ctx_DATA_def)
  have nb: "\<not> BooleanError ctx_DATA" by (simp add: ctx_DATA_def)
  have 1: "tdRe_Match env_spec \<lparr>re = two_words_Regexp, captures = ?c, numMatches = 1\<rparr>
     ctx_DATA (VStr string_type ''John'') [] =
   Inr (None, [\<lparr>Ctx = Some ctx_DATA, Message = ''does not match Regexp'',
                 Got = Value (VStr string_type ''John''),
                 Expected = RawString (Regexp_String two_words_Regexp), Summary = None\<rparr>])"
    using Re_no_match_with_captures [where r =
        "\<lparr>re = two_words_Regexp, captures = ?c, numMatches = 1\<rparr>"
        and got = "VStr string_type ''John''"
        and t = string_type and s = "''John''" and E = env_spec and ctx = ctx_DATA
        and errs = "[]"] f c nb
    by (simp add: string_type_def)
  have 2: "tdRe_Match env_spec \<lparr>re = two_words_Regexp, captures = ?n, numMatches = - 1\<rparr>
     ctx_DATA ?e [] =
   Inr (None, [\<lparr>Ctx = Some ctx_DATA, Message = ''does not match Regexp'',
                 Got = Value (VStr string_type ''John''),
                 Expected = RawString (Regexp_String two_words_Regexp), Summary = None\<rparr>])"
    using Re_no_match_with_captures [where r =
        "\<lparr>re = two_words_Regexp, captures = ?n, numMatches = - 1\<rparr>"
        and got = ?e and iface = ?e and s = "''John''" and E = env_spec and ctx = ctx_DATA
        and errs = "[]"] f g c nb
    by (simp add: Kind_of_def)
  have 3: "tdRe_Match env_spec \<lparr>re = two_words_Regexp, captures = ?n, numMatches = 1\<rparr>
     ctx_DATA ?s [] =
   Inr (None, [\<lparr>Ctx = Some ctx_DATA, Message = ''does not match Regexp'',
                 Got = Value (VStr string_type ''Doe''),
                 Expected = RawString (Regexp_String two_words_Regexp), Summary = None\<rparr>])"
    using Re_no_match_with_captures [where r =
        "\<lparr>re = two_words_Regexp, captures = ?n, numMatches = 1\<rparr>"
        and got = ?s and iface = ?s and s = "''Doe''" and E = env_spec and ctx = ctx_DATA
        and errs = "[]"] f g c nb
    by (simp add: Kind_of_def)
  have 4: "tdRe_Match env_spec \<lparr>re = two_words_Regexp, captures = ?c, numMatches = - 1\<rparr>
     (ctx_DATA\<lparr>BooleanError := True\<rparr>) (bytes_value ''John'') [] =
   Inr (Some ctxerr_BooleanError, [])"
    using Re_no_match_with_captures [where r =
        "\<lparr>re = two_words_Regexp, captures = ?c, numMatches = - 1\<rparr>"
        and got = "bytes_value ''John''" and et = uint8_type and b = "''John''"
        and E = env_spec and ctx = "ctx_DATA\<lparr>BooleanError := True\<rparr>"
        and errs = "[]"] b f Bytes_bytes_value [of "''John''"]
    by simp
  from 1 2 3 4 show ?thesis by simp
qed

section \<open>Re and ReAll: the captured groups\<close>

text \<open>
  Claim C4. When the operator has a captures expectation and the regexp finds at least
  one match in a string or in a slice of bytes, \<open>Match\<close> returns what the dispatcher
  \<open>deepValueEqual\<close> returns on the captures expectation and the sequence of the groups
  of all matches, the groups of the first match first and each match's groups in their
  order (every match without its first entry, the whole match). The sequence is a
  \<open>[]interface{}\<close> when the expectation is one, a \<open>[]string\<close> otherwise; the
  expectation is any value, a literal or an operator.
\<close>

theorem Re_captures_flattened:
  assumes "needCaptures r" and "result \<noteq> []" and "\<forall>groups \<in> set result. groups \<noteq> []"
  shows "(Kind t = String_Kind \<and> FindAllStringSubmatch (re r) str (numMatches r) = result \<longrightarrow>
            tdRe_Match E r ctx (VStr t str) errs =
              Inr (deepValueEqual E
                     (ResetPath ctx
                        (''('' @ Path_String (Path ctx) @ '' =~ '' @ Regexp_String (re r) @ '')''))
                     (VSeq (if Type_of (captures r) = Some SliceInterface then SliceInterface
                            else SliceOf string_type)
                        (map (VStr string_type) (concat (map tl result))))
                     (captures r) errs))
       \<and> (Type_of got = Some (SliceOf et) \<and> Kind et = Uint8_Kind \<and> Bytes got = Some b
            \<and> FindAllSubmatch (re r) b (numMatches r) = result \<longrightarrow>
            tdRe_Match E r ctx got errs =
              Inr (deepValueEqual E
                     (ResetPath ctx
                        (''('' @ Path_String (Path ctx) @ '' =~ '' @ Regexp_String (re r) @ '')''))
                     (VSeq (if Type_of (captures r) = Some SliceInterface then SliceInterface
                            else SliceOf string_type)
                        (map (VStr string_type) (concat (map tl result))))
                     (captures r) errs))"
  using assms append_groups_concat [OF assms(3)]
  by (simp add: tdRe_Match_def Kind_of_def match_str_def matchStringCaptures_def
        matchByteCaptures_def matchCaptures_def captures_value_def tdRe_String_def)

theorem Re_captures_flattened_witness:
  "tdRe_Match env_spec
     \<lparr>re = two_words_Regexp,
      captures = VSeq (SliceOf string_type) [VStr string_type ''John'', VStr string_type ''Doe''],
      numMatches = 1\<rparr>
     ctx_DATA (VStr string_type ''John Doe'') [] = Inr (None, [])
   \<and> tdRe_Match env_spec
     \<lparr>re = two_words_Regexp,
      captures = VSeq SliceInterface [VStr string_type ''John'', VStr string_type ''Doe''],
      numMatches = - 1\<rparr>
     ctx_DATA (bytes_value ''John Doe'') [] = Inr (None, [])"
proof -
  have w1: "two_words ''John Doe'' = Some (''John'', ''Doe'')"
    by (simp add: two_words_def word_char_def)
  have b: "Bytes (bytes_value ''John Doe'') = Some ''John Doe''"
    by (rule Bytes_bytes_value)
  have ty: "Type_of (bytes_value ''John Doe'') = Some (SliceOf uint8_type)"
    "Kind uint8_type = Uint8_Kind"
    by (simp_all add: bytes_value_def uint8_type_def)
  show ?thesis
    using Re_captures_flattened [where r =
      "\<lparr>re = two_words_Regexp,
        captures = VSeq (SliceOf string_type) [VStr string_type ''John'', VStr string_type ''Doe''],
        numMatches = 1\<rparr>"
      and result = "[[''John Doe'', ''John'', ''Doe'']]" and t = string_type
      and str = "''John Doe''" and E = env_spec and ctx = ctx_DATA and errs = "[]"]
     Re_captures_flattened [where r =
      "\<lparr>re = two_words_Regexp,
        captures = VSeq SliceInterface [VStr string_type ''John'', VStr string_type ''Doe''],
        numMatches = - 1\<rparr>"
      and result = "[[''John Doe'', ''John'', ''Doe'']]"
      and got = "bytes_value ''John Doe''" and et = uint8_type and b = "''John Doe''"
      and E = env_spec and ctx = ctx_DATA and errs = "[]"]
     b ty
    by (simp add: needCaptures_def string_type_def SliceInterface_def two_words_Regexp_def
        find_two_words_def w1 env_spec_def deepValueEqual_literal_def)
qed

section \<open>Re and ReAll: the values Match accepts\<close>

text \<open>
  Claim C6. \<open>Match\<close> of \<open>Re\<close> and \<open>ReAll\<close> applies the regexp to the string of a
  value of kind string, to the bytes of a slice whose elements have kind uint8, and to
  any other value by its \<open>Error()\<close> text when it has one, else by its \<open>String()\<close>
  text when it has one: a value with both is matched on its error text. Applying the
  regexp is, without a captures expectation, asking the regexp whether the text
  matches: no error when it does, the error "does not match Regexp" when it does not;
  and with a captures expectation, asking the regexp for its matches (at most
  \<open>numMatches\<close>, all of them when negative): the same error when there is none, else
  the comparison by \<open>deepValueEqual\<close> of the groups with the expectation. A slice of
  another element kind gives the error "bad slice type" and a value of any other shape
  the error "bad type" (the boolean error in boolean-only mode); in both cases the
  result is the same whatever the regexp is, so the regexp is not applied.
\<close>

theorem Re_Match_input_shapes:
  "((got = VStr t s \<and> Kind t = String_Kind)
      \<or> (Kind_of got \<noteq> String_Kind \<and> Kind_of got \<noteq> Slice_Kind
          \<and> GetInterface E got True = Some iface
          \<and> (error_view iface = Some s
              \<or> (error_view iface = None \<and> Stringer_view iface = Some s))) \<longrightarrow>
      tdRe_Match E r ctx got errs =
        (if IsValid (captures r) then
           (if FindAllStringSubmatch (re r) s (numMatches r) = [] then
              Inr (if BooleanError ctx then (Some ctxerr_BooleanError, errs)
                   else CollectError E ctx
                     (Err \<lparr>Ctx = None, Message = ''does not match Regexp'',
                           Got = Value (VStr string_type s),
                           Expected = RawString (Regexp_String (re r)), Summary = None\<rparr>) errs)
            else if list_all (\<lambda>groups. groups \<noteq> [])
                      (FindAllStringSubmatch (re r) s (numMatches r)) then
              Inr (deepValueEqual E
                     (ResetPath ctx
                        (''('' @ Path_String (Path ctx) @ '' =~ '' @ Regexp_String (re r) @ '')''))
                     (VSeq (if Type_of (captures r) = Some SliceInterface then SliceInterface
                            else SliceOf string_type)
                        (map (VStr string_type)
                           (concat (map tl (FindAllStringSubmatch (re r) s (numMatches r))))))
                     (captures r) errs)
            else Inl (RuntimePanic ''slice bounds out of range''))
         else
           Inr (if MatchString (re r) s then (None, errs)
                else if BooleanError ctx then (Some ctxerr_BooleanError, errs)
                else CollectError E ctx
                  (Err \<lparr>Ctx = None, Message = ''does not match Regexp'',
                        Got = Value (VStr string_type s),
                        Expected = RawString (Regexp_String (re r)), Summary = None\<rparr>) errs)))
   \<and> (Type_of got = Some (SliceOf et) \<and> Kind et = Uint8_Kind \<and> Bytes got = Some b \<longrightarrow>
      tdRe_Match E r ctx got errs =
        (if IsValid (captures r) then
           (if FindAllSubmatch (re r) b (numMatches r) = [] then
              Inr (if BooleanError ctx then (Some ctxerr_BooleanError, errs)
                   else CollectError E ctx
                     (Err \<lparr>Ctx = None, Message = ''does not match Regexp'', Got = Value got,
                           Expected = RawString (Regexp_String (re r)), Summary = None\<rparr>) errs)
            else if list_all (\<lambda>groups. groups \<noteq> [])
                      (FindAllSubmatch (re r) b (numMatches r)) then
              Inr (deepValueEqual E
                     (ResetPath ctx
                        (''('' @ Path_String (Path ctx) @ '' =~ '' @ Regexp_String (re r) @ '')''))
                     (VSeq (if Type_of (captures r) = Some SliceInterface then SliceInterface
                            else SliceOf string_type)
                        (map (VStr string_type)
                           (concat (map tl (FindAllSubmatch (re r) b (numMatches r))))))
                     (captures r) errs)
            else Inl (RuntimePanic ''slice bounds out of range''))
         else
           Inr (if Match (re r) b then (None, errs)
                else if BooleanError ctx then (Some ctxerr_BooleanError, errs)
                else CollectError E ctx
                  (Err \<lparr>Ctx = None, Message = ''does not match Regexp'', Got = Value got,
                        Expected = RawString (Regexp_String (re r)), Summary = None\<rparr>) errs)))
   \<and> (Kind_of got \<noteq> String_Kind \<and> Kind_of got \<noteq> Slice_Kind \<and> Type_of got = Some gt
        \<and> GetInterface E got True = Some iface \<and> error_view iface = None
        \<and> Stringer_view iface = None \<longrightarrow>
      tdRe_Match E r ctx got errs =
        Inr (if BooleanError ctx then (Some ctxerr_BooleanError, errs)
             else CollectError E ctx
               (Err \<lparr>Ctx = None, Message = ''bad type'', Got = RawString (Type_String gt),
                     Expected = RawString
                       ''string (convertible) OR fmt.Stringer OR error OR []uint8'',
                     Summary = None\<rparr>) errs)
      \<and> tdRe_Match E (r\<lparr>re := re'\<rparr>) ctx got errs = tdRe_Match E r ctx got errs)
   \<and> (Type_of got = Some (SliceOf et) \<and> Kind et \<noteq> Uint8_Kind \<longrightarrow>
      tdRe_Match E r ctx got errs =
        Inr (if BooleanError ctx then (Some ctxerr_BooleanError, errs)
             else CollectError E ctx
               (Err \<lparr>Ctx = None, Message = ''bad slice type'',
                     Got = RawString (''[]'' @ Kind_String (Kind et)),
                     Expected = RawString ''[]uint8'', Summary = None\<rparr>) errs)
      \<and> tdRe_Match E (r\<lparr>re := re'\<rparr>) ctx got errs = tdRe_Match E r ctx got errs)"
proof (intro conjI impI)
  assume "(got = VStr t s \<and> Kind t = String_Kind)
      \<or> (Kind_of got \<noteq> String_Kind \<and> Kind_of got \<noteq> Slice_Kind
          \<and> GetInterface E got True = Some iface
          \<and> (error_view iface = Some s
              \<or> (error_view iface = None \<and> Stringer_view iface = Some s)))"
  then have "tdRe_Match E r ctx got errs = match_str E r ctx s errs"
    by (auto simp: tdRe_Match_string tdRe_Match_other)
  then show "tdRe_Match E r ctx got errs =
        (if IsValid (captures r) then
           (if FindAllStringSubmatch (re r) s (numMatches r) = [] then
              Inr (if BooleanError ctx then (Some ctxerr_BooleanError, errs)
                   else CollectError E ctx
                     (Err \<lparr>Ctx = None, Message = ''does not match Regexp'',
                           Got = Value (VStr string_type s),
                           Expected = RawString (Regexp_String (re r)), Summary = None\<rparr>) errs)
            else if list_all (\<lambda>groups. groups \<noteq> [])
                      (FindAllStringSubmatch (re r) s (numMatches r)) then
              Inr (deepValueEqual E
                     (ResetPath ctx
                        (''('' @ Path_String (Path ctx) @ '' =~ '' @ Regexp_String (re r) @ '')''))
                     (VSeq (if Type_of (captures r) = Some SliceInterface then SliceInterface
                            else SliceOf string_type)
                        (map (VStr string_type)
                           (concat (map tl (FindAllStringSubmatch (re r) s (numMatches r))))))
                     (captures r) errs)
            else Inl (RuntimePanic ''slice bounds out of range''))
         else
           Inr (if MatchString (re r) s then (None, errs)
                else if BooleanError ctx then (Some ctxerr_BooleanError, errs)
                else CollectError E ctx
                  (Err \<lparr>Ctx = None, Message = ''does not match Regexp'',
                        Got = Value (VStr string_type s),
                        Expected = RawString (Regexp_String (re r)), Summary = None\<rparr>) errs))"
    by (simp only: match_str_unfold)
next
  assume "Type_of got = Some (SliceOf et) \<and> Kind et = Uint8_Kind \<and> Bytes got = Some b"
  then have "tdRe_Match E r ctx got errs =
     (if needCaptures r
      then matchByteCaptures E r ctx got (FindAllSubmatch (re r) b (numMatches r)) errs
      else Inr (matchBool E r ctx got (Match (re r) b) errs))"
    by (simp add: tdRe_Match_slice)
  then show "tdRe_Match E r ctx got errs =
        (if IsValid (captures r) then
           (if FindAllSubmatch (re r) b (numMatches r) = [] then
              Inr (if BooleanError ctx then (Some ctxerr_BooleanError, errs)
                   else CollectError E ctx
                     (Err \<lparr>Ctx = None, Message = ''does not match Regexp'', Got = Value got,
                           Expected = RawString (Regexp_String (re r)), Summary = None\<rparr>) errs)
            else if list_all (\<lambda>groups. groups \<noteq> [])
                      (FindAllSubmatch (re r) b (numMatches r)) then
              Inr (deepValueEqual E
                     (ResetPath ctx
                        (''('' @ Path_String (Path ctx) @ '' =~ '' @ Regexp_String (re r) @ '')''))
                     (VSeq (if Type_of (captures r) = Some SliceInterface then SliceInterface
                            else SliceOf string_type)
                        (map (VStr string_type)
                           (concat (map tl (FindAllSubmatch (re r) b (numMatches r))))))
                     (captures r) errs)
            else Inl (RuntimePanic ''slice bounds out of range''))
         else
           Inr (if Match (re r) b then (None, errs)
                else if BooleanError ctx then (Some ctxerr_BooleanError, errs)
                else CollectError E ctx
                  (Err \<lparr>Ctx = None, Message = ''does not match Regexp'', Got = Value got,
                        Expected = RawString (Regexp_String (re r)), Summary = None\<rparr>) errs))"
    by (simp only: match_bytes_unfold)
qed (simp_all add: tdRe_Match_slice tdRe_Match_other)

theorem Re_Match_input_shapes_witness:
  "tdRe_Match env_spec \<lparr>re = two_words_Regexp, captures = VInvalid, numMatches = 1\<rparr> ctx_DATA
     (VObj (Basic ''*td_test.MyError'' Ptr_Kind) (Some ''John Doe'') (Some ''John''))
     [] = Inr (None, [])
   \<and> tdRe_Match env_spec \<lparr>re = two_words_Regexp, captures = VInvalid, numMatches = 1\<rparr> ctx_DATA
     (VObj (Basic ''*td_test.MyError'' Ptr_Kind) (Some ''John'') (Some ''John Doe''))
     [] = Inr (None, [\<lparr>Ctx = Some ctx_DATA, Message = ''does not match Regexp'',
                 Got = Value (VStr string_type ''John''),
                 Expected = RawString (Regexp_String two_words_Regexp), Summary = None\<rparr>])
   \<and> tdRe_Match env_spec \<lparr>re = two_words_Regexp, captures = VInvalid, numMatches = 1\<rparr> ctx_DATA
     (VObj (Basic ''td_test.MyStringer'' Struct_Kind) None (Some ''John Doe''))
     [] = Inr (None, [])
   \<and> tdRe_Match env_spec \<lparr>re = two_words_Regexp, captures = VInvalid, numMatches = 1\<rparr> ctx_DATA
     (VObj (Basic ''td_test.MyStringer'' Struct_Kind) None (Some ''John''))
     [] = Inr (None, [\<lparr>Ctx = Some ctx_DATA, Message = ''does not match Regexp'',
                 Got = Value (VStr string_type ''John''),
                 Expected = RawString (Regexp_String two_words_Regexp), Summary = None\<rparr>])
   \<and> tdRe_Match env_spec \<lparr>re = two_words_Regexp, captures = VInvalid, numMatches = 1\<rparr> ctx_DATA
     (VStr string_type ''John Doe'') [] = Inr (None, [])
   \<and> tdRe_Match env_spec \<lparr>re = two_words_Regexp, captures = VInvalid, numMatches = 1\<rparr> ctx_DATA
     (VStr string_type ''John'') []
     = Inr (None, [\<lparr>Ctx = Some ctx_DATA, Message = ''does not match Regexp'',
                 Got = Value (VStr string_type ''John''),
                 Expected = RawString (Regexp_String two_words_Regexp), Summary = None\<rparr>])
   \<and> tdRe_Match env_spec \<lparr>re = two_words_Regexp, captures = VInvalid, numMatches = 1\<rparr> ctx_DATA
     (bytes_value ''John Doe'') [] = Inr (None, [])
   \<and> tdRe_Match env_spec \<lparr>re = two_words_Regexp, captures = VInvalid, numMatches = 1\<rparr> ctx_DATA
     (bytes_value ''John'') []
     = Inr (None, [\<lparr>Ctx = Some ctx_DATA, Message = ''does not match Regexp'',
                 Got = Value (bytes_value ''John''),
                 Expected = RawString (Regexp_String two_words_Regexp), Summary = None\<rparr>])
   \<and> tdRe_Match env_spec \<lparr>re = two_words_Regexp, captures = VInvalid, numMatches = 1\<rparr> ctx_DATA
     (VInt int_type 12) [] =
       Inr (None, [\<lparr>Ctx = Some ctx_DATA, Message = ''bad type'', Got = RawString ''int'',
                     Expected = RawString
                       ''string (convertible) OR fmt.Stringer OR error OR []uint8'',
                     Summary = None\<rparr>])
   \<and> tdRe_Match env_spec \<lparr>re = two_words_Regexp, captures = VInvalid, numMatches = 1\<rparr> ctx_DATA
     (VSeq (SliceOf int_type) [VInt int_type 12]) [] =
       Inr (None, [\<lparr>Ctx = Some ctx_DATA, Message = ''bad slice type'', Got = RawString ''[]int'',
                     Expected = RawString ''[]uint8'', Summary = None\<rparr>])"
proof -
  let ?r = "\<lparr>re = two_words_Regexp, captures = VInvalid, numMatches = 1\<rparr>"
  let ?e1 = "VObj (Basic ''*td_test.MyError'' Ptr_Kind) (Some ''John Doe'') (Some ''John'')"
  let ?e2 = "VObj (Basic ''*td_test.MyError'' Ptr_Kind) (Some ''John'') (Some ''John Doe'')"
  let ?s1 = "VObj (Basic ''td_test.MyStringer'' Struct_Kind) None (Some ''John Doe'')"
  let ?s2 = "VObj (Basic ''td_test.MyStringer'' Struct_Kind) None (Some ''John'')"
  have w: "two_words ''John Doe'' = Some (''John'', ''Doe'')" "two_words ''John'' = None"
    by (simp_all add: two_words_def word_char_def)
  have ms: "MatchString two_words_Regexp ''John Doe''" "\<not> MatchString two_words_Regexp ''John''"
    "Match two_words_Regexp ''John Doe''" "\<not> Match two_words_Regexp ''John''"
    by (simp_all add: two_words_Regexp_def w)
  have b: "Bytes (bytes_value b) = Some b"
    "Type_of (bytes_value b) = Some (SliceOf uint8_type)"
    "Kind uint8_type = Uint8_Kind" for b
    by (rule Bytes_bytes_value) (simp_all add: bytes_value_def uint8_type_def)
  have g: "GetInterface env_spec v True = Some v" for v
    by (simp add: env_spec_def)
  have c: "CollectError env_spec ctx_DATA (Err e) [] =
             (None, [if Ctx e = None then e\<lparr>Ctx := Some ctx_DATA\<rparr> else e])" for e
    by (simp add: env_spec_def CollectError_spec_def ctx_DATA_def)
  have nb: "\<not> BooleanError ctx_DATA" by (simp add: ctx_DATA_def)
  note th = Re_Match_input_shapes [where E = env_spec and r = ?r and ctx = ctx_DATA and errs = "[]"]
  have 1: "tdRe_Match env_spec ?r ctx_DATA ?e1 [] = Inr (None, [])"
    using th [where got = ?e1 and iface = ?e1 and s = "''John Doe''"] ms g
    by (simp add: Kind_of_def)
  have 2: "tdRe_Match env_spec ?r ctx_DATA ?e2 [] =
     Inr (None, [\<lparr>Ctx = Some ctx_DATA, Message = ''does not match Regexp'',
                 Got = Value (VStr string_type ''John''),
                 Expected = RawString (Regexp_String two_words_Regexp), Summary = None\<rparr>])"
    using th [where got = ?e2 and iface = ?e2 and s = "''John''"] ms g c nb
    by (simp add: Kind_of_def)
  have 3: "tdRe_Match env_spec ?r ctx_DATA ?s1 [] = Inr (None, [])"
    using th [where got = ?s1 and iface = ?s1 and s = "''John Doe''"] ms g
    by (simp add: Kind_of_def)
  have 4: "tdRe_Match env_spec ?r ctx_DATA ?s2 [] =
     Inr (None, [\<lparr>Ctx = Some ctx_DATA, Message = ''does not match Regexp'',
                 Got = Value (VStr string_type ''John''),
                 Expected = RawString (Regexp_String two_words_Regexp), Summary = None\<rparr>])"
    using th [where got = ?s2 and iface = ?s2 and s = "''John''"] ms g c nb
    by (simp add: Kind_of_def)
  have 5: "tdRe_Match env_spec ?r ctx_DATA (VStr string_type ''John Doe'') [] = Inr (None, [])"
    using th [where got = "VStr string_type ''John Doe''" and t = string_type
        and s = "''John Doe''"] ms
    by (simp add: string_type_def)
  have 6: "tdRe_Match env_spec ?r ctx_DATA (VStr string_type ''John'') [] =
     Inr (None, [\<lparr>Ctx = Some ctx_DATA, Message = ''does not match Regexp'',
                 Got = Value (VStr string_type ''John''),
                 Expected = RawString (Regexp_String two_words_Regexp), Summary = None\<rparr>])"
    using th [where got = "VStr string_type ''John''" and t = string_type
        and s = "''John''"] ms c nb
    by (simp add: string_type_def)
  have 7: "tdRe_Match env_spec ?r ctx_DATA (bytes_value ''John Doe'') [] = Inr (None, [])"
    using th [where got = "bytes_value ''John Doe''" and et = uint8_type and b = "''John Doe''"]
      b ms
    by simp
  have 8: "tdRe_Match env_spec ?r ctx_DATA (bytes_value ''John'') [] =
     Inr (None, [\<lparr>Ctx = Some ctx_DATA, Message = ''does not match Regexp'',
                 Got = Value (bytes_value ''John''),
                 Expected = RawString (Regexp_String two_words_Regexp), Summary = None\<rparr>])"
    using th [where got = "bytes_value ''John''" and et = uint8_type and b = "''John''"]
      b ms c nb
    by simp
  have 9: "tdRe_Match env_spec ?r ctx_DATA (VInt int_type 12) [] =
       Inr (None, [\<lparr>Ctx = Some ctx_DATA, Message = ''bad type'', Got = RawString ''int'',
                     Expected = RawString
                       ''string (convertible) OR fmt.Stringer OR error OR []uint8'',
                     Summary = None\<rparr>])"
    using th [where got = "VInt int_type 12" and iface = "VInt int_type 12" and gt = int_type] g c
    by (simp add: Kind_of_def int_type_def ctx_DATA_def)
  have 10: "tdRe_Match env_spec ?r ctx_DATA (VSeq (SliceOf int_type) [VInt int_type 12]) [] =
       Inr (None, [\<lparr>Ctx = Some ctx_DATA, Message = ''bad slice type'', Got = RawString ''[]int'',
                     Expected = RawString ''[]uint8'', Summary = None\<rparr>])"
    using th [where got = "VSeq (SliceOf int_type) [VInt int_type 12]" and et = int_type] c
    by (simp add: int_type_def ctx_DATA_def)
  from 1 2 3 4 5 6 7 8 9 10 show ?thesis by simp
qed


section \<open>JSON, SubJSONOf and SuperJSONOf: the round trip of the value\<close>

lemma gotViaJSON_unfold:
  "gotViaJSON E ctx got =
     (case GetInterface E got True of
        None \<Rightarrow> Inl (CannotCompareError E ctx)
      | Some gotIf \<Rightarrow>
          (case Marshal_json E gotIf of
             Inl err \<Rightarrow>
               Inl (if BooleanError ctx then ctxerr_BooleanError
                    else Err \<lparr>Ctx = None, Message = ''json.Marshal failed'', Got = Unset,
                              Expected = Unset, Summary = Some err\<rparr>)
           | Inr b \<Rightarrow> Inr (Unmarshal_json E b)))"
  by (simp add: gotViaJSON_def jsonify_def split: option.splits sum.splits)

text \<open>
  Claim C3. \<open>Match\<close> of \<open>JSON\<close>, \<open>SubJSONOf\<close> and \<open>SuperJSONOf\<close> first encodes the
  value with \<open>json.Marshal\<close> and decodes the bytes with \<open>json.Unmarshal\<close>. When the
  encoding succeeds, \<open>JSON\<close> returns what the dispatcher returns on the decoded value
  in the context with \<open>BeLax\<close> set, and the two others, on a decoded value that is not
  null, what the map comparison returns on it in the context with \<open>BeLax\<close> set. When the
  encoding fails, the error "json.Marshal failed", with the text of the encoder's error
  as its summary, is handed to \<open>CollectError\<close> (in boolean-only mode, the boolean error
  is).
\<close>

theorem JSON_Match_round_trip:
  "(GetInterface E got True = Some gotIf \<and> Marshal_json E gotIf = Inr b \<longrightarrow>
      tdJSON_Match E j ctx got errs =
        deepValueEqual E (ctx\<lparr>BeLax := True\<rparr>) (Unmarshal_json E b) (expected j) errs
      \<and> (IsValid (Unmarshal_json E b) \<longrightarrow>
           tdMapJSON_Match E m ctx got errs =
             tdMap_match E (tdMap.truncate m) (ctx\<lparr>BeLax := True\<rparr>) (Unmarshal_json E b) errs))
   \<and> (GetInterface E got True = Some gotIf \<and> Marshal_json E gotIf = Inl msg \<longrightarrow>
      tdJSON_Match E j ctx got errs =
        CollectError E ctx
          (if BooleanError ctx then ctxerr_BooleanError
           else Err \<lparr>Ctx = None, Message = ''json.Marshal failed'', Got = Unset,
                     Expected = Unset, Summary = Some msg\<rparr>) errs
      \<and> tdMapJSON_Match E m ctx got errs =
        CollectError E ctx
          (if BooleanError ctx then ctxerr_BooleanError
           else Err \<lparr>Ctx = None, Message = ''json.Marshal failed'', Got = Unset,
                     Expected = Unset, Summary = Some msg\<rparr>) errs)"
  by (simp add: tdJSON_Match_def tdMapJSON_Match_def gotViaJSON_unfold)

theorem JSON_Match_round_trip_witness:
  "tdJSON_Match env_spec \<lparr>expected = VBool bool_type True\<rparr> ctx_DATA
      (VPtr (PtrTo (Basic ''td_test.MyBool'' Bool_Kind)) (VBool (Basic ''td_test.MyBool'' Bool_Kind) True)) []
     = (None, [])
   \<and> tdMapJSON_Match env_spec
      \<lparr>expectedType = map_string_interface, isPtr = False, mapKind = subMap, mapEntries = [],
       expected_JSON = VMap map_string_interface []\<rparr> ctx_DATA
      (VMap (Basic ''map[string]int'' Map_Kind) []) []
     = (None, [])
   \<and> tdJSON_Match env_spec \<lparr>expected = VBool bool_type True\<rparr> ctx_DATA
      (VObj (Basic ''chan int'' Chan_Kind) None None) []
     = (None, [\<lparr>Ctx = Some ctx_DATA, Message = ''json.Marshal failed'', Got = Unset,
                 Expected = Unset, Summary = Some ''json: unsupported type: chan int''\<rparr>])
   \<and> tdMapJSON_Match env_spec
      \<lparr>expectedType = map_string_interface, isPtr = False, mapKind = superMap, mapEntries = [],
       expected_JSON = VMap map_string_interface []\<rparr> ctx_DATA
      (VObj (Basic ''chan int'' Chan_Kind) None None) []
     = (None, [\<lparr>Ctx = Some ctx_DATA, Message = ''json.Marshal failed'', Got = Unset,
                 Expected = Unset, Summary = Some ''json: unsupported type: chan int''\<rparr>])"
proof -
  let ?j = "\<lparr>expected = VBool bool_type True\<rparr>"
  let ?p = "VPtr (PtrTo (Basic ''td_test.MyBool'' Bool_Kind)) (VBool (Basic ''td_test.MyBool'' Bool_Kind) True)"
  let ?c = "VObj (Basic ''chan int'' Chan_Kind) None None"
  let ?m = "VMap (Basic ''map[string]int'' Map_Kind) []"
  have g: "GetInterface env_spec v True = Some v" for v
    by (simp add: env_spec_def)
  have mp: "Marshal_json env_spec ?p = Inr ''true''"
    and mm: "Marshal_json env_spec ?m = Inr ''{}''"
    and mc: "Marshal_json env_spec ?c = Inl ''json: unsupported type: chan int''"
    by (simp_all add: env_spec_def)
  have u: "Unmarshal_json env_spec ''true'' = VBool bool_type True"
    "Unmarshal_json env_spec ''{}'' = VMap map_string_interface []"
    by (simp_all add: env_spec_def Unmarshal_small_def)
  have c: "CollectError env_spec ctx_DATA (Err e) [] =
             (None, [if Ctx e = None then e\<lparr>Ctx := Some ctx_DATA\<rparr> else e])" for e
    by (simp add: env_spec_def CollectError_spec_def ctx_DATA_def)
  have d: "deepValueEqual env_spec ctx v v [] = (None, [])" for ctx v
    by (simp add: env_spec_def deepValueEqual_literal_def)
  have t: "tdMap_match env_spec \<lparr>expectedType = map_string_interface, isPtr = False, mapKind = subMap, mapEntries = []\<rparr>
             ctx (VMap map_string_interface []) [] = (None, [])" for ctx
    by (simp add: env_spec_def tdMap_match_spec_def)
  note th = JSON_Match_round_trip [where E = env_spec and ctx = ctx_DATA and errs = "[]"]
  have 1: "tdJSON_Match env_spec ?j ctx_DATA ?p [] = (None, [])"
    using th [where got = ?p and gotIf = ?p and b = "''true''" and j = ?j] g mp u d by simp
  have 2: "tdMapJSON_Match env_spec
      \<lparr>expectedType = map_string_interface, isPtr = False, mapKind = subMap, mapEntries = [],
       expected_JSON = VMap map_string_interface []\<rparr> ctx_DATA ?m [] = (None, [])"
    using th [where got = ?m and gotIf = ?m and b = "''{}''" and m = "\<lparr>expectedType = map_string_interface, isPtr = False, mapKind = subMap, mapEntries = [],
       expected_JSON = VMap map_string_interface []\<rparr>"] g mm u t
    by (simp add: tdMap.truncate_def tdExpectedType.defs tdMap.defs)
  have 3: "tdJSON_Match env_spec ?j ctx_DATA ?c []
     = (None, [\<lparr>Ctx = Some ctx_DATA, Message = ''json.Marshal failed'', Got = Unset,
                 Expected = Unset, Summary = Some ''json: unsupported type: chan int''\<rparr>])"
    using th [where got = ?c and gotIf = ?c and msg = "''json: unsupported type: chan int''" and j = ?j] g mc c
    by (simp add: ctx_DATA_def)
  have 4: "tdMapJSON_Match env_spec
      \<lparr>expectedType = map_string_interface, isPtr = False, mapKind = superMap, mapEntries = [],
       expected_JSON = VMap map_string_interface []\<rparr> ctx_DATA ?c []
     = (None, [\<lparr>Ctx = Some ctx_DATA, Message = ''json.Marshal failed'', Got = Unset,
                 Expected = Unset, Summary = Some ''json: unsupported type: chan int''\<rparr>])"
    using th [where got = ?c and gotIf = ?c and msg = "''json: unsupported type: chan int''" and m = "\<lparr>expectedType = map_string_interface, isPtr = False, mapKind = superMap, mapEntries = [],
       expected_JSON = VMap map_string_interface []\<rparr>"] g mc c
    by (simp add: ctx_DATA_def)
  from 1 2 3 4 show ?thesis by simp
qed

section \<open>Array and Slice: the expected entries\<close>

lemma entry_value_Inr:
  "entry_value assignable elemType maxLength index v = Inr v' \<Longrightarrow>
     v' = (if v = VInvalid then Zero elemType else v)"
  by (auto simp: entry_value_def split: if_splits option.splits)

lemma set_entries_length:
  "set_entries assignable elemType maxLength entries es = Inr es' \<Longrightarrow> length es' = length es"
proof (induction entries arbitrary: es)
  case Nil
  then show ?case by simp
next
  case (Cons e entries)
  obtain index v where e: "e = (index, v)" by (cases e)
  from Cons.prems obtain v' where
    "set_entries assignable elemType maxLength entries (es[nat index := v']) = Inr es'"
    by (auto simp: e split: sum.splits if_splits)
  from Cons.IH [OF this] show ?case by simp
qed

lemma set_entries_nth:
  assumes "distinct (map fst entries)"
    and "set_entries assignable elemType maxLength entries es = Inr es'"
    and "i < length es"
  shows "es' ! i =
           (case map_of entries (int i) of
              Some v \<Rightarrow> if v = VInvalid then Zero elemType else v
            | None \<Rightarrow> es ! i)"
  using assms
proof (induction entries arbitrary: es)
  case Nil
  then show ?case by simp
next
  case (Cons e entries)
  obtain index v where e: "e = (index, v)" by (cases e)
  from Cons.prems(2) obtain v' where
    v': "entry_value assignable elemType maxLength index v = Inr v'"
    and range: "0 \<le> index" "index < int (length es)"
    and rest: "set_entries assignable elemType maxLength entries (es[nat index := v']) = Inr es'"
    by (auto simp: e split: sum.splits if_splits)
  have conv: "v' = (if v = VInvalid then Zero elemType else v)"
    using v' by (rule entry_value_Inr)
  have d: "distinct (map fst entries)" and fresh: "index \<notin> fst ` set entries"
    using Cons.prems(1) by (auto simp: e)
  have IH: "es' ! i =
           (case map_of entries (int i) of
              Some v \<Rightarrow> if v = VInvalid then Zero elemType else v
            | None \<Rightarrow> (es[nat index := v']) ! i)"
    using Cons.IH [OF d rest] Cons.prems(3) by simp
  show ?case
  proof (cases "int i = index")
    case True
    then have "map_of entries (int i) = None"
      using fresh by (simp add: map_of_eq_None_iff)
    moreover have "nat index = i" using True by simp
    ultimately show ?thesis using IH Cons.prems(3) conv True by (simp add: e)
  next
    case False
    then have "nat index \<noteq> i" using range by auto
    then show ?thesis using IH False by (simp add: e split: option.splits)
  qed
qed

lemma model_entries_length:
  "model_entries zero entries model n es = Inr es' \<Longrightarrow> length es' = length es"
proof (induction n arbitrary: es)
  case 0
  then show ?case by simp
next
  case (Suc n)
  then show ?case by (auto split: if_splits)
qed

lemma model_entries_nth:
  assumes "model_entries zero entries model n es = Inr es'" and "i < length es"
  shows "es' ! i = (if i < n \<and> map_of entries (int i) = None then model ! i else es ! i)"
  using assms
proof (induction n arbitrary: es)
  case 0
  then show ?case by simp
next
  case (Suc n)
  show ?case
  proof (cases "map_of entries (int n) = None")
    case True
    with Suc.prems(1) have inr: "n < length es"
      and rest: "model_entries zero entries model n (es[n := model ! n]) = Inr es'"
      by (auto split: if_splits)
    from Suc.IH [OF rest] Suc.prems(2)
    have "es' ! i = (if i < n \<and> map_of entries (int i) = None then model ! i
                     else (es[n := model ! n]) ! i)" by simp
    then show ?thesis using True inr by (cases "i = n") (auto simp: less_Suc_eq)
  next
    case False
    with Suc.prems(1) have rest: "model_entries zero entries model n es = Inr es'"
      by (auto split: if_splits)
    from Suc.IH [OF rest Suc.prems(2)] False show ?thesis
      by (cases "i = n") (auto simp: less_Suc_eq)
  qed
qed

lemma zero_entries_length: "length (zero_entries vzero entries idxs es) = length es"
  by (induction idxs arbitrary: es) simp_all

lemma zero_entries_nth:
  "i < length es \<Longrightarrow>
   zero_entries vzero entries idxs es ! i =
     (if i \<in> set idxs \<and> map_of entries (int i) = None then vzero else es ! i)"
proof (induction idxs arbitrary: es)
  case Nil
  then show ?case by simp
next
  case (Cons index idxs)
  show ?case
  proof (cases "i = index")
    case True
    then show ?thesis using Cons by simp
  next
    case False
    then show ?thesis using Cons by simp
  qed
qed


lemma populate_array_steps:
  assumes "populateExpectedEntries assignable a entries expectedModel = Inr a'"
    and "IsValid expectedModel" and "elems expectedModel = Some model"
    and "Elem (expectedType a) = Some elemType"
    and "Kind (expectedType a) = Array_Kind"
    and "Len_type (expectedType a) = Some (length model)"
  obtains es1 where
    "set_entries assignable elemType (int (length model)) entries
       (replicate (length model) VInvalid) = Inr es1"
    "model_entries (Zero elemType) entries model (length model) es1 = Inr (expectedEntries a')"
  using assms
  by (auto simp: populateExpectedEntries_def Let_def split: sum.splits if_splits)

lemma populate_slice_steps:
  assumes "populateExpectedEntries assignable a entries expectedModel = Inr a'"
    and "IsValid expectedModel" and "elems expectedModel = Some model"
    and "Elem (expectedType a) = Some elemType"
    and "Kind (expectedType a) \<noteq> Array_Kind"
  obtains es1 es2 where
    "set_entries assignable elemType (- 1) entries
       (replicate (max (nat (maxIndex_of entries + 1)) (length model)) VInvalid) = Inr es1"
    "model_entries (Zero elemType) entries model (length model) es1 = Inr es2"
    "expectedEntries a' =
       zero_entries (Zero elemType) entries
         [length model ..< max (nat (maxIndex_of entries + 1)) (length model)] es2"
proof -
  have n: "nat (if maxIndex_of entries + 1 < int (length model) then int (length model)
                else maxIndex_of entries + 1)
           = max (nat (maxIndex_of entries + 1)) (length model)"
    using maxIndex_of_lower [of entries] by (auto simp: max_def)
  show thesis
    using assms that n
    by (auto simp: populateExpectedEntries_def Let_def split: sum.splits if_splits)
qed

lemma populate_resolution:
  assumes ok: "populateExpectedEntries assignable a entries expectedModel = Inr a'"
    and valid: "IsValid expectedModel" and el: "elems expectedModel = Some model"
    and elem: "Elem (expectedType a) = Some elemType"
    and len: "Kind (expectedType a) = Array_Kind \<longrightarrow>
                Len_type (expectedType a) = Some (length model)"
    and d: "distinct (map fst entries)"
  shows "length (expectedEntries a') =
           (if Kind (expectedType a) = Array_Kind then length model
            else max (nat (maxIndex_of entries + 1)) (length model))
         \<and> (\<forall>i < length (expectedEntries a').
               expectedEntries a' ! i = resolved elemType entries model i)"
proof (cases "Kind (expectedType a) = Array_Kind")
  case True
  with len have l: "Len_type (expectedType a) = Some (length model)" by simp
  from populate_array_steps [OF ok valid el elem True l] obtain es1 where
    s1: "set_entries assignable elemType (int (length model)) entries
       (replicate (length model) VInvalid) = Inr es1"
    and s2: "model_entries (Zero elemType) entries model (length model) es1
               = Inr (expectedEntries a')"
    by blast
  have l1: "length es1 = length model" using set_entries_length [OF s1] by simp
  have l2: "length (expectedEntries a') = length model"
    using model_entries_length [OF s2] l1 by simp
  have "expectedEntries a' ! i = resolved elemType entries model i" if "i < length model" for i
    using model_entries_nth [OF s2, of i] set_entries_nth [OF d s1, of i] that l1
    by (simp add: resolved_def split: option.splits)
  with l2 True show ?thesis by simp
next
  case False
  let ?n = "max (nat (maxIndex_of entries + 1)) (length model)"
  from populate_slice_steps [OF ok valid el elem False] obtain es1 es2 where
    s1: "set_entries assignable elemType (- 1) entries (replicate ?n VInvalid) = Inr es1"
    and s2: "model_entries (Zero elemType) entries model (length model) es1 = Inr es2"
    and s3: "expectedEntries a' =
       zero_entries (Zero elemType) entries [length model ..< ?n] es2"
    by blast
  have l1: "length es1 = ?n" using set_entries_length [OF s1] by simp
  have l2: "length es2 = ?n" using model_entries_length [OF s2] l1 by simp
  have l3: "length (expectedEntries a') = ?n" by (simp add: s3 zero_entries_length l2)
  have "expectedEntries a' ! i = resolved elemType entries model i" if "i < ?n" for i
    using model_entries_nth [OF s2, of i] set_entries_nth [OF d s1, of i] that l1 l2
      zero_entries_nth [of i es2 "Zero elemType" entries "[length model ..< ?n]"]
    by (auto simp: resolved_def s3 split: option.splits)
  with l3 False show ?thesis by simp
qed



lemma map_sum_Inr_Some: "map_sum id Some x = Inr (Some a) \<longleftrightarrow> x = Inr a"
  by (cases x) auto

lemma populate_not_sequence:
  "IsValid expectedModel \<Longrightarrow> elems expectedModel = None \<Longrightarrow>
   populateExpectedEntries assignable a entries expectedModel \<noteq> Inr a'"
  by (simp add: populateExpectedEntries_def)

lemma newArray_populate:
  assumes "newArray assignable kind m entries = Inr (Some a')"
    and "elems (model_sequence m) = Some model"
    and "Type_of (model_sequence m) = Some t"
  shows "\<exists>p. populateExpectedEntries assignable
              \<lparr>expectedType = t, isPtr = p, expectedEntries = []\<rparr> entries (model_sequence m)
            = Inr a'"
proof (cases m)
  case (VPtr pt v)
  with assms show ?thesis
    using populate_not_sequence [of "VPtr pt v"]
    by (auto simp: newArray_def map_sum_Inr_Some split: option.splits if_splits)
next
  case (VSeq st xs)
  with assms show ?thesis
    by (auto simp: newArray_def map_sum_Inr_Some split: option.splits if_splits)
next
  case (VNil nt)
  with assms(2) obtain et where "nt = SliceOf et" by (cases nt) auto
  with VNil assms show ?thesis
    by (auto simp: newArray_def map_sum_Inr_Some split: option.splits if_splits)
qed (use assms(2) in auto)


lemma sparse_array_built:
  "Array (=) (VSeq (ArrayOf 3 int_type) [VInt int_type 0, VInt int_type 14, VInt int_type 0])
      [(0, VInt int_type 12), (2, VInt int_type 17)] =
     Inr \<lparr>expectedType = ArrayOf 3 int_type, isPtr = False,
          expectedEntries = [VInt int_type 12, VInt int_type 14, VInt int_type 17]\<rparr>"
  by (simp add: Array_def newArray_def populateExpectedEntries_def maxIndex_of_def
        entry_value_def int_type_def numeral_3_eq_3)

lemma sparse_array_matches:
  "tdArray_Match env_spec
     \<lparr>expectedType = ArrayOf 3 int_type, isPtr = False,
      expectedEntries = [VInt int_type 12, VInt int_type 14, VInt int_type 17]\<rparr>
     ctx_DATA (VSeq (ArrayOf 3 int_type) [VInt int_type 12, VInt int_type 14, VInt int_type 17]) []
   = Inr (None, [])"
  by (simp add: tdArray_Match_def env_spec_def checkPtr_spec_def checkType_spec_def
        tdExpectedType.defs tdArray.defs Len_def Index_def deepValueEqual_literal_def)

lemma sparse_array_fails:
  "tdArray_Match env_spec
     \<lparr>expectedType = ArrayOf 3 int_type, isPtr = False,
      expectedEntries = [VInt int_type 12, VInt int_type 14, VInt int_type 17]\<rparr>
     ctx_DATA (VSeq (ArrayOf 3 int_type) [VInt int_type 12, VInt int_type 14, VInt int_type 18]) []
   = Inr (None, [\<lparr>Ctx = Some (AddArrayIndex ctx_DATA 2), Message = ''values differ'',
                     Got = Value (VInt int_type 18), Expected = Value (VInt int_type 17),
                     Summary = None\<rparr>])"
  by (simp add: tdArray_Match_def env_spec_def checkPtr_spec_def checkType_spec_def
        tdExpectedType.defs tdArray.defs Len_def Index_def deepValueEqual_literal_def
        CollectError_spec_def AddArrayIndex_def ctx_DATA_def)

text \<open>
  Let \<open>Array\<close> or \<open>Slice\<close> build an operator from a model that holds a sequence (an
  array or a slice, or a non-nil pointer to one) of type \<open>t\<close> and from overrides with
  distinct indexes. The expected entries are as many as the array's length, or for a
  slice as the greater of the model's length and one more than the greatest override
  index; and the entry at each index is the override if there is one (the typed nil for
  a nil override), else the model's value if the index is within the model, else the
  zero value of the element type. In particular \<open>Array\<close> with model \<open>[3]int{0, 14}\<close>
  and overrides \<open>{0: 12, 2: 17}\<close> expects \<open>[12, 14, 17]\<close>: with the dispatcher on
  literals it matches \<open>[12, 14, 17]\<close> without an error, and on \<open>[12, 14, 18]\<close> it
  records one error, at index 2.
\<close>

lemma sequence_model_effective_expected:
  assumes built: "Array assignable m entries = Inr a' \<or> Slice assignable m entries = Inr a'"
    and seq: "elems (model_sequence m) = Some model"
    and ty: "Type_of (model_sequence m) = Some t" and elem: "Elem t = Some elemType"
    and wf: "Kind t = Array_Kind \<longrightarrow> Len_type t = Some (length model)"
    and d: "distinct (map fst entries)"
  shows "length (expectedEntries a') =
           (if Kind t = Array_Kind then length model
            else max (nat (maxIndex_of entries + 1)) (length model))
       \<and> (\<forall>i < length (expectedEntries a').
             expectedEntries a' ! i = resolved elemType entries model i)
       \<and> Array (=) (VSeq (ArrayOf 3 int_type) [VInt int_type 0, VInt int_type 14, VInt int_type 0])
              [(0, VInt int_type 12), (2, VInt int_type 17)] =
            Inr \<lparr>expectedType = ArrayOf 3 int_type, isPtr = False,
                 expectedEntries = [VInt int_type 12, VInt int_type 14, VInt int_type 17]\<rparr>
       \<and> tdArray_Match env_spec
            \<lparr>expectedType = ArrayOf 3 int_type, isPtr = False,
             expectedEntries = [VInt int_type 12, VInt int_type 14, VInt int_type 17]\<rparr>
            ctx_DATA
            (VSeq (ArrayOf 3 int_type) [VInt int_type 12, VInt int_type 14, VInt int_type 17]) []
           = Inr (None, [])
       \<and> tdArray_Match env_spec
            \<lparr>expectedType = ArrayOf 3 int_type, isPtr = False,
             expectedEntries = [VInt int_type 12, VInt int_type 14, VInt int_type 17]\<rparr>
            ctx_DATA
            (VSeq (ArrayOf 3 int_type) [VInt int_type 12, VInt int_type 14, VInt int_type 18]) []
           = Inr (None, [\<lparr>Ctx = Some (AddArrayIndex ctx_DATA 2), Message = ''values differ'',
                           Got = Value (VInt int_type 18), Expected = Value (VInt int_type 17),
                           Summary = None\<rparr>])"
proof -
  from built obtain kind where "newArray assignable kind m entries = Inr (Some a')"
    by (auto simp: Array_def Slice_def split: sum.splits option.splits)
  from newArray_populate [OF this seq ty] obtain p where
    pop: "populateExpectedEntries assignable
            \<lparr>expectedType = t, isPtr = p, expectedEntries = []\<rparr> entries (model_sequence m)
          = Inr a'" by blast
  have valid: "IsValid (model_sequence m)" using seq by (cases "model_sequence m") auto
  have "length (expectedEntries a') =
           (if Kind t = Array_Kind then length model
            else max (nat (maxIndex_of entries + 1)) (length model))
       \<and> (\<forall>i < length (expectedEntries a').
             expectedEntries a' ! i = resolved elemType entries model i)"
    using populate_resolution [OF pop valid seq _ _ d, of elemType] elem wf by simp
  then show ?thesis
    using sparse_array_built sparse_array_matches sparse_array_fails by simp
qed

lemma sequence_model_effective_expected_example:
  "[resolved int_type [(0, VInt int_type 12), (2, VInt int_type 17)]
       [VInt int_type 0, VInt int_type 14, VInt int_type 0] 0,
    resolved int_type [(0, VInt int_type 12), (2, VInt int_type 17)]
       [VInt int_type 0, VInt int_type 14, VInt int_type 0] 1,
    resolved int_type [(0, VInt int_type 12), (2, VInt int_type 17)]
       [VInt int_type 0, VInt int_type 14, VInt int_type 0] 2]
   = [VInt int_type 12, VInt int_type 14, VInt int_type 17]
   \<and> Slice (=) (VPtr (PtrTo (SliceOf int_type)) (VSeq (SliceOf int_type) [VInt int_type 0, VInt int_type 14]))
        [(3, VInt int_type 17), (0, VInt int_type 12)] =
       Inr \<lparr>expectedType = SliceOf int_type, isPtr = True,
            expectedEntries = [VInt int_type 12, VInt int_type 14, VInt int_type 0, VInt int_type 17]\<rparr>
   \<and> [resolved int_type [(3, VInt int_type 17), (0, VInt int_type 12)]
       [VInt int_type 0, VInt int_type 14] 2,
      resolved int_type [(3, VInt int_type 17), (0, VInt int_type 12)]
       [VInt int_type 0, VInt int_type 14] 3]
     = [VInt int_type 0, VInt int_type 17]"
proof -
  let ?m = "VSeq (ArrayOf 3 int_type) [VInt int_type 0, VInt int_type 14, VInt int_type 0]"
  let ?e = "[(0, VInt int_type 12), (2, VInt int_type 17)]"
  let ?a = "\<lparr>expectedType = ArrayOf 3 int_type, isPtr = False,
          expectedEntries = [VInt int_type 12, VInt int_type 14, VInt int_type 17]\<rparr>"
  let ?s = "VPtr (PtrTo (SliceOf int_type)) (VSeq (SliceOf int_type) [VInt int_type 0, VInt int_type 14])"
  let ?f = "[(3, VInt int_type 17), (0, VInt int_type 12)]"
  let ?b = "\<lparr>expectedType = SliceOf int_type, isPtr = True,
            expectedEntries = [VInt int_type 12, VInt int_type 14, VInt int_type 0, VInt int_type 17]\<rparr>"
  have sl: "Slice (=) ?s ?f = Inr ?b"
    by (simp add: Slice_def newArray_def populateExpectedEntries_def maxIndex_of_def
        entry_value_def int_type_def upt_conv_Cons eval_nat_numeral)
  have 1: "\<forall>i < 3. [VInt int_type 12, VInt int_type 14, VInt int_type 17] ! i
               = resolved int_type ?e [VInt int_type 0, VInt int_type 14, VInt int_type 0] i"
    using sequence_model_effective_expected [where m = ?m and entries = ?e and a' = ?a
        and assignable = "(=)" and model = "[VInt int_type 0, VInt int_type 14, VInt int_type 0]"
        and t = "ArrayOf 3 int_type" and elemType = int_type] sparse_array_built
    by simp
  have 2: "\<forall>i < 4. [VInt int_type 12, VInt int_type 14, VInt int_type 0, VInt int_type 17] ! i
               = resolved int_type ?f [VInt int_type 0, VInt int_type 14] i"
    using sequence_model_effective_expected [where m = ?s and entries = ?f and a' = ?b
        and assignable = "(=)" and model = "[VInt int_type 0, VInt int_type 14]"
        and t = "SliceOf int_type" and elemType = int_type] sl
    by simp
  have "resolved int_type ?e [VInt int_type 0, VInt int_type 14, VInt int_type 0] 0 = VInt int_type 12"
    "resolved int_type ?e [VInt int_type 0, VInt int_type 14, VInt int_type 0] 1 = VInt int_type 14"
    "resolved int_type ?e [VInt int_type 0, VInt int_type 14, VInt int_type 0] 2 = VInt int_type 17"
    using 1 [THEN spec, of 0] 1 [THEN spec, of 1] 1 [THEN spec, of 2] by simp_all
  moreover have
    "resolved int_type ?f [VInt int_type 0, VInt int_type 14] 2 = VInt int_type 0"
    "resolved int_type ?f [VInt int_type 0, VInt int_type 14] 3 = VInt int_type 17"
    using 2 [THEN spec, of 2] 2 [THEN spec, of 3] by simp_all
  ultimately show ?thesis using sl by simp
qed

text \<open>
  Claim C1. The rule does not hold for \<open>Slice\<close> on a model that is a nil pointer to a
  slice. \<open>Slice((*[]int)(nil), ArrayEntries{2: 5})\<close> builds three expected entries, of
  which those at indexes 0 and 1 are left as the invalid \<open>reflect.Value{}\<close>: with no
  model \<open>populateExpectedEntries\<close> returns at its branch "nil slice", before the loop
  that sets the indexes left to the zero value. The rule gives the zero value 0 at both
  indexes. The neighbouring paths follow the rule on the same overrides: \<open>Array\<close> on
  a nil pointer to \<open>[3]int\<close>, \<open>Slice\<close> on a pointer to an empty slice, and
  \<open>Slice\<close> on a nil slice all expect \<open>[0, 0, 5]\<close>.
\<close>

theorem Slice_nil_pointer_model_unset:
  "Slice (=) (VNil (PtrTo (SliceOf int_type))) [(2, VInt int_type 5)] =
     Inr \<lparr>expectedType = SliceOf int_type, isPtr = True,
          expectedEntries = [VInvalid, VInvalid, VInt int_type 5]\<rparr>
   \<and> map (resolved int_type [(2, VInt int_type 5)] []) [0, 1, 2] =
       [VInt int_type 0, VInt int_type 0, VInt int_type 5]
   \<and> Array (=) (VNil (PtrTo (ArrayOf 3 int_type))) [(2, VInt int_type 5)] =
       Inr \<lparr>expectedType = ArrayOf 3 int_type, isPtr = True,
            expectedEntries = [VInt int_type 0, VInt int_type 0, VInt int_type 5]\<rparr>
   \<and> Slice (=) (VPtr (PtrTo (SliceOf int_type)) (VSeq (SliceOf int_type) []))
         [(2, VInt int_type 5)] =
       Inr \<lparr>expectedType = SliceOf int_type, isPtr = True,
            expectedEntries = [VInt int_type 0, VInt int_type 0, VInt int_type 5]\<rparr>
   \<and> Slice (=) (VNil (SliceOf int_type)) [(2, VInt int_type 5)] =
       Inr \<lparr>expectedType = SliceOf int_type, isPtr = False,
            expectedEntries = [VInt int_type 0, VInt int_type 0, VInt int_type 5]\<rparr>"
  by (simp add: Slice_def Array_def newArray_def populateExpectedEntries_def maxIndex_of_def
        entry_value_def resolved_def int_type_def upt_conv_Cons eval_nat_numeral Let_def)

section \<open>Array and Slice: a nil override\<close>

lemma Zero_nilable: "nilable (Kind t) \<Longrightarrow> Zero t = VNil t"
  by (cases t) (auto simp: nilable_def)

lemma set_entries_nil_fails:
  "(index, VInvalid) \<in> set entries \<Longrightarrow> \<not> nilable (Kind elemType) \<Longrightarrow>
   set_entries assignable elemType maxLength entries es \<noteq> Inr es'"
proof (induction entries arbitrary: es)
  case Nil
  then show ?case by simp
next
  case (Cons e entries)
  obtain i v where e: "e = (i, v)" by (cases e)
  show ?case
  proof (cases "e = (index, VInvalid)")
    case True
    then show ?thesis using Cons.prems(2) by (simp add: entry_value_def)
  next
    case False
    with Cons.prems(1) have "(index, VInvalid) \<in> set entries" by simp
    from Cons.IH [OF this Cons.prems(2)] show ?thesis
      by (auto simp: e split: sum.splits)
  qed
qed

lemma set_entries_nil_error:
  assumes "\<not> nilable (Kind elemType)"
    and "\<forall>e \<in> set entries. acceptable_entry assignable elemType e \<and> fst e < int (length es)"
    and "\<exists>i. (i, VInvalid) \<in> set entries"
  shows "\<exists>i. (i, VInvalid) \<in> set entries \<and>
           set_entries assignable elemType maxLength entries es =
             Inl (Bad ''expected value of #%d cannot be nil as items type is %s''
                    [AInt i, AType elemType])"
  using assms(2,3)
proof (induction entries arbitrary: es)
  case Nil
  then show ?case by simp
next
  case (Cons e entries)
  obtain i v where e: "e = (i, v)" by (cases e)
  show ?case
  proof (cases "v = VInvalid")
    case True
    then show ?thesis using assms(1) by (auto simp: e entry_value_def)
  next
    case False
    with Cons.prems(1) have ev: "entry_value assignable elemType maxLength i v = Inr v"
      and range: "0 \<le> i" "i < int (length es)"
      by (auto simp: e acceptable_entry_def entry_value_def split: option.splits)
    have rest: "\<forall>e \<in> set entries. acceptable_entry assignable elemType e
                  \<and> fst e < int (length (es[nat i := v]))"
      using Cons.prems(1) by simp
    have "\<exists>i. (i, VInvalid) \<in> set entries" using Cons.prems(2) False by (auto simp: e)
    from Cons.IH [OF rest this] obtain j where
      "(j, VInvalid) \<in> set entries"
      "set_entries assignable elemType maxLength entries (es[nat i := v]) =
         Inl (Bad ''expected value of #%d cannot be nil as items type is %s''
                [AInt j, AType elemType])" by blast
    then show ?thesis using ev range by (auto simp: e)
  qed
qed

lemma set_entries_range:
  "set_entries assignable elemType maxLength entries es = Inr es' \<Longrightarrow>
   (index, v) \<in> set entries \<Longrightarrow> 0 \<le> index \<and> index < int (length es)"
proof (induction entries arbitrary: es)
  case Nil
  then show ?case by simp
next
  case (Cons e entries)
  obtain i w where e: "e = (i, w)" by (cases e)
  from Cons.prems(1) obtain w' where
    range: "0 \<le> i" "i < int (length es)"
    and rest: "set_entries assignable elemType maxLength entries (es[nat i := w']) = Inr es'"
    by (auto simp: e split: sum.splits if_splits)
  show ?case
  proof (cases "(index, v) = e")
    case True
    then show ?thesis using range by (simp add: e)
  next
    case False
    with Cons.prems(2) have "(index, v) \<in> set entries" by simp
    from Cons.IH [OF rest this] show ?thesis by simp
  qed
qed

lemma populate_stages:
  assumes ok: "populateExpectedEntries assignable a entries expectedModel = Inr a'"
    and elem: "Elem (expectedType a) = Some elemType"
    and first: "\<And>maxLength n es1.
       set_entries assignable elemType maxLength entries (replicate n VInvalid) = Inr es1
       \<Longrightarrow> Q es1"
    and second: "\<And>model k es es'.
       Q es \<Longrightarrow> model_entries (Zero elemType) entries model k es = Inr es' \<Longrightarrow> Q es'"
    and third: "\<And>idxs es. Q es \<Longrightarrow> Q (zero_entries (Zero elemType) entries idxs es)"
  shows "Q (expectedEntries a')"
  using ok elem
  by (auto simp: populateExpectedEntries_def Let_def
        split: sum.splits if_splits option.splits
        intro: first second third; blast intro: first second third)

lemma populate_override_kept:
  assumes ok: "populateExpectedEntries assignable a entries expectedModel = Inr a'"
    and elem: "Elem (expectedType a) = Some elemType"
    and d: "distinct (map fst entries)"
    and mem: "(index, v) \<in> set entries"
  shows "0 \<le> index \<and> nat index < length (expectedEntries a')
         \<and> expectedEntries a' ! nat index = (if v = VInvalid then Zero elemType else v)"
proof -
  let ?Q = "\<lambda>es. 0 \<le> index \<and> nat index < length es
              \<and> es ! nat index = (if v = VInvalid then Zero elemType else v)"
  have m: "map_of entries index = Some v" using d mem by simp
  show ?thesis
  proof (rule populate_stages [OF ok elem, where Q = ?Q])
    fix maxLength n es1
    assume s1: "set_entries assignable elemType maxLength entries (replicate n VInvalid) = Inr es1"
    from set_entries_range [OF s1 mem] have range: "0 \<le> index" "nat index < n" by auto
    show "?Q es1"
      using set_entries_nth [OF d s1, of "nat index"] set_entries_length [OF s1] range m
      by simp
  next
    fix model k es es'
    assume q: "?Q es" and s2: "model_entries (Zero elemType) entries model k es = Inr es'"
    show "?Q es'"
      using model_entries_nth [OF s2, of "nat index"] model_entries_length [OF s2] q m
      by simp
  next
    fix idxs es
    assume q: "?Q es"
    show "?Q (zero_entries (Zero elemType) entries idxs es)"
      using zero_entries_nth [of "nat index" es "Zero elemType" entries idxs] q m
      by (simp add: zero_entries_length)
  qed
qed

lemma populate_set_entries:
  assumes "populateExpectedEntries assignable a entries expectedModel = Inr a'"
    and "Elem (expectedType a) = Some elemType"
  shows "\<exists>maxLength es es1. set_entries assignable elemType maxLength entries es = Inr es1"
  using assms
  by (auto simp: populateExpectedEntries_def Let_def
        split: sum.splits if_splits option.splits)


lemma populate_first_loop_error:
  assumes elem: "Elem (expectedType a) = Some elemType"
    and seq: "IsValid expectedModel \<longrightarrow> elems expectedModel \<noteq> None"
    and bound: "Kind (expectedType a) = Array_Kind \<longrightarrow>
                  (\<exists>n. Len_type (expectedType a) = Some n \<and> maxIndex_of entries < int n)"
  shows "\<exists>maxLength n.
           (\<forall>e \<in> set entries. fst e < int n) \<and>
           (\<forall>err. set_entries assignable elemType maxLength entries (replicate n VInvalid)
                    = Inl err \<longrightarrow>
                  populateExpectedEntries assignable a entries expectedModel = Inl err)"
proof -
  have le: "fst e \<le> maxIndex_of entries" if "e \<in> set entries" for e
    using maxIndex_of_ge [of "fst e" "snd e" entries] that by simp
  show ?thesis
  proof (cases "Kind (expectedType a) = Array_Kind")
    case True
    with bound obtain n where n: "Len_type (expectedType a) = Some n"
      "maxIndex_of entries < int n" by blast
    have "\<forall>e \<in> set entries. fst e < int n" using le n(2) by fastforce
    moreover have "populateExpectedEntries assignable a entries expectedModel = Inl err"
      if "set_entries assignable elemType (int n) entries (replicate n VInvalid) = Inl err"
      for err
      using that True n elem seq
      by (auto simp: populateExpectedEntries_def Let_def split: option.splits)
    ultimately show ?thesis by blast
  next
    case False
    define n where "n = nat (if IsValid expectedModel
          \<and> maxIndex_of entries + 1 < int (length (the (elems expectedModel)))
        then int (length (the (elems expectedModel))) else maxIndex_of entries + 1)"
    have "\<forall>e \<in> set entries. fst e < int n"
    proof
      fix e assume "e \<in> set entries"
      from le [OF this] show "fst e < int n" by (auto simp: n_def)
    qed
    moreover have "populateExpectedEntries assignable a entries expectedModel = Inl err"
      if "set_entries assignable elemType (- 1) entries (replicate n VInvalid) = Inl err"
      for err
      using that False elem seq
      by (auto simp: populateExpectedEntries_def Let_def n_def split: option.splits)
    ultimately show ?thesis by blast
  qed
qed

lemma set_entries_succeeds:
  assumes "\<forall>e \<in> set entries. acceptable_entry assignable elemType e \<and> fst e < int (length es)"
    and "(\<exists>i. (i, VInvalid) \<in> set entries) \<longrightarrow> nilable (Kind elemType)"
  shows "\<exists>es'. set_entries assignable elemType maxLength entries es = Inr es'"
  using assms
proof (induction entries arbitrary: es)
  case Nil
  show ?case by simp
next
  case (Cons e entries)
  obtain i v where e: "e = (i, v)" by (cases e)
  from Cons.prems have acc: "acceptable_entry assignable elemType (i, v)"
    and range: "0 \<le> i" "i < int (length es)"
    and nil: "v = VInvalid \<longrightarrow> nilable (Kind elemType)"
    by (auto simp: e acceptable_entry_def)
  have "\<exists>v'. entry_value assignable elemType maxLength i v = Inr v'"
  proof (cases "v = VInvalid")
    case True
    with nil show ?thesis by (simp add: entry_value_def)
  next
    case False
    with acc show ?thesis
      by (auto simp: acceptable_entry_def entry_value_def split: option.splits)
  qed
  then obtain v' where ev: "entry_value assignable elemType maxLength i v = Inr v'" by blast
  have rest: "\<forall>e \<in> set entries. acceptable_entry assignable elemType e
                \<and> fst e < int (length (es[nat i := v']))"
    using Cons.prems(1) by simp
  have "(\<exists>i. (i, VInvalid) \<in> set entries) \<longrightarrow> nilable (Kind elemType)"
    using Cons.prems(2) by auto
  from Cons.IH [OF rest this] show ?case using ev range by (simp add: e)
qed

lemma model_entries_succeeds:
  assumes "k \<le> length model" and "k \<le> length es"
    and "\<forall>i < k. map_of entries (int i) \<noteq> None \<longrightarrow> model ! i = zero"
  shows "\<exists>es'. model_entries zero entries model k es = Inr es'"
  using assms
proof (induction k arbitrary: es)
  case 0
  show ?case by simp
next
  case (Suc k)
  have "\<exists>es'. model_entries zero entries model k es0 = Inr es'" if "length es0 = length es" for es0
    using Suc.IH [of es0] Suc.prems that by simp
  from this [of es] this [of "es[k := model ! k]"] Suc.prems show ?case by auto
qed

lemma populate_succeeds:
  assumes elem: "Elem (expectedType a) = Some elemType"
    and model: "IsValid expectedModel \<longrightarrow>
        elems expectedModel = Some model
        \<and> (Kind (expectedType a) = Array_Kind \<longrightarrow> Len_type (expectedType a) = Some (length model))
        \<and> (\<forall>e \<in> set entries. nat (fst e) < length model \<longrightarrow> model ! nat (fst e) = Zero elemType)"
    and bound: "Kind (expectedType a) = Array_Kind \<longrightarrow>
                  (\<exists>n. Len_type (expectedType a) = Some n \<and> maxIndex_of entries < int n)"
    and acc: "list_all (acceptable_entry assignable elemType) entries"
    and nil: "(\<exists>i. (i, VInvalid) \<in> set entries) \<longrightarrow> nilable (Kind elemType)"
  shows "\<exists>a'. populateExpectedEntries assignable a entries expectedModel = Inr a'"
proof -
  have le: "fst e \<le> maxIndex_of entries" if "e \<in> set entries" for e
    using maxIndex_of_ge [of "fst e" "snd e" entries] that by simp
  define arrayLen where "arrayLen = (if Kind (expectedType a) = Array_Kind
     then the (Len_type (expectedType a)) else 0)"
  define ml where "ml = (if IsValid expectedModel then model else [])"
  define n where "n = nat (if Kind (expectedType a) = Array_Kind then int arrayLen
     else if IsValid expectedModel \<and> maxIndex_of entries + 1 < int (length ml)
       then int (length ml) else maxIndex_of entries + 1)"
  define maxLength where "maxLength = (if Kind (expectedType a) = Array_Kind
     then int arrayLen else - 1)"
  have range: "\<forall>e \<in> set entries. fst e < int n"
  proof
    fix e assume "e \<in> set entries"
    from le [OF this] bound show "fst e < int n"
      by (auto simp: n_def arrayLen_def)
  qed
  have "\<forall>e \<in> set entries. acceptable_entry assignable elemType e
          \<and> fst e < int (length (replicate n VInvalid))"
    using acc range by (simp add: list_all_iff)
  from set_entries_succeeds [OF this nil, of maxLength] obtain es1 where
    s1: "set_entries assignable elemType maxLength entries (replicate n VInvalid) = Inr es1"
    by blast
  have l1: "length es1 = n" using set_entries_length [OF s1] by simp
  have "\<exists>es2. (if IsValid expectedModel
              then model_entries (Zero elemType) entries ml (length ml) es1
              else Inr es1) = Inr es2"
  proof (cases "IsValid expectedModel")
    case False
    then show ?thesis by simp
  next
    case True
    with model have m: "ml = model"
      and wf: "Kind (expectedType a) = Array_Kind \<longrightarrow> Len_type (expectedType a) = Some (length model)"
      and zero: "\<forall>e \<in> set entries. nat (fst e) < length model \<longrightarrow> model ! nat (fst e) = Zero elemType"
      by (simp_all add: ml_def)
    have ln: "length ml \<le> length es1"
      using l1 wf m True by (auto simp: n_def arrayLen_def)
    have "\<forall>i < length ml. map_of entries (int i) \<noteq> None \<longrightarrow> ml ! i = Zero elemType"
    proof (intro allI impI)
      fix i assume i: "i < length ml" and "map_of entries (int i) \<noteq> None"
      then obtain v where "map_of entries (int i) = Some v" by auto
      then have "(int i, v) \<in> set entries" by (rule map_of_SomeD)
      with zero [THEN bspec, of "(int i, v)"] i m show "ml ! i = Zero elemType" by simp
    qed
    from model_entries_succeeds [OF _ ln this] True show ?thesis by simp
  qed
  then obtain es2 where s2: "(if IsValid expectedModel
              then model_entries (Zero elemType) entries ml (length ml) es1
              else Inr es1) = Inr es2" by blast
  have seq: "(if IsValid expectedModel then elems expectedModel else Some []) = Some ml"
    using model by (simp add: ml_def)
  have len: "(if Kind (expectedType a) = Array_Kind then Len_type (expectedType a) else Some 0)
               = Some arrayLen"
    using bound by (auto simp: arrayLen_def)
  have nb: "\<not> (Kind (expectedType a) = Array_Kind \<and> int arrayLen \<le> maxIndex_of entries)"
    using bound by (auto simp: arrayLen_def)
  show ?thesis
    using s1 s2 elem nb
    unfolding populateExpectedEntries_def Let_def seq len option.case
    by (auto simp: n_def maxLength_def split: if_splits)
qed

text \<open>
  Claim C10. Let the overrides hold a nil at some index. When the kind of the element
  type is not one of chan, func, interface, map, pointer and slice,
  \<open>populateExpectedEntries\<close> never succeeds; and when nothing else is wrong (the model
  is a sequence or absent, no index is beyond an array's length, and every override has
  an index that is not negative and a value that is nil, an operator or assignable to
  the element type), it fails with the usage error "expected value of #%d cannot be nil
  as items type is %s" on the index of a nil override and the element type. When the
  kind is one of the six, the zero value of the element type is its nil; the
  construction succeeds when nothing else is wrong (as above, and the model, if there
  is one, has the length of the array type and holds the zero value at every index
  that has an override); and whenever it succeeds, the expected entry at the index of
  the nil override is the nil of the element type.
\<close>

theorem nil_entry_needs_nilable_elements:
  assumes elem: "Elem (expectedType a) = Some elemType"
    and nil: "(index, VInvalid) \<in> set entries"
  shows "(Kind elemType \<notin> {Chan_Kind, Func_Kind, Interface_Kind, Map_Kind, Ptr_Kind, Slice_Kind} \<longrightarrow>
            populateExpectedEntries assignable a entries expectedModel \<noteq> Inr a'
            \<and> ((IsValid expectedModel \<longrightarrow> elems expectedModel \<noteq> None)
                \<and> (Kind (expectedType a) = Array_Kind \<longrightarrow>
                     (\<exists>n. Len_type (expectedType a) = Some n \<and> maxIndex_of entries < int n))
                \<and> list_all (acceptable_entry assignable elemType) entries \<longrightarrow>
                (\<exists>i. (i, VInvalid) \<in> set entries \<and>
                   populateExpectedEntries assignable a entries expectedModel =
                     Inl (Bad ''expected value of #%d cannot be nil as items type is %s''
                            [AInt i, AType elemType]))))
       \<and> (Kind elemType \<in> {Chan_Kind, Func_Kind, Interface_Kind, Map_Kind, Ptr_Kind, Slice_Kind} \<longrightarrow>
            Zero elemType = VNil elemType
            \<and> ((IsValid expectedModel \<longrightarrow>
                   elems expectedModel = Some model
                   \<and> (Kind (expectedType a) = Array_Kind \<longrightarrow>
                        Len_type (expectedType a) = Some (length model))
                   \<and> (\<forall>e \<in> set entries. nat (fst e) < length model \<longrightarrow>
                          model ! nat (fst e) = Zero elemType))
                \<and> (Kind (expectedType a) = Array_Kind \<longrightarrow>
                     (\<exists>n. Len_type (expectedType a) = Some n \<and> maxIndex_of entries < int n))
                \<and> list_all (acceptable_entry assignable elemType) entries \<longrightarrow>
                (\<exists>built. populateExpectedEntries assignable a entries expectedModel = Inr built))
            \<and> (distinct (map fst entries)
                \<and> populateExpectedEntries assignable a entries expectedModel = Inr a' \<longrightarrow>
                0 \<le> index \<and> nat index < length (expectedEntries a')
                \<and> expectedEntries a' ! nat index = VNil elemType))"
proof (intro conjI impI)
  assume "Kind elemType \<notin> {Chan_Kind, Func_Kind, Interface_Kind, Map_Kind, Ptr_Kind, Slice_Kind}"
  then have nn: "\<not> nilable (Kind elemType)" by (simp add: nilable_def)
  show "populateExpectedEntries assignable a entries expectedModel \<noteq> Inr a'"
  proof
    assume "populateExpectedEntries assignable a entries expectedModel = Inr a'"
    from populate_set_entries [OF this elem] obtain maxLength es es1 where
      "set_entries assignable elemType maxLength entries es = Inr es1" by blast
    with set_entries_nil_fails [OF nil nn] show False by blast
  qed
next
  assume "Kind elemType \<notin> {Chan_Kind, Func_Kind, Interface_Kind, Map_Kind, Ptr_Kind, Slice_Kind}"
    and pre: "(IsValid expectedModel \<longrightarrow> elems expectedModel \<noteq> None)
                \<and> (Kind (expectedType a) = Array_Kind \<longrightarrow>
                     (\<exists>n. Len_type (expectedType a) = Some n \<and> maxIndex_of entries < int n))
                \<and> list_all (acceptable_entry assignable elemType) entries"
  then have nn: "\<not> nilable (Kind elemType)" by (simp add: nilable_def)
  from populate_first_loop_error [OF elem, of expectedModel entries assignable] pre
  obtain maxLength n where
    range: "\<forall>e \<in> set entries. fst e < int n"
    and err: "\<And>err. set_entries assignable elemType maxLength entries (replicate n VInvalid)
                    = Inl err \<Longrightarrow>
                  populateExpectedEntries assignable a entries expectedModel = Inl err"
    by blast
  have acc: "\<forall>e \<in> set entries. acceptable_entry assignable elemType e
               \<and> fst e < int (length (replicate n VInvalid))"
    using pre range by (simp add: list_all_iff)
  from set_entries_nil_error [OF nn acc, of maxLength] nil obtain i where
    "(i, VInvalid) \<in> set entries"
    "set_entries assignable elemType maxLength entries (replicate n VInvalid) =
       Inl (Bad ''expected value of #%d cannot be nil as items type is %s''
              [AInt i, AType elemType])" by blast
  with err show "\<exists>i. (i, VInvalid) \<in> set entries \<and>
                   populateExpectedEntries assignable a entries expectedModel =
                     Inl (Bad ''expected value of #%d cannot be nil as items type is %s''
                            [AInt i, AType elemType])" by blast
next
  assume "Kind elemType \<in> {Chan_Kind, Func_Kind, Interface_Kind, Map_Kind, Ptr_Kind, Slice_Kind}"
  then have "nilable (Kind elemType)" by (simp add: nilable_def)
  then show "Zero elemType = VNil elemType" by (rule Zero_nilable)
next
  assume "Kind elemType \<in> {Chan_Kind, Func_Kind, Interface_Kind, Map_Kind, Ptr_Kind, Slice_Kind}"
    and pre: "(IsValid expectedModel \<longrightarrow>
                   elems expectedModel = Some model
                   \<and> (Kind (expectedType a) = Array_Kind \<longrightarrow>
                        Len_type (expectedType a) = Some (length model))
                   \<and> (\<forall>e \<in> set entries. nat (fst e) < length model \<longrightarrow>
                          model ! nat (fst e) = Zero elemType))
                \<and> (Kind (expectedType a) = Array_Kind \<longrightarrow>
                     (\<exists>n. Len_type (expectedType a) = Some n \<and> maxIndex_of entries < int n))
                \<and> list_all (acceptable_entry assignable elemType) entries"
  then have n: "(\<exists>i. (i, VInvalid) \<in> set entries) \<longrightarrow> nilable (Kind elemType)"
    by (simp add: nilable_def)
  from pre show "\<exists>built. populateExpectedEntries assignable a entries expectedModel = Inr built"
    by (intro populate_succeeds [OF elem _ _ _ n, of expectedModel model]) simp_all
next
  assume k: "Kind elemType \<in> {Chan_Kind, Func_Kind, Interface_Kind, Map_Kind, Ptr_Kind, Slice_Kind}"
    and h: "distinct (map fst entries)
            \<and> populateExpectedEntries assignable a entries expectedModel = Inr a'"
  from k have "nilable (Kind elemType)" by (simp add: nilable_def)
  then have z: "Zero elemType = VNil elemType" by (rule Zero_nilable)
  from h populate_override_kept [OF _ elem _ nil, of assignable expectedModel a'] z
  show "0 \<le> index" "nat index < length (expectedEntries a')"
    "expectedEntries a' ! nat index = VNil elemType"
    by simp_all
qed

theorem nil_entry_needs_nilable_elements_witness:
  "populateExpectedEntries (=)
     \<lparr>expectedType = ArrayOf 3 int_type, isPtr = False, expectedEntries = []\<rparr>
     [(0, VInt int_type 12), (1, VInvalid)]
     (VSeq (ArrayOf 3 int_type) [VInt int_type 0, VInt int_type 0, VInt int_type 0])
   = Inl (Bad ''expected value of #%d cannot be nil as items type is %s''
            [AInt 1, AType int_type])
   \<and> (\<exists>built. populateExpectedEntries (=)
         \<lparr>expectedType = SliceOf (SliceOf int_type), isPtr = False, expectedEntries = []\<rparr>
         [(1, VInvalid)] (VSeq (SliceOf (SliceOf int_type)) []) = Inr built
       \<and> expectedEntries built ! nat 1 = VNil (SliceOf int_type))
   \<and> list_all
       (\<lambda>elemType.
          populateExpectedEntries (=)
            \<lparr>expectedType = SliceOf elemType, isPtr = False, expectedEntries = []\<rparr>
            [(1, VInvalid)] (VSeq (SliceOf elemType) [])
          = Inr \<lparr>expectedType = SliceOf elemType, isPtr = False,
                 expectedEntries = [VNil elemType, VNil elemType]\<rparr>)
       [Basic ''chan int'' Chan_Kind, Basic ''func()'' Func_Kind,
        Basic ''interface {}'' Interface_Kind, Basic ''map[string]int'' Map_Kind,
        PtrTo int_type, SliceOf int_type]"
proof -
  let ?a = "\<lparr>expectedType = ArrayOf 3 int_type, isPtr = False, expectedEntries = []\<rparr>"
  let ?e = "[(0, VInt int_type 12), (1, VInvalid)]"
  let ?m = "VSeq (ArrayOf 3 int_type) [VInt int_type 0, VInt int_type 0, VInt int_type 0]"
  let ?b = "\<lparr>expectedType = SliceOf (SliceOf int_type), isPtr = False, expectedEntries = []\<rparr>"
  let ?n = "VSeq (SliceOf (SliceOf int_type)) []"
  have mx: "maxIndex_of ?e = 1" by (simp add: maxIndex_of_def)
  have acc: "list_all (acceptable_entry (=) int_type) ?e"
    "list_all (acceptable_entry (=) (SliceOf int_type)) [(1, VInvalid)]"
    by (simp_all add: acceptable_entry_def)
  have k: "Kind int_type \<notin> {Chan_Kind, Func_Kind, Interface_Kind, Map_Kind, Ptr_Kind, Slice_Kind}"
    by (simp add: int_type_def)
  from nil_entry_needs_nilable_elements [where a = ?a and elemType = int_type
      and index = 1 and entries = ?e and assignable = "(=)" and expectedModel = ?m]
    mx acc k
  have "\<exists>i. (i, VInvalid) \<in> set ?e \<and>
          populateExpectedEntries (=) ?a ?e ?m =
            Inl (Bad ''expected value of #%d cannot be nil as items type is %s''
                   [AInt i, AType int_type])"
    by simp
  then have 1: "populateExpectedEntries (=) ?a ?e ?m =
            Inl (Bad ''expected value of #%d cannot be nil as items type is %s''
                   [AInt 1, AType int_type])" by auto
  note th = nil_entry_needs_nilable_elements [where a = ?b and elemType = "SliceOf int_type"
      and index = 1 and entries = "[(1, VInvalid)]" and assignable = "(=)"
      and expectedModel = ?n and model = "[]"]
  from th acc obtain built where
    b: "populateExpectedEntries (=) ?b [(1, VInvalid)] ?n = Inr built"
    by auto
  from th [where a' = built] b
  have "expectedEntries built ! nat 1 = VNil (SliceOf int_type)" by simp
  with b have 2: "\<exists>built. populateExpectedEntries (=) ?b [(1, VInvalid)] ?n = Inr built
       \<and> expectedEntries built ! nat 1 = VNil (SliceOf int_type)" by blast
  have 3: "list_all
       (\<lambda>elemType.
          populateExpectedEntries (=)
            \<lparr>expectedType = SliceOf elemType, isPtr = False, expectedEntries = []\<rparr>
            [(1, VInvalid)] (VSeq (SliceOf elemType) [])
          = Inr \<lparr>expectedType = SliceOf elemType, isPtr = False,
                 expectedEntries = [VNil elemType, VNil elemType]\<rparr>)
       [Basic ''chan int'' Chan_Kind, Basic ''func()'' Func_Kind,
        Basic ''interface {}'' Interface_Kind, Basic ''map[string]int'' Map_Kind,
        PtrTo int_type, SliceOf int_type]"
    by (simp add: populateExpectedEntries_def maxIndex_of_def entry_value_def nilable_def
          upt_conv_Cons eval_nat_numeral)
  from 1 2 3 show ?thesis by simp
qed


section \<open>Boolean-only mode\<close>

lemma only_appends_iff: "only_appends errs res \<longleftrightarrow> (\<exists>more. snd res = errs @ more)"
  unfolding only_appends_def
  by (metis append_eq_conv_conj append_take_drop_id)

lemma only_appends_refl: "only_appends errs (r, errs)"
  by (simp add: only_appends_def)

lemma only_appends_trans:
  assumes "only_appends errs r1" and "only_appends (snd r1) r2"
  shows "only_appends errs r2"
proof -
  from assms obtain m1 m2 where "snd r1 = errs @ m1" "snd r2 = snd r1 @ m2"
    unfolding only_appends_iff by blast
  then have "snd r2 = errs @ (m1 @ m2)" by simp
  then show ?thesis unfolding only_appends_iff by blast
qed

lemma stays_failed:
  assumes "only_appends errs r1" and "snd r1 \<noteq> errs" and "only_appends (snd r1) r2"
  shows "reports_failure errs r2"
proof -
  from assms obtain m1 m2 where m: "snd r1 = errs @ m1" "snd r2 = snd r1 @ m2"
    unfolding only_appends_iff by blast
  with assms(2) have "m1 \<noteq> []" by auto
  with m have "snd r2 \<noteq> errs" by simp
  then show ?thesis by (simp add: reports_failure_def)
qed

lemma not_reports: "\<not> reports_failure errs r \<longleftrightarrow> r = (None, errs)"
  by (cases r) (auto simp: reports_failure_def)

lemma Index_Some: "Len got = Some gotLen \<Longrightarrow> index < gotLen \<Longrightarrow> \<exists>item. Index got index = Some item"
  by (auto simp: Len_def Index_def split: option.splits)

lemma AddArrayIndex_BooleanError:
  "AddArrayIndex (ctx\<lparr>BooleanError := b\<rparr>) index = (AddArrayIndex ctx index)\<lparr>BooleanError := b\<rparr>"
  by (simp add: AddArrayIndex_def)

lemma ResetPath_BooleanError:
  "ResetPath (ctx\<lparr>BooleanError := b\<rparr>) root = (ResetPath ctx root)\<lparr>BooleanError := b\<rparr>"
  by (simp add: ResetPath_def)

lemma match_entries_appends:
  assumes deq_app: "\<And>ctx got expected errs. only_appends errs (deepValueEqual E ctx got expected errs)"
    and col_app: "\<And>ctx err errs. only_appends errs (CollectError E ctx err errs)"
    and len: "Len got = Some gotLen"
  shows "\<exists>r. match_entries E ctx got gotLen index es errs = Inr r \<and> only_appends errs r"
proof (induction es arbitrary: index errs)
  case Nil
  show ?case by (simp add: only_appends_refl)
next
  case (Cons e es)
  show ?case
  proof (cases "gotLen \<le> index")
    case True
    then show ?thesis using col_app
      by (simp add: Let_def only_appends_refl del: split_paired_Ex)
  next
    case False
    then obtain item where item: "Index got index = Some item"
      using Index_Some [OF len, of index] by auto
    obtain r errs' where d: "deepValueEqual E (AddArrayIndex ctx (int index)) item e errs = (r, errs')"
      by (cases "deepValueEqual E (AddArrayIndex ctx (int index)) item e errs")
    have app: "only_appends errs (r, errs')" using deq_app [of errs "AddArrayIndex ctx (int index)" item e] d by simp
    show ?thesis
    proof (cases r)
      case None
      from Cons.IH [of "Suc index" errs'] obtain r2 where
        r2: "match_entries E ctx got gotLen (Suc index) es errs' = Inr r2"
        "only_appends errs' r2" by blast
      have "only_appends errs r2" using only_appends_trans [OF app] r2(2) by simp
      then show ?thesis using False item d None r2(1)
        by (simp add: Let_def del: split_paired_Ex)
    next
      case (Some err)
      then show ?thesis using False item d app
        by (simp add: Let_def del: split_paired_Ex)
    qed
  qed
qed

lemma match_entries_boolean:
  assumes deq: "\<And>ctx got expected errs.
        reports_failure errs (deepValueEqual E (ctx\<lparr>BooleanError := True\<rparr>) got expected errs)
        \<longleftrightarrow> reports_failure errs (deepValueEqual E (ctx\<lparr>BooleanError := False\<rparr>) got expected errs)"
    and deq_app: "\<And>ctx got expected errs. only_appends errs (deepValueEqual E ctx got expected errs)"
    and col: "\<And>ctx err errs. reports_failure errs (CollectError E ctx err errs)"
    and col_app: "\<And>ctx err errs. only_appends errs (CollectError E ctx err errs)"
    and len: "Len got = Some gotLen"
    and T: "match_entries E (ctx\<lparr>BooleanError := True\<rparr>) got gotLen index es errs = Inr rT"
    and F: "match_entries E (ctx\<lparr>BooleanError := False\<rparr>) got gotLen index es errs = Inr rF"
  shows "reports_failure errs rT \<longleftrightarrow> reports_failure errs rF"
  using T F
proof (induction es arbitrary: index errs rT rF)
  case Nil
  then show ?case by auto
next
  case (Cons e es)
  note app = match_entries_appends [OF deq_app col_app len]
  show ?case
  proof (cases "gotLen \<le> index")
    case True
    have "reports_failure errs rT" using Cons.prems(1) True by (auto simp: reports_failure_def)
    moreover have "reports_failure errs rF" using Cons.prems(2) True col by (auto simp: Let_def)
    ultimately show ?thesis by simp
  next
    case False
    then obtain item where item: "Index got index = Some item"
      using Index_Some [OF len, of index] by auto
    let ?c = "AddArrayIndex ctx (int index)"
    let ?dT = "deepValueEqual E (?c\<lparr>BooleanError := True\<rparr>) item e errs"
    let ?dF = "deepValueEqual E (?c\<lparr>BooleanError := False\<rparr>) item e errs"
    have step: "reports_failure errs r"
      if d: "reports_failure errs (deepValueEqual E (?c\<lparr>BooleanError := b\<rparr>) item e errs)"
        and m: "match_entries E (ctx\<lparr>BooleanError := b\<rparr>) got gotLen index (e # es) errs = Inr r"
      for b r
    proof -
      obtain x errs' where x: "deepValueEqual E (?c\<lparr>BooleanError := b\<rparr>) item e errs = (x, errs')"
        by (cases "deepValueEqual E (?c\<lparr>BooleanError := b\<rparr>) item e errs")
      have xa: "only_appends errs (x, errs')"
        using deq_app [of errs "?c\<lparr>BooleanError := b\<rparr>" item e] x by simp
      show ?thesis
      proof (cases x)
        case (Some err)
        then show ?thesis using m False item x
          by (auto simp: Let_def AddArrayIndex_BooleanError reports_failure_def)
      next
        case None
        with d x have ne: "errs' \<noteq> errs" by (simp add: reports_failure_def)
        from m False item x None
        have r: "match_entries E (ctx\<lparr>BooleanError := b\<rparr>) got gotLen (Suc index) es errs' = Inr r"
          by (simp add: Let_def AddArrayIndex_BooleanError)
        from app [of "ctx\<lparr>BooleanError := b\<rparr>" "Suc index" es errs'] r
        have "only_appends errs' r" by simp
        then show ?thesis using stays_failed [OF xa, of r] ne by simp
      qed
    qed
    show ?thesis
    proof (cases "reports_failure errs ?dT")
      case True
      then have "reports_failure errs ?dF" using deq by simp
      with True step [of True rT] step [of False rF] Cons.prems show ?thesis by simp
    next
      case no: False
      then have dT: "?dT = (None, errs)" by (simp add: not_reports)
      from no have "\<not> reports_failure errs ?dF" using deq by simp
      then have dF: "?dF = (None, errs)" by (simp add: not_reports)
      from Cons.prems(1) False item dT
      have T': "match_entries E (ctx\<lparr>BooleanError := True\<rparr>) got gotLen (Suc index) es errs = Inr rT"
        by (simp add: Let_def AddArrayIndex_BooleanError)
      from Cons.prems(2) False item dF
      have F': "match_entries E (ctx\<lparr>BooleanError := False\<rparr>) got gotLen (Suc index) es errs = Inr rF"
        by (simp add: Let_def AddArrayIndex_BooleanError)
      from Cons.IH [OF T' F'] show ?thesis .
    qed
  qed
qed


lemma tdArray_Match_end:
  assumes "checkPtr E (tdExpectedType.truncate a) ctx got True = (None, got')"
    and "checkType E (tdExpectedType.truncate a) ctx got' = None"
    and "Len got' = Some gotLen"
    and "match_entries E ctx got' gotLen 0 (expectedEntries a) errs = Inr r"
  shows "\<exists>res. tdArray_Match E a ctx got errs = Inr res \<and>
           (if fst r \<noteq> None then res = r
            else if length (expectedEntries a) < gotLen then
              (if BooleanError ctx then res = (Some ctxerr_BooleanError, snd r)
               else \<exists>c e. res = CollectError E c e (snd r))
            else res = (None, snd r))"
proof -
  obtain x errs' where r: "r = (x, errs')" by (cases r)
  show ?thesis
  proof (cases "length (expectedEntries a) < gotLen")
    case True
    then obtain item where "Index got' (length (expectedEntries a)) = Some item"
      using Index_Some [OF assms(3)] by blast
    then show ?thesis using assms True r
      by (cases x) (auto simp: tdArray_Match_def simp del: split_paired_Ex)
  next
    case False
    then show ?thesis using assms r
      by (cases x) (auto simp: tdArray_Match_def simp del: split_paired_Ex)
  qed
qed

lemma tdArray_Match_boolean:
  assumes deq: "\<And>ctx got expected errs.
        reports_failure errs (deepValueEqual E (ctx\<lparr>BooleanError := True\<rparr>) got expected errs)
        \<longleftrightarrow> reports_failure errs (deepValueEqual E (ctx\<lparr>BooleanError := False\<rparr>) got expected errs)"
    and deq_app: "\<And>ctx got expected errs. only_appends errs (deepValueEqual E ctx got expected errs)"
    and col: "\<And>ctx err errs. reports_failure errs (CollectError E ctx err errs)"
    and col_app: "\<And>ctx err errs. only_appends errs (CollectError E ctx err errs)"
    and ptr: "\<And>t ctx got nilAllowed.
        (fst (checkPtr E t (ctx\<lparr>BooleanError := True\<rparr>) got nilAllowed) = None
          \<longleftrightarrow> fst (checkPtr E t (ctx\<lparr>BooleanError := False\<rparr>) got nilAllowed) = None)
        \<and> (fst (checkPtr E t (ctx\<lparr>BooleanError := True\<rparr>) got nilAllowed) = None \<longrightarrow>
             snd (checkPtr E t (ctx\<lparr>BooleanError := True\<rparr>) got nilAllowed)
             = snd (checkPtr E t (ctx\<lparr>BooleanError := False\<rparr>) got nilAllowed))"
    and ctype: "\<And>t ctx got.
        checkType E t (ctx\<lparr>BooleanError := True\<rparr>) got = None
        \<longleftrightarrow> checkType E t (ctx\<lparr>BooleanError := False\<rparr>) got = None"
  shows "verdict_of errs (tdArray_Match E a (ctx\<lparr>BooleanError := True\<rparr>) got errs)
         = verdict_of errs (tdArray_Match E a (ctx\<lparr>BooleanError := False\<rparr>) got errs)"
proof -
  let ?t = "tdExpectedType.truncate a"
  let ?T = "ctx\<lparr>BooleanError := True\<rparr>" and ?F = "ctx\<lparr>BooleanError := False\<rparr>"
  obtain pT gT where pT: "checkPtr E ?t ?T got True = (pT, gT)"
    by (cases "checkPtr E ?t ?T got True")
  obtain pF gF where pF: "checkPtr E ?t ?F got True = (pF, gF)"
    by (cases "checkPtr E ?t ?F got True")
  from ptr [of ?t ctx got True] pT pF
  have p: "pT = None \<longleftrightarrow> pF = None" "pT = None \<longrightarrow> gT = gF" by simp_all
  show ?thesis
  proof (cases pT)
    case (Some err)
    with p obtain err' where "pF = Some err'" by auto
    with Some pT pF col show ?thesis
      by (simp add: tdArray_Match_def verdict_of_def)
  next
    case None
    with p have pF': "pF = None" and g: "gF = gT" by simp_all
    show ?thesis
    proof (cases "checkType E ?t ?T gT")
      case (Some err)
      with ctype [of ?t ctx gT] obtain err' where "checkType E ?t ?F gT = Some err'" by auto
      with Some None pF' g pT pF col show ?thesis
        by (simp add: tdArray_Match_def verdict_of_def)
    next
      case tT: None
      with ctype [of ?t ctx gT] have tF: "checkType E ?t ?F gT = None" by simp
      show ?thesis
      proof (cases "Len gT")
        case lN: None
        with None pF' g pT pF tT tF show ?thesis
          by (simp add: tdArray_Match_def verdict_of_def)
      next
        case (Some gotLen)
        note app = match_entries_appends [OF deq_app col_app Some]
        from app [of ?T 0 "expectedEntries a" errs] obtain rT where
          rT: "match_entries E ?T gT gotLen 0 (expectedEntries a) errs = Inr rT"
          "only_appends errs rT" by blast
        from app [of ?F 0 "expectedEntries a" errs] obtain rF where
          rF: "match_entries E ?F gT gotLen 0 (expectedEntries a) errs = Inr rF"
          "only_appends errs rF" by blast
        have eq: "reports_failure errs rT \<longleftrightarrow> reports_failure errs rF"
          by (rule match_entries_boolean [OF deq deq_app col col_app Some rT(1) rF(1)])
        from tdArray_Match_end [of E a ?T got gT gotLen errs rT] pT None tT Some rT(1)
        obtain resT where resT: "tdArray_Match E a ?T got errs = Inr resT"
          "if fst rT \<noteq> None then resT = rT
            else if length (expectedEntries a) < gotLen
              then resT = (Some ctxerr_BooleanError, snd rT)
            else resT = (None, snd rT)" by auto
        from tdArray_Match_end [of E a ?F got gT gotLen errs rF] pF pF' g tF Some rF(1)
        obtain resF where resF: "tdArray_Match E a ?F got errs = Inr resF"
          "if fst rF \<noteq> None then resF = rF
            else if length (expectedEntries a) < gotLen
              then (\<exists>c e. resF = CollectError E c e (snd rF))
            else resF = (None, snd rF)" by auto
        have failed: "reports_failure errs res"
          if "reports_failure errs r" "only_appends errs r"
            "if fst r \<noteq> None then res = r
             else if length (expectedEntries a) < gotLen
               then res = (Some ctxerr_BooleanError, snd r) \<or> (\<exists>c e. res = CollectError E c e (snd r))
             else res = (None, snd r)" for r res
        proof (cases "fst r \<noteq> None")
          case True
          with that show ?thesis by simp
        next
          case False
          with that(1) have ne: "snd r \<noteq> errs" by (simp add: reports_failure_def)
          have "only_appends (snd r) res"
            using that(3) False col_app by (auto simp: only_appends_def split: if_splits)
          from stays_failed [OF that(2) ne this] show ?thesis .
        qed
        show ?thesis
        proof (cases "reports_failure errs rT")
          case True
          with eq have "reports_failure errs rF" by simp
          with True failed [of rT resT] failed [of rF resF] rT(2) rF(2) resT resF
          show ?thesis by (auto simp: verdict_of_def split: if_splits)
        next
          case False
          with eq have "rT = (None, errs)" "rF = (None, errs)" by (simp_all add: not_reports)
          with resT resF col show ?thesis
            by (auto simp: verdict_of_def reports_failure_def split: if_splits)
        qed
      qed
    qed
  qed
qed


lemma doesNotMatch_reports:
  assumes col: "\<And>ctx err errs. reports_failure errs (CollectError E ctx err errs)"
  shows "reports_failure errs (doesNotMatch E r ctx got errs)"
  using col by (simp add: doesNotMatch_def reports_failure_def)

lemma matchCaptures_boolean:
  assumes deq: "\<And>ctx got expected errs.
        reports_failure errs (deepValueEqual E (ctx\<lparr>BooleanError := True\<rparr>) got expected errs)
        \<longleftrightarrow> reports_failure errs (deepValueEqual E (ctx\<lparr>BooleanError := False\<rparr>) got expected errs)"
  shows "reports_failure errs (matchCaptures E r (ctx\<lparr>BooleanError := True\<rparr>) c errs)
         \<longleftrightarrow> reports_failure errs (matchCaptures E r (ctx\<lparr>BooleanError := False\<rparr>) c errs)"
  using deq by (simp add: matchCaptures_def ResetPath_BooleanError)

lemma tdRe_Match_boolean:
  assumes deq: "\<And>ctx got expected errs.
        reports_failure errs (deepValueEqual E (ctx\<lparr>BooleanError := True\<rparr>) got expected errs)
        \<longleftrightarrow> reports_failure errs (deepValueEqual E (ctx\<lparr>BooleanError := False\<rparr>) got expected errs)"
    and col: "\<And>ctx err errs. reports_failure errs (CollectError E ctx err errs)"
    and valid: "IsValid got"
  shows "verdict_of errs (tdRe_Match E r (ctx\<lparr>BooleanError := True\<rparr>) got errs)
         = verdict_of errs (tdRe_Match E r (ctx\<lparr>BooleanError := False\<rparr>) got errs)"
proof -
  note dnm = doesNotMatch_reports [OF col]
  note mc = matchCaptures_boolean [OF deq]
  have bytes: "verdict_of errs (matchByteCaptures E r (ctx\<lparr>BooleanError := True\<rparr>) g result errs)
      = verdict_of errs (matchByteCaptures E r (ctx\<lparr>BooleanError := False\<rparr>) g result errs)"
    for g result
    using dnm mc by (simp add: matchByteCaptures_def verdict_of_def split: option.splits)
  have str: "verdict_of errs (match_str E r (ctx\<lparr>BooleanError := True\<rparr>) s errs)
      = verdict_of errs (match_str E r (ctx\<lparr>BooleanError := False\<rparr>) s errs)" for s
    using dnm mc
    by (simp add: match_str_def matchStringCaptures_def matchBool_def verdict_of_def
          split: option.splits)
  have bool: "verdict_of errs (Inr (matchBool E r (ctx\<lparr>BooleanError := True\<rparr>) g res errs))
      = verdict_of errs (Inr (matchBool E r (ctx\<lparr>BooleanError := False\<rparr>) g res errs))"
    for g res
    using dnm by (simp add: matchBool_def verdict_of_def)
  have c: "verdict_of errs (Inr (CollectError E c e errs)) = Mismatch" for c e
    using col by (simp add: verdict_of_def)
  have b: "verdict_of errs (Inr (Some ctxerr_BooleanError, errs)) = Mismatch"
    by (simp add: verdict_of_def reports_failure_def)
  have other: "verdict_of errs
        (if BooleanError (ctx\<lparr>BooleanError := True\<rparr>) then Inr (Some ctxerr_BooleanError, errs)
         else Inr (CollectError E c1 e1 errs))
      = verdict_of errs
        (if BooleanError (ctx\<lparr>BooleanError := False\<rparr>) then Inr (Some ctxerr_BooleanError, errs)
         else Inr (CollectError E c2 e2 errs))" for c1 e1 c2 e2
    by (simp add: c b)
  show ?thesis
  proof (cases "Kind_of got = String_Kind")
    case True
    then show ?thesis by (cases got) (simp_all add: tdRe_Match_def str)
  next
    case notString: False
    show ?thesis
    proof (cases "Kind_of got = Slice_Kind")
      case True
      show ?thesis
      proof (cases "Option.bind (Type_of got) Elem")
        case None
        with True notString show ?thesis by (simp add: tdRe_Match_def)
      next
        case (Some elemType)
        show ?thesis
        proof (cases "Kind elemType = Uint8_Kind")
          case u: True
          show ?thesis
          proof (cases "Bytes got")
            case None
            with True notString Some u show ?thesis by (simp add: tdRe_Match_def)
          next
            case (Some gotBytes)
            with True notString \<open>Option.bind (Type_of got) Elem = Some elemType\<close> u
            show ?thesis by (simp add: tdRe_Match_def bytes bool)
          qed
        next
          case False
          with True notString Some show ?thesis by (simp add: tdRe_Match_def c b)
        qed
      qed
    next
      case notSlice: False
      show ?thesis
      proof (cases "GetInterface E got True")
        case None
        with notString notSlice show ?thesis by (simp add: tdRe_Match_def)
      next
        case (Some iface)
        show ?thesis
        proof (cases "error_view iface")
          case e: (Some str)
          with notString notSlice Some show ?thesis by (simp add: tdRe_Match_def str)
        next
          case e: None
          show ?thesis
          proof (cases "Stringer_view iface")
            case s: (Some str)
            with notString notSlice Some e show ?thesis by (simp add: tdRe_Match_def str)
          next
            case s: None
            show ?thesis
            proof (cases "Type_of got")
              case None
              with valid show ?thesis by (cases got) simp_all
            next
              case t: (Some gt)
              with notString notSlice Some e s show ?thesis
                by (simp add: tdRe_Match_def c b)
            qed
          qed
        qed
      qed
    qed
  qed
qed

lemma gotViaJSON_boolean:
  "(\<exists>eT eF. gotViaJSON E (ctx\<lparr>BooleanError := True\<rparr>) got = Inl eT
             \<and> gotViaJSON E (ctx\<lparr>BooleanError := False\<rparr>) got = Inl eF)
   \<or> (\<exists>got'. gotViaJSON E (ctx\<lparr>BooleanError := True\<rparr>) got = Inr got'
             \<and> gotViaJSON E (ctx\<lparr>BooleanError := False\<rparr>) got = Inr got')"
  by (simp add: gotViaJSON_unfold split: option.splits sum.splits)

lemma BeLax_BooleanError:
  "(ctx\<lparr>BooleanError := b\<rparr>)\<lparr>BeLax := True\<rparr> = (ctx\<lparr>BeLax := True\<rparr>)\<lparr>BooleanError := b\<rparr>"
  by simp

lemma tdJSON_Match_boolean:
  assumes deq: "\<And>ctx got expected errs.
        reports_failure errs (deepValueEqual E (ctx\<lparr>BooleanError := True\<rparr>) got expected errs)
        \<longleftrightarrow> reports_failure errs (deepValueEqual E (ctx\<lparr>BooleanError := False\<rparr>) got expected errs)"
    and col: "\<And>ctx err errs. reports_failure errs (CollectError E ctx err errs)"
  shows "reports_failure errs (tdJSON_Match E j (ctx\<lparr>BooleanError := True\<rparr>) got errs)
         \<longleftrightarrow> reports_failure errs (tdJSON_Match E j (ctx\<lparr>BooleanError := False\<rparr>) got errs)"
  using gotViaJSON_boolean [of E ctx got]
proof (elim disjE exE conjE)
  fix eT eF
  assume "gotViaJSON E (ctx\<lparr>BooleanError := True\<rparr>) got = Inl eT"
    "gotViaJSON E (ctx\<lparr>BooleanError := False\<rparr>) got = Inl eF"
  then show ?thesis using col by (simp add: tdJSON_Match_def)
next
  fix got'
  assume "gotViaJSON E (ctx\<lparr>BooleanError := True\<rparr>) got = Inr got'"
    "gotViaJSON E (ctx\<lparr>BooleanError := False\<rparr>) got = Inr got'"
  then show ?thesis
    using deq [of errs "ctx\<lparr>BeLax := True\<rparr>" got' "expected j"]
    by (simp only: tdJSON_Match_def sum.case BeLax_BooleanError)
qed

lemma tdMapJSON_Match_boolean:
  assumes col: "\<And>ctx err errs. reports_failure errs (CollectError E ctx err errs)"
    and mp: "\<And>m ctx got errs.
        reports_failure errs (tdMap_match E m (ctx\<lparr>BooleanError := True\<rparr>) got errs)
        \<longleftrightarrow> reports_failure errs (tdMap_match E m (ctx\<lparr>BooleanError := False\<rparr>) got errs)"
  shows "reports_failure errs (tdMapJSON_Match E m (ctx\<lparr>BooleanError := True\<rparr>) got errs)
         \<longleftrightarrow> reports_failure errs (tdMapJSON_Match E m (ctx\<lparr>BooleanError := False\<rparr>) got errs)"
  using gotViaJSON_boolean [of E ctx got]
proof (elim disjE exE conjE)
  fix eT eF
  assume "gotViaJSON E (ctx\<lparr>BooleanError := True\<rparr>) got = Inl eT"
    "gotViaJSON E (ctx\<lparr>BooleanError := False\<rparr>) got = Inl eF"
  then show ?thesis using col by (simp add: tdMapJSON_Match_def)
next
  fix got'
  assume g: "gotViaJSON E (ctx\<lparr>BooleanError := True\<rparr>) got = Inr got'"
    "gotViaJSON E (ctx\<lparr>BooleanError := False\<rparr>) got = Inr got'"
  show ?thesis
  proof (cases "IsValid got'")
    case True
    then show ?thesis
      using g mp [of errs "tdMap.truncate m" "ctx\<lparr>BeLax := True\<rparr>" got']
      by (simp only: tdMapJSON_Match_def sum.case BeLax_BooleanError not_True_eq_False if_False)
  next
    case False
    have "reports_failure errs (Some ctxerr_BooleanError, errs)"
      by (simp add: reports_failure_def)
    then show ?thesis using g False col by (simp add: tdMapJSON_Match_def)
  qed
qed


lemma CollectError_spec_reports: "reports_failure errs (CollectError_spec ctx err errs)"
  by (cases err) (simp_all add: CollectError_spec_def reports_failure_def Let_def)

lemma CollectError_spec_appends: "only_appends errs (CollectError_spec ctx err errs)"
  by (cases err) (simp_all add: CollectError_spec_def only_appends_def Let_def)

lemma deepValueEqual_literal_boolean:
  "reports_failure errs (deepValueEqual_literal (ctx\<lparr>BooleanError := True\<rparr>) got expected' errs)
   \<longleftrightarrow> reports_failure errs (deepValueEqual_literal (ctx\<lparr>BooleanError := False\<rparr>) got expected' errs)"
  using CollectError_spec_reports
  by (simp add: deepValueEqual_literal_def reports_failure_def)

lemma deepValueEqual_literal_appends:
  "only_appends errs (deepValueEqual_literal ctx got expected' errs)"
  using CollectError_spec_appends
  by (simp add: deepValueEqual_literal_def only_appends_def)

lemma checkPtr_spec_boolean:
  "(fst (checkPtr_spec t (ctx\<lparr>BooleanError := True\<rparr>) got nilAllowed) = None
      \<longleftrightarrow> fst (checkPtr_spec t (ctx\<lparr>BooleanError := False\<rparr>) got nilAllowed) = None)
   \<and> (fst (checkPtr_spec t (ctx\<lparr>BooleanError := True\<rparr>) got nilAllowed) = None \<longrightarrow>
         snd (checkPtr_spec t (ctx\<lparr>BooleanError := True\<rparr>) got nilAllowed)
         = snd (checkPtr_spec t (ctx\<lparr>BooleanError := False\<rparr>) got nilAllowed))"
  by (cases got) (simp_all add: checkPtr_spec_def)

lemma checkType_spec_boolean:
  "checkType_spec t (ctx\<lparr>BooleanError := True\<rparr>) got = None
   \<longleftrightarrow> checkType_spec t (ctx\<lparr>BooleanError := False\<rparr>) got = None"
  by (simp add: checkType_spec_def)

lemma tdMap_match_spec_boolean:
  "reports_failure errs (tdMap_match_spec m (ctx\<lparr>BooleanError := True\<rparr>) got errs)
   \<longleftrightarrow> reports_failure errs (tdMap_match_spec m (ctx\<lparr>BooleanError := False\<rparr>) got errs)"
proof -
  have b: "reports_failure errs (Some ctxerr_BooleanError, errs)"
    by (simp add: reports_failure_def)
  show ?thesis
    by (cases got) (simp_all add: tdMap_match_spec_def CollectError_spec_reports b)
qed

text \<open>
  Claim C2. Suppose that the functions \<open>Match\<close> calls behave alike in the two modes:
  the dispatcher and the map comparison report a mismatch with the boolean-only flag set
  exactly when they do with the flag clear, \<open>checkPtr\<close> and \<open>checkType\<close> return an
  error in one mode exactly when they do in the other (and \<open>checkPtr\<close> leaves the same
  value), \<open>CollectError\<close> always reports the error it is given, and the dispatcher and
  \<open>CollectError\<close> only append to the list of errors. Then for every operator (Array and
  Slice, Re and ReAll, JSON, SubJSONOf and SuperJSONOf), every context, every value and
  every list of errors so far, \<open>Match\<close> with the flag set reports a mismatch (returns
  an error or leaves a longer list of errors) exactly when \<open>Match\<close> with the flag clear
  does, and panics exactly when it does. For Re and ReAll the value is a valid one, as
  the dispatcher hands no other to an operator that does not accept it.
\<close>

theorem boolean_only_same_verdict:
  assumes deq: "\<And>ctx got expected errs.
        reports_failure errs (deepValueEqual E (ctx\<lparr>BooleanError := True\<rparr>) got expected errs)
        \<longleftrightarrow> reports_failure errs (deepValueEqual E (ctx\<lparr>BooleanError := False\<rparr>) got expected errs)"
    and deq_app: "\<And>ctx got expected errs. only_appends errs (deepValueEqual E ctx got expected errs)"
    and col: "\<And>ctx err errs. reports_failure errs (CollectError E ctx err errs)"
    and col_app: "\<And>ctx err errs. only_appends errs (CollectError E ctx err errs)"
    and ptr: "\<And>t ctx got nilAllowed.
        (fst (checkPtr E t (ctx\<lparr>BooleanError := True\<rparr>) got nilAllowed) = None
          \<longleftrightarrow> fst (checkPtr E t (ctx\<lparr>BooleanError := False\<rparr>) got nilAllowed) = None)
        \<and> (fst (checkPtr E t (ctx\<lparr>BooleanError := True\<rparr>) got nilAllowed) = None \<longrightarrow>
             snd (checkPtr E t (ctx\<lparr>BooleanError := True\<rparr>) got nilAllowed)
             = snd (checkPtr E t (ctx\<lparr>BooleanError := False\<rparr>) got nilAllowed))"
    and ctype: "\<And>t ctx got.
        checkType E t (ctx\<lparr>BooleanError := True\<rparr>) got = None
        \<longleftrightarrow> checkType E t (ctx\<lparr>BooleanError := False\<rparr>) got = None"
    and mp: "\<And>m ctx got errs.
        reports_failure errs (tdMap_match E m (ctx\<lparr>BooleanError := True\<rparr>) got errs)
        \<longleftrightarrow> reports_failure errs (tdMap_match E m (ctx\<lparr>BooleanError := False\<rparr>) got errs)"
  shows "verdict_of errs (tdArray_Match E a (ctx\<lparr>BooleanError := True\<rparr>) got errs)
           = verdict_of errs (tdArray_Match E a (ctx\<lparr>BooleanError := False\<rparr>) got errs)
       \<and> (IsValid got \<longrightarrow>
            verdict_of errs (tdRe_Match E r (ctx\<lparr>BooleanError := True\<rparr>) got errs)
              = verdict_of errs (tdRe_Match E r (ctx\<lparr>BooleanError := False\<rparr>) got errs))
       \<and> (reports_failure errs (tdJSON_Match E j (ctx\<lparr>BooleanError := True\<rparr>) got errs)
            \<longleftrightarrow> reports_failure errs (tdJSON_Match E j (ctx\<lparr>BooleanError := False\<rparr>) got errs))
       \<and> (reports_failure errs (tdMapJSON_Match E m (ctx\<lparr>BooleanError := True\<rparr>) got errs)
            \<longleftrightarrow> reports_failure errs (tdMapJSON_Match E m (ctx\<lparr>BooleanError := False\<rparr>) got errs))"
proof (intro conjI impI)
  show "verdict_of errs (tdArray_Match E a (ctx\<lparr>BooleanError := True\<rparr>) got errs)
           = verdict_of errs (tdArray_Match E a (ctx\<lparr>BooleanError := False\<rparr>) got errs)"
    by (rule tdArray_Match_boolean [OF deq deq_app col col_app ptr ctype])
next
  assume "IsValid got"
  then show "verdict_of errs (tdRe_Match E r (ctx\<lparr>BooleanError := True\<rparr>) got errs)
              = verdict_of errs (tdRe_Match E r (ctx\<lparr>BooleanError := False\<rparr>) got errs)"
    by (rule tdRe_Match_boolean [OF deq col])
next
  show "reports_failure errs (tdJSON_Match E j (ctx\<lparr>BooleanError := True\<rparr>) got errs)
            \<longleftrightarrow> reports_failure errs (tdJSON_Match E j (ctx\<lparr>BooleanError := False\<rparr>) got errs)"
    by (rule tdJSON_Match_boolean [OF deq col])
next
  show "reports_failure errs (tdMapJSON_Match E m (ctx\<lparr>BooleanError := True\<rparr>) got errs)
            \<longleftrightarrow> reports_failure errs (tdMapJSON_Match E m (ctx\<lparr>BooleanError := False\<rparr>) got errs)"
    by (rule tdMapJSON_Match_boolean [OF col mp])
qed


theorem boolean_only_same_verdict_witness:
  "verdict_of []
     (tdArray_Match env_spec
        \<lparr>expectedType = ArrayOf 3 int_type, isPtr = False,
         expectedEntries = [VInt int_type 12, VInt int_type 14, VInt int_type 17]\<rparr>
        (ctx_DATA\<lparr>BooleanError := False\<rparr>)
        (VSeq (ArrayOf 3 int_type) [VInt int_type 12, VInt int_type 14, VInt int_type 18]) [])
     = Mismatch
   \<and> verdict_of []
     (tdArray_Match env_spec
        \<lparr>expectedType = ArrayOf 3 int_type, isPtr = False,
         expectedEntries = [VInt int_type 12, VInt int_type 14, VInt int_type 17]\<rparr>
        (ctx_DATA\<lparr>BooleanError := False\<rparr>)
        (VSeq (ArrayOf 3 int_type) [VInt int_type 12, VInt int_type 14, VInt int_type 17]) [])
     = Matched
   \<and> verdict_of []
     (tdRe_Match env_spec \<lparr>re = two_words_Regexp, captures = VInvalid, numMatches = 1\<rparr>
        (ctx_DATA\<lparr>BooleanError := False\<rparr>) (VStr string_type ''John'') [])
     = Mismatch
   \<and> reports_failure []
     (tdJSON_Match env_spec \<lparr>expected = VBool bool_type True\<rparr>
        (ctx_DATA\<lparr>BooleanError := False\<rparr>) (VBool bool_type False) [])
   \<and> reports_failure []
     (tdMapJSON_Match env_spec
        \<lparr>expectedType = map_string_interface, isPtr = False, mapKind = subMap, mapEntries = [],
         expected_JSON = VMap map_string_interface []\<rparr>
        (ctx_DATA\<lparr>BooleanError := False\<rparr>) VInvalid [])"
proof -
  let ?a = "\<lparr>expectedType = ArrayOf 3 int_type, isPtr = False,
         expectedEntries = [VInt int_type 12, VInt int_type 14, VInt int_type 17]\<rparr>"
  let ?bad = "VSeq (ArrayOf 3 int_type) [VInt int_type 12, VInt int_type 14, VInt int_type 18]"
  let ?ok = "VSeq (ArrayOf 3 int_type) [VInt int_type 12, VInt int_type 14, VInt int_type 17]"
  let ?r = "\<lparr>re = two_words_Regexp, captures = VInvalid, numMatches = 1\<rparr>"
  let ?j = "\<lparr>expected = VBool bool_type True\<rparr>"
  let ?m = "\<lparr>expectedType = map_string_interface, isPtr = False, mapKind = subMap,
         mapEntries = [], expected_JSON = VMap map_string_interface []\<rparr>"
  let ?T = "ctx_DATA\<lparr>BooleanError := True\<rparr>"
  have e: "deepValueEqual env_spec = deepValueEqual_literal"
    "CollectError env_spec = CollectError_spec" "checkPtr env_spec = checkPtr_spec"
    "checkType env_spec = checkType_spec" "tdMap_match env_spec = tdMap_match_spec"
    by (simp_all add: env_spec_def)
  have th: "verdict_of [] (tdArray_Match env_spec a ?T got [])
           = verdict_of [] (tdArray_Match env_spec a (ctx_DATA\<lparr>BooleanError := False\<rparr>) got [])
       \<and> (IsValid got \<longrightarrow>
            verdict_of [] (tdRe_Match env_spec r ?T got [])
              = verdict_of [] (tdRe_Match env_spec r (ctx_DATA\<lparr>BooleanError := False\<rparr>) got []))
       \<and> (reports_failure [] (tdJSON_Match env_spec j ?T got [])
            \<longleftrightarrow> reports_failure [] (tdJSON_Match env_spec j (ctx_DATA\<lparr>BooleanError := False\<rparr>) got []))
       \<and> (reports_failure [] (tdMapJSON_Match env_spec m ?T got [])
            \<longleftrightarrow> reports_failure [] (tdMapJSON_Match env_spec m (ctx_DATA\<lparr>BooleanError := False\<rparr>) got []))"
    for a got r j m
    by (rule boolean_only_same_verdict [where E = env_spec]; simp only: e;
        rule deepValueEqual_literal_boolean deepValueEqual_literal_appends
          CollectError_spec_reports CollectError_spec_appends checkPtr_spec_boolean
          checkType_spec_boolean tdMap_match_spec_boolean)
  have 1: "verdict_of [] (tdArray_Match env_spec ?a ?T ?bad []) = Mismatch"
    by (simp add: tdArray_Match_def env_spec_def checkPtr_spec_def checkType_spec_def
        tdExpectedType.defs tdArray.defs Len_def Index_def deepValueEqual_literal_def
        ctx_DATA_def AddArrayIndex_def verdict_of_def reports_failure_def)
  have 2: "verdict_of [] (tdArray_Match env_spec ?a ?T ?ok []) = Matched"
    by (simp add: tdArray_Match_def env_spec_def checkPtr_spec_def checkType_spec_def
        tdExpectedType.defs tdArray.defs Len_def Index_def deepValueEqual_literal_def
        ctx_DATA_def AddArrayIndex_def verdict_of_def reports_failure_def)
  have 3: "verdict_of [] (tdRe_Match env_spec ?r ?T (VStr string_type ''John'') []) = Mismatch"
    by (simp add: tdRe_Match_def Kind_of_def string_type_def match_str_def needCaptures_def
        matchBool_def doesNotMatch_def two_words_Regexp_def two_words_def word_char_def
        ctx_DATA_def verdict_of_def reports_failure_def)
  have 4: "reports_failure [] (tdJSON_Match env_spec ?j ?T (VBool bool_type False) [])"
    by (simp add: tdJSON_Match_def gotViaJSON_unfold env_spec_def Unmarshal_small_def
        deepValueEqual_literal_def ctx_DATA_def reports_failure_def)
  have 5: "reports_failure [] (tdMapJSON_Match env_spec ?m ?T VInvalid [])"
    by (simp add: tdMapJSON_Match_def gotViaJSON_unfold env_spec_def Unmarshal_small_def
        ctx_DATA_def reports_failure_def)
  from th [of ?a ?bad] th [of ?a ?ok] th [of _ "VStr string_type ''John''" ?r]
    th [of _ "VBool bool_type False" _ ?j] th [of _ VInvalid _ _ ?m] 1 2 3 4 5
  show ?thesis by simp
qed

section \<open>SubJSONOf and SuperJSONOf: a value that is not a mapping\<close>

lemma is_mapping_IsValid: "is_mapping v \<Longrightarrow> IsValid v"
  by (cases v) simp_all

lemma tdMap_match_spec_not_mapping:
  "\<not> is_mapping v \<Longrightarrow>
   tdMap_match_spec m ctx v errs =
     (if BooleanError ctx then (Some ctxerr_BooleanError, errs)
      else CollectError_spec ctx
             (Err \<lparr>Ctx = None, Message = ''values differ'', Got = Value v,
                   Expected = RawString ''non-null mapping'', Summary = None\<rparr>) errs)"
  by (cases v) (simp_all add: tdMap_match_spec_def)

text \<open>
  Claim C7. \<open>Match\<close> of \<open>SubJSONOf\<close> and \<open>SuperJSONOf\<close>, once the value has gone
  through the JSON round trip, with the map comparison \<open>tdMap.match\<close> as the spec gives
  it. When the decoded value is null, the result is the mismatch "values differ" with
  got \<open>null\<close> and expected \<open>non-null\<close>, handed to \<open>CollectError\<close> (the boolean error
  in boolean-only mode), and the map comparison is not consulted. When the decoded
  value is not null and not a mapping, the result is the mismatch "values differ" with
  the value and expected \<open>non-null mapping\<close>, in the context with \<open>BeLax\<close> set. When
  it is a mapping, the result is what the map comparison returns in that context. So,
  when \<open>CollectError\<close> reports every error handed to it, \<open>Match\<close> reports a mismatch
  on every value that does not decode to a mapping.
\<close>

theorem MapJSON_Match_requires_mapping:
  assumes mp: "tdMap_match E = tdMap_match_spec"
    and rt: "GetInterface E got True = Some gotIf" "Marshal_json E gotIf = Inr b"
  shows "(\<not> IsValid (Unmarshal_json E b) \<longrightarrow>
            tdMapJSON_Match E m ctx got errs =
              (if BooleanError ctx then (Some ctxerr_BooleanError, errs)
               else CollectError E ctx
                      (Err \<lparr>Ctx = None, Message = ''values differ'', Got = RawString ''null'',
                            Expected = RawString ''non-null'', Summary = None\<rparr>) errs))
       \<and> (IsValid (Unmarshal_json E b) \<and> \<not> is_mapping (Unmarshal_json E b) \<longrightarrow>
            tdMapJSON_Match E m ctx got errs =
              (if BooleanError ctx then (Some ctxerr_BooleanError, errs)
               else CollectError_spec (ctx\<lparr>BeLax := True\<rparr>)
                      (Err \<lparr>Ctx = None, Message = ''values differ'',
                            Got = Value (Unmarshal_json E b),
                            Expected = RawString ''non-null mapping'', Summary = None\<rparr>) errs))
       \<and> (is_mapping (Unmarshal_json E b) \<longrightarrow>
            tdMapJSON_Match E m ctx got errs =
              tdMap_match_spec (tdMap.truncate m) (ctx\<lparr>BeLax := True\<rparr>)
                (Unmarshal_json E b) errs)
       \<and> ((\<forall>c e es. reports_failure es (CollectError E c (Err e) es))
            \<and> \<not> is_mapping (Unmarshal_json E b) \<longrightarrow>
            reports_failure errs (tdMapJSON_Match E m ctx got errs))"
proof -
  let ?v = "Unmarshal_json E b"
  have null: "tdMapJSON_Match E m ctx got errs =
              (if BooleanError ctx then (Some ctxerr_BooleanError, errs)
               else CollectError E ctx
                      (Err \<lparr>Ctx = None, Message = ''values differ'', Got = RawString ''null'',
                            Expected = RawString ''non-null'', Summary = None\<rparr>) errs)"
    if "\<not> IsValid ?v"
    using that rt by (simp add: tdMapJSON_Match_def gotViaJSON_unfold)
  have valid: "tdMapJSON_Match E m ctx got errs =
              tdMap_match_spec (tdMap.truncate m) (ctx\<lparr>BeLax := True\<rparr>) ?v errs"
    if "IsValid ?v"
    using that rt mp by (simp add: tdMapJSON_Match_def gotViaJSON_unfold)
  have other: "tdMapJSON_Match E m ctx got errs =
              (if BooleanError ctx then (Some ctxerr_BooleanError, errs)
               else CollectError_spec (ctx\<lparr>BeLax := True\<rparr>)
                      (Err \<lparr>Ctx = None, Message = ''values differ'', Got = Value ?v,
                            Expected = RawString ''non-null mapping'', Summary = None\<rparr>) errs)"
    if "IsValid ?v" "\<not> is_mapping ?v"
    using valid [OF that(1)] tdMap_match_spec_not_mapping [OF that(2)] by simp
  have rep: "reports_failure errs (tdMapJSON_Match E m ctx got errs)"
    if col: "\<forall>c e es. reports_failure es (CollectError E c (Err e) es)" and "\<not> is_mapping ?v"
  proof (cases "IsValid ?v")
    case True
    from other [OF True that(2)] show ?thesis
      using CollectError_spec_reports by (simp add: reports_failure_def)
  next
    case False
    from null [OF False] show ?thesis
      using col by (simp add: reports_failure_def)
  qed
  from null other valid rep is_mapping_IsValid show ?thesis by blast
qed

theorem MapJSON_Match_requires_mapping_witness:
  "tdMapJSON_Match env_spec
      \<lparr>expectedType = map_string_interface, isPtr = False, mapKind = superMap, mapEntries = [],
       expected_JSON = VMap map_string_interface []\<rparr> ctx_DATA
      (VNil (PtrTo (Basic ''td_test.MyStruct'' Struct_Kind))) []
   = (None, [\<lparr>Ctx = Some ctx_DATA, Message = ''values differ'', Got = RawString ''null'',
               Expected = RawString ''non-null'', Summary = None\<rparr>])
   \<and> tdMapJSON_Match env_spec
      \<lparr>expectedType = map_string_interface, isPtr = False, mapKind = superMap, mapEntries = [],
       expected_JSON = VMap map_string_interface []\<rparr> ctx_DATA
      (VSeq (SliceOf int_type) []) []
   = (None, [\<lparr>Ctx = Some (ctx_DATA\<lparr>BeLax := True\<rparr>), Message = ''values differ'',
               Got = Value (VSeq SliceInterface []),
               Expected = RawString ''non-null mapping'', Summary = None\<rparr>])
   \<and> reports_failure []
       (tdMapJSON_Match env_spec
          \<lparr>expectedType = map_string_interface, isPtr = False, mapKind = superMap,
           mapEntries = [], expected_JSON = VMap map_string_interface []\<rparr> ctx_DATA
          (VBool bool_type True) [])
   \<and> tdMapJSON_Match env_spec
      \<lparr>expectedType = map_string_interface, isPtr = False, mapKind = superMap, mapEntries = [],
       expected_JSON = VMap map_string_interface []\<rparr> ctx_DATA
      (VMap (Basic ''map[string]int'' Map_Kind) []) []
   = (None, [])"
proof -
  let ?m = "\<lparr>expectedType = map_string_interface, isPtr = False, mapKind = superMap,
             mapEntries = [], expected_JSON = VMap map_string_interface []\<rparr>"
  let ?n = "VNil (PtrTo (Basic ''td_test.MyStruct'' Struct_Kind))"
  let ?s = "VSeq (SliceOf int_type) []"
  let ?t = "VBool bool_type True"
  let ?g = "VMap (Basic ''map[string]int'' Map_Kind) []"
  have mp: "tdMap_match env_spec = tdMap_match_spec"
    by (simp add: env_spec_def)
  have g: "GetInterface env_spec v True = Some v" for v
    by (simp add: env_spec_def)
  have ma: "Marshal_json env_spec ?n = Inr ''null''" "Marshal_json env_spec ?s = Inr ''[]''"
    "Marshal_json env_spec ?t = Inr ''true''" "Marshal_json env_spec ?g = Inr ''{}''"
    by (simp_all add: env_spec_def)
  have u: "Unmarshal_json env_spec ''null'' = VInvalid"
    "Unmarshal_json env_spec ''[]'' = VSeq SliceInterface []"
    "Unmarshal_json env_spec ''true'' = VBool bool_type True"
    "Unmarshal_json env_spec ''{}'' = VMap map_string_interface []"
    by (simp_all add: env_spec_def Unmarshal_small_def)
  have c: "CollectError env_spec ctx_DATA (Err e) [] =
             (None, [if Ctx e = None then e\<lparr>Ctx := Some ctx_DATA\<rparr> else e])"
    "CollectError_spec (ctx_DATA\<lparr>BeLax := True\<rparr>) (Err e) [] =
             (None, [if Ctx e = None then e\<lparr>Ctx := Some (ctx_DATA\<lparr>BeLax := True\<rparr>)\<rparr> else e])"
    for e
    by (simp_all add: env_spec_def CollectError_spec_def ctx_DATA_def)
  have col: "\<forall>c e es. reports_failure es (CollectError env_spec c (Err e) es)"
    using CollectError_spec_reports by (simp add: env_spec_def)
  have nb: "\<not> BooleanError ctx_DATA" by (simp add: ctx_DATA_def)
  have t: "tdMap_match_spec
             \<lparr>expectedType = map_string_interface, isPtr = False, mapKind = superMap, mapEntries = []\<rparr>
             ctx (VMap map_string_interface []) [] = (None, [])" for ctx
    by (simp add: tdMap_match_spec_def)
  note th = MapJSON_Match_requires_mapping [OF mp g, where m = ?m and ctx = ctx_DATA
      and errs = "[]"]
  have 1: "tdMapJSON_Match env_spec ?m ctx_DATA ?n [] =
     (None, [\<lparr>Ctx = Some ctx_DATA, Message = ''values differ'', Got = RawString ''null'',
               Expected = RawString ''non-null'', Summary = None\<rparr>])"
    using th [OF ma(1)] u c nb by simp
  have 2: "tdMapJSON_Match env_spec ?m ctx_DATA ?s [] =
     (None, [\<lparr>Ctx = Some (ctx_DATA\<lparr>BeLax := True\<rparr>), Message = ''values differ'',
               Got = Value (VSeq SliceInterface []),
               Expected = RawString ''non-null mapping'', Summary = None\<rparr>])"
    using th [OF ma(2)] u c nb by simp
  have 3: "reports_failure [] (tdMapJSON_Match env_spec ?m ctx_DATA ?t [])"
    using th [OF ma(3), THEN conjunct2, THEN conjunct2, THEN conjunct2] u col by simp
  have 4: "tdMapJSON_Match env_spec ?m ctx_DATA ?g [] = (None, [])"
    using th [OF ma(4)] u t
    by (simp add: tdMap.truncate_def tdExpectedType.defs tdMap.defs)
  from 1 2 3 4 show ?thesis by simp
qed

end
